(* ===== verification/Prelude.thy ===== *)
theory Prelude
  imports Main "HOL-Library.Word"
begin

text \<open>
  Shared vocabulary of the development: the C integer types as machine words, the
  single-bit operations the kernel code applies to its \<open>flags\<close> fields, the first-match
  list operations behind the \<^verbatim>\<open>SLIST_FOREACH\<close> loops that stop at the first hit, and the
  arithmetic lemmas the components share.

  Two collections carry the component proofs: \<open>page_simps\<close> (reading and writing packed
  metadata pages) and \<open>list_first_simps\<close> (the first-match operations).
\<close>

unbundle bit_operations_syntax

named_theorems page_simps \<open>reading and writing packed metadata pages\<close>
named_theorems list_first_simps \<open>first-match list operations\<close>

section \<open>C integer types\<close>

type_synonym u8 = "8 word"
type_synonym u16 = "16 word"
type_synonym u32 = "32 word"
type_synonym u64 = "64 word"

section \<open>Flag words\<close>

text \<open>\<open>atomic_set_bit\<close>, \<open>atomic_clear_bit\<close> and \<open>atomic_test_bit\<close> on an \<open>int flags\<close> field.\<close>

abbreviation (input) atomic_set_bit :: "nat \<Rightarrow> u32 \<Rightarrow> u32" where
  "atomic_set_bit b flags \<equiv> set_bit b flags"

abbreviation (input) atomic_clear_bit :: "nat \<Rightarrow> u32 \<Rightarrow> u32" where
  "atomic_clear_bit b flags \<equiv> unset_bit b flags"

abbreviation (input) atomic_test_bit :: "nat \<Rightarrow> u32 \<Rightarrow> bool" where
  "atomic_test_bit b flags \<equiv> bit flags b"

section \<open>First-match list operations\<close>

text \<open>
  A loop over a singly linked list that unlinks, rewrites or moves the first element
  satisfying a test and then stops.
\<close>

fun remove_first :: "('a \<Rightarrow> bool) \<Rightarrow> 'a list \<Rightarrow> 'a list" where
  "remove_first P [] = []"
| "remove_first P (x # xs) = (if P x then xs else x # remove_first P xs)"

fun update_first :: "('a \<Rightarrow> bool) \<Rightarrow> ('a \<Rightarrow> 'a) \<Rightarrow> 'a list \<Rightarrow> 'a list" where
  "update_first P f [] = []"
| "update_first P f (x # xs) = (if P x then f x # xs else x # update_first P f xs)"

lemma remove_first_none [list_first_simps]: "\<not> list_ex P xs \<Longrightarrow> remove_first P xs = xs"
  by (induction xs) auto

lemma update_first_none [list_first_simps]: "\<not> list_ex P xs \<Longrightarrow> update_first P f xs = xs"
  by (induction xs) auto

lemma set_remove_first_subset: "set (remove_first P xs) \<subseteq> set xs"
  by (induction xs) auto

lemma length_update_first [simp]: "length (update_first P f xs) = length xs"
  by (induction xs) auto

lemma find_None_list_ex: "List.find P xs = None \<longleftrightarrow> \<not> list_ex P xs"
  by (induction xs) auto

lemma find_Some_split:
  assumes "List.find P xs = Some x"
  shows "\<exists>ys zs. xs = ys @ x # zs \<and> P x \<and> \<not> list_ex P ys \<and>
           remove_first P xs = ys @ zs \<and> update_first P f xs = ys @ f x # zs"
  using assms
proof (induction xs)
  case Nil
  then show ?case by simp
next
  case (Cons y xs)
  show ?case
  proof (cases "P y")
    case True
    with Cons.prems show ?thesis by (intro exI [of _ "[]"] exI [of _ xs]) auto
  next
    case False
    with Cons obtain ys zs where "xs = ys @ x # zs" "P x" "\<not> list_ex P ys"
      "remove_first P xs = ys @ zs" "update_first P f xs = ys @ f x # zs"
      by auto
    with False show ?thesis by (intro exI [of _ "y # ys"] exI [of _ zs]) auto
  qed
qed

lemma remove_first_filter_distinct:
  assumes "distinct (map k xs)" and "\<And>x. P x \<longleftrightarrow> k x = c"
  shows "remove_first P xs = filter (\<lambda>x. \<not> P x) xs"
  using assms(1)
proof (induction xs)
  case Nil
  then show ?case by simp
next
  case (Cons x xs)
  show ?case
  proof (cases "P x")
    case True
    then have "k x = c" using assms(2) by blast
    with Cons.prems have "\<forall>y \<in> set xs. \<not> P y" using assms(2) by (auto simp: image_iff)
    with True show ?thesis by (simp add: filter_True)
  next
    case False
    with Cons show ?thesis by simp
  qed
qed

lemma distinct_map_remove_first:
  "distinct (map k xs) \<Longrightarrow> distinct (map k (remove_first P xs))"
proof (induction xs)
  case (Cons x xs)
  then show ?case using set_remove_first_subset [of P xs] by auto
qed simp

lemma map_update_first:
  assumes "\<And>x. P x \<Longrightarrow> k (f x) = k x"
  shows "map k (update_first P f xs) = map k xs"
  using assms by (induction xs) auto

section \<open>Arithmetic\<close>

lemma div_mod_64_low:
  fixes p n :: nat
  assumes "p mod 64 + n < 64"
  shows "(p + n) div 64 = p div 64" and "(p + n) mod 64 = p mod 64 + n"
proof -
  have eq: "p + n = (p mod 64 + n) + 64 * (p div 64)" by simp
  show "(p + n) div 64 = p div 64"
    by (subst eq, subst div_mult_self2) (use assms in simp_all)
  show "(p + n) mod 64 = p mod 64 + n"
    by (subst eq, subst mod_mult_self2) (use assms in simp_all)
qed

lemma div_mod_64_high:
  fixes p n :: nat
  assumes "64 \<le> p mod 64 + n" "n \<le> 64"
  shows "(p + n) div 64 = Suc (p div 64)" and "(p + n) mod 64 = p mod 64 + n - 64"
proof -
  have lt: "p mod 64 + n - 64 < 64"
    using assms(2) mod_less_divisor [of 64 p] by linarith
  have eq: "p + n = (p mod 64 + n - 64) + 64 * Suc (p div 64)" using assms(1) by simp
  show "(p + n) div 64 = Suc (p div 64)"
    by (subst eq, subst div_mult_self2) (use lt in simp_all)
  show "(p + n) mod 64 = p mod 64 + n - 64"
    by (subst eq, subst mod_mult_self2) (use lt in simp_all)
qed

lemma bit_less_width:
  fixes w :: "'a::len word"
  assumes "take_bit b w = w" "bit w n"
  shows "n < b"
  using assms by (metis bit_take_bit_iff)

lemma take_bit_unat_less:
  fixes w :: "'a::len word"
  assumes "unat w < 2 ^ b"
  shows "take_bit b w = w"
  using assms by (simp add: take_bit_nat_eq_self word_unat_eq_iff unsigned_take_bit_eq)


lemma unat_ucast_mod: "unat (ucast w :: 'b::len word) = unat w mod 2 ^ LENGTH('b)" for w :: "'a::len word"
  by (simp add: unsigned_ucast_eq take_bit_eq_mod)

lemma unat_ucast_up [simp]:
  "LENGTH('a) \<le> LENGTH('b) \<Longrightarrow> unat (ucast w :: 'b::len word) = unat w" for w :: "'a::len word"
  by (simp add: unat_ucast_mod order_less_le_trans [OF unsigned_less])

lemma unat_take_bit: "unat (take_bit k w) = unat w mod 2 ^ k" for w :: "'a::len word"
  unfolding unsigned_take_bit_eq by (rule take_bit_eq_mod)

lemma unat_drop_bit_div: "unat (drop_bit k w) = unat w div 2 ^ k" for w :: "'a::len word"
  unfolding unat_drop_bit_eq by (rule drop_bit_eq_div)

lemma unat_add_ucast_32:
  fixes x :: u64 and n :: u32
  assumes "unat x + unat n < 18446744073709551616"
  shows "unat (x + ucast n) = unat x + unat n"
  using assms by (subst unat_add_lem [THEN iffD1]) simp_all

lemma unat_and_minus_8:
  fixes x :: "'a::len word"
  assumes "3 < LENGTH('a)"
  shows "unat (x AND - 8) = 8 * (unat x div 8)"
proof -
  have m: "mask 3 = (7 :: 'a word)" by (simp add: mask_eq_exp_minus_1)
  have n: "NOT (mask 3) = (- 8 :: 'a word)" by (simp add: m not_eq_complement)
  have "(x AND mask 3) AND (x AND NOT (mask 3)) = 0" "(x AND mask 3) OR (x AND NOT (mask 3)) = x"
    by (auto intro!: bit_word_eqI simp: bit_simps)
  then have "(x AND mask 3) + (x AND - 8) = x" using word_plus_and_or [of "x AND mask 3" "x AND NOT (mask 3)"] by (simp add: n)
  then have "x AND - 8 = x - (x AND mask 3)" by (metis add_diff_cancel_left')
  moreover have a: "unat (x AND mask 3) = unat x mod 8"
    unfolding take_bit_eq_mask [symmetric] unat_take_bit by simp
  moreover have "x AND mask 3 \<le> x" unfolding word_le_nat_alt a by simp
  ultimately show ?thesis by (simp add: unat_sub minus_mod_eq_mult_div)
qed

lemma small_word_cases:
  fixes k :: "'a::len word"
  assumes "0 < unat k" "unat k < 8" "3 < LENGTH('a)"
  shows "k \<in> {1, 2, 3, 4, 5, 6, 7}"
proof -
  have "unat k \<in> {1, 2, 3, 4, 5, 6, 7}" using assms by auto
  then have "of_nat (unat k) \<in> {1, 2, 3, 4, 5, 6, 7 :: 'a word}" by (elim insertE emptyE) simp_all
  then show ?thesis unfolding of_nat_unat by simp
qed

lemma unat_less_64 [simp]: "unat (w :: u64) < 18446744073709551616"
  using unsigned_less [where ?'a = nat and w = w] by simp

lemma unat_less_32 [simp]: "unat (w :: u32) < 4294967296"
  using unsigned_less [where ?'a = nat and w = w] by simp

lemma unat_less_16 [simp]: "unat (w :: u16) < 65536"
  using unsigned_less [where ?'a = nat and w = w] by simp

lemma unat_less_8 [simp]: "unat (w :: u8) < 256"
  using unsigned_less [where ?'a = nat and w = w] by simp

end
