(* ===== verification/BitFields.thy ===== *)
theory BitFields
  imports Prelude
begin

text \<open>
  Packed entry arrays. The metadata pages of the store (block index pages, address maps and
  address map tables) are 4096-byte pages read as 512 64-bit words in which entries of a
  fixed width that does not divide 64 are packed back to back; \<^verbatim>\<open>BMAP_GET_BLOCK\<close> and
  \<^verbatim>\<open>BMAP_SET_BLOCK\<close> (\<^verbatim>\<open>core/bdevmgr.h\<close>) read and write one entry, splitting it over two words
  where needed. The theory models both macros, proves them against a flat view of the page
  as a bit string (\<open>page_bit\<close>), and exports the result as the locale \<open>packed_page\<close>, the
  array contract that the page users rely on, interpreted at the three widths in use.
\<close>

unbundle bit_operations_syntax

section \<open>The macros\<close>

text \<open>
  The page is a list of 64-bit words; an access past its end is undefined in C and
  unspecified here (the callers check the index first). \<open>bits >> 6\<close> and \<open>bits & 0x3F\<close> on
  the non-negative bit position are \<open>div 64\<close> and \<open>mod 64\<close>.
\<close>

definition BMAP_SET_BLOCK :: "u64 list \<Rightarrow> nat \<Rightarrow> u64 \<Rightarrow> nat \<Rightarrow> u64 list" where
  "BMAP_SET_BLOCK mtd ix blk bbits =
     (let bits = ix * bbits;
          bit_idx = bits div 64;
          bit_offset = bits mod 64;
          v = mtd ! bit_idx
      in if bit_offset \<noteq> 0 \<and> bit_offset + bbits > 64 then
           (let vbits = 64 - bit_offset;
                vmask = push_bit vbits 1 - 1;
                v = v AND NOT (push_bit bit_offset vmask);
                v = v OR push_bit bit_offset (blk AND vmask);
                v1 = mtd ! (bit_idx + 1);
                v1bits = bbits - (64 - bit_offset);
                v1mask = push_bit v1bits 1 - 1;
                v1 = v1 AND NOT v1mask;
                v1 = v1 OR drop_bit vbits blk
            in mtd[bit_idx + 1 := v1, bit_idx := v])
         else
           (let vmask = push_bit bbits 1 - 1;
                v = v AND NOT (push_bit bit_offset vmask);
                v = v OR push_bit bit_offset blk
            in mtd[bit_idx := v]))"

definition BMAP_GET_BLOCK :: "u64 list \<Rightarrow> nat \<Rightarrow> nat \<Rightarrow> u64" where
  "BMAP_GET_BLOCK mtd ix bbits =
     (let bits = ix * bbits;
          bit_idx = bits div 64;
          bit_offset = bits mod 64;
          v = drop_bit bit_offset (mtd ! bit_idx)
      in if bit_offset \<noteq> 0 \<and> bit_offset + bbits > 64 then
           (let vbits = 64 - bit_offset;
                vmask = push_bit vbits 1 - 1;
                v = v AND vmask;
                v1 = mtd ! (bit_idx + 1);
                v1bits = bbits - (64 - bit_offset);
                v1mask = push_bit v1bits 1 - 1;
                v1 = v1 AND v1mask
            in v OR push_bit vbits v1)
         else
           (let vmask = push_bit bbits 1 - 1
            in v AND vmask))"

section \<open>The page as a bit string\<close>

text \<open>Bit \<open>k\<close> of the page, counted through its words.\<close>

definition page_bit :: "u64 list \<Rightarrow> nat \<Rightarrow> bool" where
  "page_bit mtd k = bit (mtd ! (k div 64)) (k mod 64)"


text \<open>The entry of width \<open>b\<close> at offset \<open>off\<close> of two adjacent words, and the two words after a write.\<close>

definition get_word :: "nat \<Rightarrow> nat \<Rightarrow> u64 \<Rightarrow> u64 \<Rightarrow> u64" where
  "get_word off b w w1 =
     (if off \<noteq> 0 \<and> off + b > 64
      then (drop_bit off w AND mask (64 - off)) OR push_bit (64 - off) (w1 AND mask (b - (64 - off)))
      else drop_bit off w AND mask b)"

lemma bit_get_word:
  assumes "off < 64" "b \<le> 64"
  shows "bit (get_word off b w w1) n \<longleftrightarrow>
         n < b \<and> (if off + n < 64 then bit w (off + n) else bit w1 (off + n - 64))"
proof (cases "off \<noteq> 0 \<and> off + b > 64")
  case True
  then have "n < b \<Longrightarrow> n < 64" using assms by linarith
  with True assms show ?thesis
    by (cases "off + n < 64") (auto simp: get_word_def bit_simps add.commute)
next
  case False
  with assms have "n < b \<Longrightarrow> off + n < 64" by auto
  with False show ?thesis
    by (cases "n < b") (auto simp: get_word_def bit_simps)
qed

lemma BMAP_GET_BLOCK_get_word:
  "BMAP_GET_BLOCK mtd i b =
     get_word ((i * b) mod 64) b (mtd ! ((i * b) div 64)) (mtd ! Suc ((i * b) div 64))"
  by (simp add: BMAP_GET_BLOCK_def get_word_def Let_def mask_eq_exp_minus_1)

lemma bit_BMAP_GET_BLOCK:
  assumes "b \<le> 64"
  shows "bit (BMAP_GET_BLOCK mtd i b) n \<longleftrightarrow> n < b \<and> page_bit mtd (i * b + n)"
proof -
  define p where "p = i * b"
  have g: "bit (BMAP_GET_BLOCK mtd i b) n \<longleftrightarrow> n < b \<and>
     (if p mod 64 + n < 64 then bit (mtd ! (p div 64)) (p mod 64 + n)
      else bit (mtd ! Suc (p div 64)) (p mod 64 + n - 64))"
    unfolding BMAP_GET_BLOCK_get_word p_def [symmetric]
    by (rule bit_get_word) (use assms in simp_all)
  have "page_bit mtd (p + n) =
     (if p mod 64 + n < 64 then bit (mtd ! (p div 64)) (p mod 64 + n)
      else bit (mtd ! Suc (p div 64)) (p mod 64 + n - 64))" if "n < b"
    using that assms by (simp add: page_bit_def div_mod_64_low div_mod_64_high)
  with g show ?thesis unfolding p_def by blast
qed


definition set_lo :: "nat \<Rightarrow> nat \<Rightarrow> u64 \<Rightarrow> u64 \<Rightarrow> u64" where
  "set_lo off b blk w =
     (if off \<noteq> 0 \<and> off + b > 64
      then (w AND NOT (push_bit off (mask (64 - off)))) OR push_bit off (blk AND mask (64 - off))
      else (w AND NOT (push_bit off (mask b))) OR push_bit off blk)"

definition set_hi :: "nat \<Rightarrow> nat \<Rightarrow> u64 \<Rightarrow> u64 \<Rightarrow> u64" where
  "set_hi off b blk w1 = (w1 AND NOT (mask (b - (64 - off)))) OR drop_bit (64 - off) blk"

lemma BMAP_SET_BLOCK_words:
  "BMAP_SET_BLOCK mtd i blk b =
     (let p = i * b; off = p mod 64; k = p div 64
      in if off \<noteq> 0 \<and> off + b > 64
         then mtd[Suc k := set_hi off b blk (mtd ! Suc k), k := set_lo off b blk (mtd ! k)]
         else mtd[k := set_lo off b blk (mtd ! k)])"
  by (simp add: BMAP_SET_BLOCK_def set_lo_def set_hi_def Let_def mask_eq_exp_minus_1)

lemma bit_set_lo:
  assumes "off < 64" "b \<le> 64" "take_bit b blk = blk" "m < 64"
  shows "bit (set_lo off b blk w) m = (if off \<le> m \<and> m < off + b then bit blk (m - off) else bit w m)"
proof -
  have *: "bit blk n \<Longrightarrow> n < b" for n
    using assms(3) by (metis bit_take_bit_iff)
  from assms * [of "m - off"] show ?thesis
    by (auto simp: set_lo_def bit_simps)
qed

lemma bit_set_hi:
  assumes "off < 64" "b \<le> 64" "take_bit b blk = blk" "off + b > 64" "m < 64"
  shows "bit (set_hi off b blk w) m = (if m + 64 < off + b then bit blk (m + 64 - off) else bit w m)"
proof -
  have *: "bit blk n \<Longrightarrow> n < b" for n
    using assms(3) by (metis bit_take_bit_iff)
  have "64 - off + m = m + 64 - off" using assms by simp
  with assms * [of "m + 64 - off"] show ?thesis
    by (auto simp: set_hi_def bit_simps)
qed

lemma length_BMAP_SET_BLOCK [simp]: "length (BMAP_SET_BLOCK mtd i blk b) = length mtd"
  by (simp add: BMAP_SET_BLOCK_words Let_def)

lemma page_bit_BMAP_SET_BLOCK:
  assumes "0 < b" "b \<le> 64" "take_bit b blk = blk" "(i + 1) * b \<le> 64 * length mtd"
  shows "page_bit (BMAP_SET_BLOCK mtd i blk b) k =
           (if i * b \<le> k \<and> k < (i + 1) * b then bit blk (k - i * b) else page_bit mtd k)"
proof -
  define p where "p = i * b"
  define off where "off = p mod 64"
  define idx where "idx = p div 64"
  define q where "q = k div 64"
  define r where "r = k mod 64"
  have p: "p = 64 * idx + off" and off: "off < 64" by (auto simp: idx_def off_def)
  have k: "k = 64 * q + r" and r: "r < 64" by (auto simp: q_def r_def)
  have pb: "p + b \<le> 64 * length mtd" using assms(4) by (simp add: p_def algebra_simps)
  have idx: "idx < length mtd" using pb p assms(1) by linarith
  have idx1: "Suc idx < length mtd" if "off + b > 64" using pb p that by linarith
  have set: "BMAP_SET_BLOCK mtd i blk b =
      (if off \<noteq> 0 \<and> off + b > 64
       then mtd[Suc idx := set_hi off b blk (mtd ! Suc idx), idx := set_lo off b blk (mtd ! idx)]
       else mtd[idx := set_lo off b blk (mtd ! idx)])"
    by (simp add: BMAP_SET_BLOCK_words Let_def off_def idx_def p_def)
  consider (at) "q = idx" | (nxt) "q = Suc idx" "off + b > 64" | (no) "q \<noteq> idx" "q = Suc idx \<longrightarrow> off + b \<le> 64"
    by linarith
  then have "page_bit (BMAP_SET_BLOCK mtd i blk b) k =
           (if p \<le> k \<and> k < p + b then bit blk (k - p) else page_bit mtd k)"
  proof cases
    case at
    have "page_bit (BMAP_SET_BLOCK mtd i blk b) k = bit (set_lo off b blk (mtd ! idx)) r"
      unfolding page_bit_def q_def [symmetric] r_def [symmetric] set at using idx by simp
    also have "\<dots> = (if off \<le> r \<and> r < off + b then bit blk (r - off) else bit (mtd ! idx) r)"
      by (rule bit_set_lo) (use assms off r in auto)
    finally show ?thesis
      unfolding page_bit_def q_def [symmetric] r_def [symmetric] at
      by (simp add: p k at)
  next
    case nxt
    have o0: "off \<noteq> 0" using nxt(2) assms(2) by auto
    have "page_bit (BMAP_SET_BLOCK mtd i blk b) k = bit (set_hi off b blk (mtd ! Suc idx)) r"
      unfolding page_bit_def q_def [symmetric] r_def [symmetric] set nxt(1)
      using idx1 [OF nxt(2)] nxt(2) o0 by simp
    also have "\<dots> = (if r + 64 < off + b then bit blk (r + 64 - off) else bit (mtd ! Suc idx) r)"
      by (rule bit_set_hi) (use assms off r nxt in auto)
    finally show ?thesis
      unfolding page_bit_def q_def [symmetric] r_def [symmetric] nxt(1)
      using off by (auto simp: p k nxt(1) add.commute)
  next
    case no
    have "BMAP_SET_BLOCK mtd i blk b ! q = mtd ! q"
      unfolding set using no by auto
    moreover have "\<not> (p \<le> k \<and> k < p + b)"
    proof (cases "q < idx")
      case True
      then show ?thesis using p k r by linarith
    next
      case False
      then have "Suc idx \<le> q" using no(1) by linarith
      then show ?thesis using no(2) p k r off assms(2) by (cases "q = Suc idx") linarith+
    qed
    ultimately show ?thesis
      unfolding page_bit_def q_def [symmetric] by auto
  qed
  then show ?thesis by (simp add: p_def algebra_simps)
qed

lemma BMAP_GET_SET_same:
  assumes "0 < b" "b \<le> 64" "take_bit b blk = blk" "(i + 1) * b \<le> 64 * length mtd"
  shows "BMAP_GET_BLOCK (BMAP_SET_BLOCK mtd i blk b) i b = blk"
proof (rule bit_eqI)
  fix n
  have "bit blk n \<Longrightarrow> n < b"
    using assms(3) by (metis bit_take_bit_iff)
  then show "bit (BMAP_GET_BLOCK (BMAP_SET_BLOCK mtd i blk b) i b) n = bit blk n"
    using assms by (auto simp: bit_BMAP_GET_BLOCK page_bit_BMAP_SET_BLOCK)
qed

lemma BMAP_GET_SET_other:
  assumes "0 < b" "b \<le> 64" "take_bit b blk = blk" "(i + 1) * b \<le> 64 * length mtd" "i \<noteq> j"
  shows "BMAP_GET_BLOCK (BMAP_SET_BLOCK mtd i blk b) j b = BMAP_GET_BLOCK mtd j b"
proof (rule bit_eqI)
  fix n
  have "\<not> (i * b \<le> j * b + n \<and> j * b + n < (i + 1) * b)" if "n < b"
  proof
    assume a: "i * b \<le> j * b + n \<and> j * b + n < (i + 1) * b"
    have "j * b < (i + 1) * b" "i * b < (j + 1) * b" using a that by auto
    then have "j < i + 1" "i < j + 1" by (metis mult_less_cancel2)+
    with assms(5) show False by simp
  qed
  with assms show "bit (BMAP_GET_BLOCK (BMAP_SET_BLOCK mtd i blk b) j b) n = bit (BMAP_GET_BLOCK mtd j b) n"
    by (auto simp: bit_BMAP_GET_BLOCK page_bit_BMAP_SET_BLOCK)
qed


lemma BMAP_GET_BLOCK_fits: "b \<le> 64 \<Longrightarrow> take_bit b (BMAP_GET_BLOCK mtd i b) = BMAP_GET_BLOCK mtd i b"
  by (rule bit_eqI) (auto simp: bit_BMAP_GET_BLOCK bit_take_bit_iff)

lemma page_eqI:
  assumes "length p = length q" and "\<And>k. k < 64 * length q \<Longrightarrow> page_bit p k = page_bit q k"
  shows "p = q"
proof (rule nth_equalityI)
  show "length p = length q" by fact
next
  fix i assume i: "i < length p"
  show "p ! i = q ! i"
  proof (rule bit_word_eqI)
    fix n assume n: "n < LENGTH(64)"
    have "64 * i + n < 64 * length q" using i n assms(1) by simp
    with assms(2) [of "64 * i + n"] n show "bit (p ! i) n = bit (q ! i) n"
      by (simp add: page_bit_def)
  qed
qed

lemma BMAP_SET_word_above:
  assumes "0 < b" "b \<le> 64" "take_bit b v = v" "(i + 1) * b \<le> 64 * length mtd"
    "(i + 1) * b \<le> 64 * w" "w < length mtd"
  shows "BMAP_SET_BLOCK mtd i v b ! w = mtd ! w"
proof (rule bit_word_eqI)
  fix n assume n: "n < LENGTH(64)"
  have "\<not> 64 * w + n < (i + 1) * b" using assms(5) by linarith
  then have "page_bit (BMAP_SET_BLOCK mtd i v b) (64 * w + n) = page_bit mtd (64 * w + n)"
    using assms by (simp add: page_bit_BMAP_SET_BLOCK)
  with n show "bit (BMAP_SET_BLOCK mtd i v b ! w) n = bit (mtd ! w) n"
    by (simp add: page_bit_def)
qed

text \<open>The bits of the page behind its \<open>cap\<close> entries of width \<open>b\<close>: padding and the checksum word.\<close>

definition page_rest :: "nat \<Rightarrow> u64 list \<Rightarrow> bool list" where
  "page_rest n p = map (page_bit p) [n..<64 * length p]"

lemma page_ext:
  assumes "length p = length q" "0 < b" "b \<le> 64"
    and "\<And>i. i < cap \<Longrightarrow> BMAP_GET_BLOCK p i b = BMAP_GET_BLOCK q i b"
    and "page_rest (cap * b) p = page_rest (cap * b) q"
  shows "p = q"
proof (rule page_eqI)
  show "length p = length q" by fact
next
  fix k assume k: "k < 64 * length q"
  show "page_bit p k = page_bit q k"
  proof (cases "k < cap * b")
    case True
    then have i: "k div b < cap" using assms(2) by (simp add: div_less_iff_less_mult)
    have "k div b * b + k mod b = k" "k mod b < b" using assms(2) by simp_all
    with assms(4) [OF i] bit_BMAP_GET_BLOCK [OF assms(3), of p "k div b" "k mod b"]
      bit_BMAP_GET_BLOCK [OF assms(3), of q "k div b" "k mod b"]
    show ?thesis by simp
  next
    case False
    have "map (page_bit p) [cap * b..<64 * length q] = map (page_bit q) [cap * b..<64 * length q]"
      using assms(1,5) by (simp add: page_rest_def)
    with False k show ?thesis by simp
  qed
qed

section \<open>The array contract\<close>

text \<open>
  What a user of a packed page relies on: \<open>rd\<close> and \<open>wr\<close> behave as the lookup and update of
  an array of \<open>cap\<close> entries whose values satisfy \<open>fits\<close>, writes leave the rest of the page
  alone, and a page is determined by its entries and its rest.
\<close>

locale packed_page =
  fixes rd :: "'p \<Rightarrow> nat \<Rightarrow> 'v"
    and wr :: "'p \<Rightarrow> nat \<Rightarrow> 'v \<Rightarrow> 'p"
    and wf :: "'p \<Rightarrow> bool"
    and cap :: nat
    and fits :: "'v \<Rightarrow> bool"
    and rest :: "'p \<Rightarrow> 'r"
  assumes rd_wr_same: "wf p \<Longrightarrow> i < cap \<Longrightarrow> fits v \<Longrightarrow> rd (wr p i v) i = v"
    and rd_wr_other: "wf p \<Longrightarrow> i < cap \<Longrightarrow> fits v \<Longrightarrow> i \<noteq> j \<Longrightarrow> rd (wr p i v) j = rd p j"
    and wf_wr: "wf p \<Longrightarrow> i < cap \<Longrightarrow> fits v \<Longrightarrow> wf (wr p i v)"
    and rd_fits: "wf p \<Longrightarrow> fits (rd p i)"
    and rest_wr: "wf p \<Longrightarrow> i < cap \<Longrightarrow> fits v \<Longrightarrow> rest (wr p i v) = rest p"
    and ext: "wf p \<Longrightarrow> wf q \<Longrightarrow> (\<And>i. i < cap \<Longrightarrow> rd p i = rd q i) \<Longrightarrow> rest p = rest q \<Longrightarrow> p = q"
begin

lemma wr_rd: "wf p \<Longrightarrow> i < cap \<Longrightarrow> wr p i (rd p i) = p"
  by (rule ext) (metis wf_wr rd_fits rest_wr rd_wr_same rd_wr_other)+

lemma wr_wr: "wf p \<Longrightarrow> i < cap \<Longrightarrow> fits u \<Longrightarrow> fits v \<Longrightarrow> wr (wr p i u) i v = wr p i v"
  by (rule ext) (metis wf_wr rest_wr rd_wr_same rd_wr_other)+

lemma entries_wr:
  assumes "wf p" "i < cap" "fits v"
  shows "map (rd (wr p i v)) [0..<cap] = (map (rd p) [0..<cap])[i := v]"
  by (rule nth_equalityI) (use assms in \<open>auto simp: nth_list_update rd_wr_same rd_wr_other\<close>)

text \<open>Rewriting every entry of a range by a function of its old value.\<close>

lemma wr_range:
  assumes "wf p" "a + n \<le> cap" "\<And>i. a \<le> i \<Longrightarrow> i < a + n \<Longrightarrow> fits (f (rd p i))"
  shows "wf (fold (\<lambda>i q. wr q i (f (rd q i))) [a..<a + n] p) \<and>
         rest (fold (\<lambda>i q. wr q i (f (rd q i))) [a..<a + n] p) = rest p \<and>
         (\<forall>j. rd (fold (\<lambda>i q. wr q i (f (rd q i))) [a..<a + n] p) j =
              (if a \<le> j \<and> j < a + n then f (rd p j) else rd p j))"
  using assms(2,3)
proof (induction n)
  case 0
  then show ?case using assms(1) by auto
next
  case (Suc n)
  let ?q = "fold (\<lambda>i q. wr q i (f (rd q i))) [a..<a + n] p"
  from Suc have wf: "wf ?q" and rest: "rest ?q = rest p"
    and rd: "\<And>j. rd ?q j = (if a \<le> j \<and> j < a + n then f (rd p j) else rd p j)"
    by auto
  have last: "rd ?q (a + n) = rd p (a + n)" by (simp add: rd)
  have "fits (f (rd p (a + n)))" "a + n < cap" using Suc.prems by auto
  then show ?case using wf rest
    by (auto simp: last wf_wr rest_wr rd_wr_same rd_wr_other rd less_Suc_eq)
qed

lemma wr_range_const:
  assumes "wf p" "a + n \<le> cap" "fits v"
  shows "wf (fold (\<lambda>i q. wr q i v) [a..<a + n] p)"
    and "rest (fold (\<lambda>i q. wr q i v) [a..<a + n] p) = rest p"
    and "rd (fold (\<lambda>i q. wr q i v) [a..<a + n] p) j = (if a \<le> j \<and> j < a + n then v else rd p j)"
  using wr_range [OF assms(1,2), of "\<lambda>_. v"] assms(3) by auto

text \<open>Rewriting a range back and forth restores the page.\<close>

lemma wr_range_undo:
  assumes "wf p" "a + n \<le> cap" "\<And>i. a \<le> i \<Longrightarrow> i < a + n \<Longrightarrow> fits (f (rd p i)) \<and> g (f (rd p i)) = rd p i"
  shows "fold (\<lambda>i q. wr q i (g (rd q i))) [a..<a + n] (fold (\<lambda>i q. wr q i (f (rd q i))) [a..<a + n] p) = p"
proof -
  let ?q = "fold (\<lambda>i q. wr q i (f (rd q i))) [a..<a + n] p"
  have q: "wf ?q" "rest ?q = rest p" "\<And>j. rd ?q j = (if a \<le> j \<and> j < a + n then f (rd p j) else rd p j)"
    using wr_range [OF assms(1,2), of f] assms(3) by auto
  have "fits (g (rd ?q i))" if "a \<le> i" "i < a + n" for i
    using that assms(1,3) by (simp add: q rd_fits)
  from wr_range [OF q(1) assms(2), of g, OF this] show ?thesis
    by (intro ext) (use assms(1,3) q in auto)
qed

end

lemma packed_page_BMAP:
  assumes "0 < b" "b \<le> 64" "cap * b \<le> 64 * len"
  shows "packed_page (\<lambda>p i. BMAP_GET_BLOCK p i b) (\<lambda>p i v. BMAP_SET_BLOCK p i v b)
           (\<lambda>p. length p = len) cap (\<lambda>v. take_bit b v = v) (page_rest (cap * b))"
proof -
  have room: "(i + 1) * b \<le> cap * b" if "i < cap" for i
    using that mult_le_mono1 [of "i + 1" cap b] by linarith
  have rest: "page_rest (cap * b) (BMAP_SET_BLOCK p i v b) = page_rest (cap * b) p"
    if "length p = len" "i < cap" "take_bit b v = v" for p i v
  proof -
    have "\<not> k < (i + 1) * b" if "cap * b \<le> k" for k
      using room [OF \<open>i < cap\<close>] that by linarith
    moreover have "(i + 1) * b \<le> 64 * length p"
      using that assms(3) room [OF \<open>i < cap\<close>] by linarith
    ultimately show ?thesis
      using that assms(1,2) by (auto simp: page_rest_def page_bit_BMAP_SET_BLOCK)
  qed
  have fit: "(i + 1) * b \<le> 64 * len" if "i < cap" for i
    using room [OF that] assms(3) by linarith
  show ?thesis
  proof unfold_locales
    show "\<And>p q. length p = len \<Longrightarrow> length q = len \<Longrightarrow>
        (\<And>i. i < cap \<Longrightarrow> BMAP_GET_BLOCK p i b = BMAP_GET_BLOCK q i b) \<Longrightarrow>
        page_rest (cap * b) p = page_rest (cap * b) q \<Longrightarrow> p = q"
      using assms(1,2) page_ext by metis
  qed (use assms fit rest in \<open>auto simp: BMAP_GET_SET_same BMAP_GET_SET_other BMAP_GET_BLOCK_fits\<close>)
qed

text \<open>
  The three widths in use: 51-bit reference entries of an index page (640 of them), 50-bit
  entries of an address map (654) and 47-bit entries of an address map table (695).
\<close>

interpretation refs_page: packed_page "\<lambda>p i. BMAP_GET_BLOCK p i 51" "\<lambda>p i v. BMAP_SET_BLOCK p i v 51"
  "\<lambda>p. length p = 512" 640 "\<lambda>v. take_bit 51 v = v" "page_rest (640 * 51)"
  by (rule packed_page_BMAP) simp_all

interpretation amap_page: packed_page "\<lambda>p i. BMAP_GET_BLOCK p i 50" "\<lambda>p i v. BMAP_SET_BLOCK p i v 50"
  "\<lambda>p. length p = 512" 654 "\<lambda>v. take_bit 50 v = v" "page_rest (654 * 50)"
  by (rule packed_page_BMAP) simp_all

interpretation atable_page: packed_page "\<lambda>p i. BMAP_GET_BLOCK p i 47" "\<lambda>p i v. BMAP_SET_BLOCK p i v 47"
  "\<lambda>p. length p = 512" 695 "\<lambda>v. take_bit 47 v = v" "page_rest (695 * 47)"
  by (rule packed_page_BMAP) simp_all

lemmas refs_page_laws [page_simps] =
  refs_page.rd_wr_same refs_page.rd_wr_other refs_page.rd_fits refs_page.wr_rd refs_page.wr_wr

end
