(* ===== verification/Layout.thy ===== *)
theory Layout
  imports BitFields
begin

text \<open>
  Addresses, identifiers and checksums of the on-disk metadata: the packing of a disk block
  number, a disk id and a stored size into one block address (\<^verbatim>\<open>core/rawdefs.h\<close>,
  \<^verbatim>\<open>core/amap.h\<close>), the split of a logical block address over address map tables, address
  maps and entries (\<^verbatim>\<open>core/amap.h\<close>), index identifiers and write identifiers
  (\<^verbatim>\<open>core/bdevmgr.h\<close>), the page checksums and the tick difference (\<^verbatim>\<open>core/coredefs.h\<close>), and
  logical unit numbers (\<^verbatim>\<open>core/vdevdefs.h\<close>). All values keep the width they have in C.
\<close>

unbundle bit_operations_syntax

section \<open>Block addresses\<close>

abbreviation (input) LBA_SHIFT :: nat where "LBA_SHIFT \<equiv> 12"
abbreviation (input) LBA_SIZE :: u32 where "LBA_SIZE \<equiv> 4096"
abbreviation (input) BLOCK_BLOCKNR_BITS :: nat where "BLOCK_BLOCKNR_BITS \<equiv> 38"
abbreviation (input) BLOCK_BID_BITS :: nat where "BLOCK_BID_BITS \<equiv> 9"

definition BLOCK_BLOCKNR :: "u64 \<Rightarrow> u64" where
  "BLOCK_BLOCKNR block = block AND (push_bit BLOCK_BLOCKNR_BITS 1 - 1)"

definition BLOCK_BID :: "u64 \<Rightarrow> u32" where
  "BLOCK_BID block = ucast (drop_bit BLOCK_BLOCKNR_BITS block AND (push_bit BLOCK_BID_BITS 1 - 1))"

definition SET_BLOCK :: "u64 \<Rightarrow> u32 \<Rightarrow> u64" where
  "SET_BLOCK blocknr bid = push_bit BLOCK_BLOCKNR_BITS (ucast bid) OR blocknr"

definition SET_BLOCK_SIZE :: "u64 \<Rightarrow> u32 \<Rightarrow> u64" where
  "SET_BLOCK_SIZE block sz =
     (if sz \<noteq> LBA_SIZE
      then block OR push_bit (BLOCK_BLOCKNR_BITS + BLOCK_BID_BITS) (drop_bit 9 (ucast sz))
      else block)"

definition lba_block_size :: "u64 \<Rightarrow> u32" where
  "lba_block_size block =
     (let sz = drop_bit (BLOCK_BLOCKNR_BITS + BLOCK_BID_BITS) block AND 7
      in if sz \<noteq> 0 then ucast (push_bit 9 sz) else LBA_SIZE)"

text \<open>A block number and a disk id the address has room for.\<close>

definition block_ok :: "u64 \<Rightarrow> u32 \<Rightarrow> bool" where
  "block_ok blocknr bid \<longleftrightarrow> take_bit 38 blocknr = blocknr \<and> take_bit 9 bid = bid"

text \<open>The stored sizes: multiples of 512 bytes up to a whole 4096-byte block.\<close>

definition stored_size :: "u32 \<Rightarrow> bool" where
  "stored_size sz \<longleftrightarrow> sz \<in> {512, 1024, 1536, 2048, 2560, 3072, 3584, 4096}"

lemma mask_literals: "(push_bit n 1 - 1 :: 'a::len word) = mask n"
  by (simp add: mask_eq_exp_minus_1)

lemma BLOCK_BLOCKNR_SET_BLOCK:
  assumes "block_ok nr bid"
  shows "BLOCK_BLOCKNR (SET_BLOCK nr bid) = nr"
proof -
  have "bit nr n \<Longrightarrow> n < 38" for n using assms bit_less_width by (auto simp: block_ok_def)
  then show ?thesis
    unfolding BLOCK_BLOCKNR_def SET_BLOCK_def mask_literals
    by (intro bit_word_eqI) (auto simp: bit_simps)
qed

lemma BLOCK_BID_SET_BLOCK:
  assumes "block_ok nr bid"
  shows "BLOCK_BID (SET_BLOCK nr bid) = bid"
proof -
  have "bit nr n \<Longrightarrow> n < 38" for n using assms bit_less_width by (auto simp: block_ok_def)
  moreover have "bit bid n \<Longrightarrow> n < 9" for n using assms bit_less_width by (auto simp: block_ok_def)
  ultimately show ?thesis
    unfolding BLOCK_BID_def SET_BLOCK_def mask_literals
    by (intro bit_word_eqI) (fastforce simp: bit_simps)
qed


lemma drop_bit_OR_high:
  fixes a b :: u64
  assumes "take_bit n a = a"
  shows "drop_bit n (a OR push_bit n b) = drop_bit n (push_bit n b)"
proof (rule bit_word_eqI)
  fix m assume "m < LENGTH(64)"
  have "\<not> bit a (n + m)" using assms bit_less_width by fastforce
  then show "bit (drop_bit n (a OR push_bit n b)) m = bit (drop_bit n (push_bit n b)) m"
    by (simp add: bit_simps)
qed

lemma SET_BLOCK_fits:
  assumes "block_ok nr bid"
  shows "take_bit 47 (SET_BLOCK nr bid) = SET_BLOCK nr bid"
proof -
  have "bit nr n \<Longrightarrow> n < 38" for n using assms bit_less_width by (auto simp: block_ok_def)
  moreover have "bit bid n \<Longrightarrow> n < 9" for n using assms bit_less_width by (auto simp: block_ok_def)
  ultimately show ?thesis
    unfolding SET_BLOCK_def
    by (intro bit_word_eqI) (fastforce simp: bit_simps)
qed

lemma lba_block_size_SET:
  assumes "block_ok nr bid" "stored_size sz"
  shows "lba_block_size (SET_BLOCK_SIZE (SET_BLOCK nr bid) sz) = sz"
proof (cases "sz = LBA_SIZE")
  case True
  have "drop_bit 47 (SET_BLOCK nr bid) = 0"
    using SET_BLOCK_fits [OF assms(1)] by (metis drop_bit_take_bit diff_self_eq_0 take_bit_0)
  then show ?thesis using True by (simp add: SET_BLOCK_SIZE_def lba_block_size_def)
next
  case False
  have "drop_bit 47 (SET_BLOCK nr bid OR push_bit 47 (drop_bit 9 (ucast sz))) =
        drop_bit 47 (push_bit 47 (drop_bit 9 (ucast sz) :: u64))"
    by (rule drop_bit_OR_high) (rule SET_BLOCK_fits [OF assms(1)])
  with False assms(2) show ?thesis
    by (auto simp: SET_BLOCK_SIZE_def lba_block_size_def stored_size_def)
qed

lemma BLOCK_BLOCKNR_SET_BLOCK_SIZE: "BLOCK_BLOCKNR (SET_BLOCK_SIZE block sz) = BLOCK_BLOCKNR block"
  unfolding BLOCK_BLOCKNR_def SET_BLOCK_SIZE_def mask_literals
  by (intro bit_word_eqI) (auto simp: bit_simps)

lemma BLOCK_BID_SET_BLOCK_SIZE: "BLOCK_BID (SET_BLOCK_SIZE block sz) = BLOCK_BID block"
  unfolding BLOCK_BID_def SET_BLOCK_SIZE_def mask_literals
  by (intro bit_word_eqI) (auto simp: bit_simps)

section \<open>Logical block addresses\<close>

abbreviation (input) LBAS_PER_AMAP :: u64 where "LBAS_PER_AMAP \<equiv> 654"
abbreviation (input) AMAPS_PER_AMAP_TABLE :: u64 where "AMAPS_PER_AMAP_TABLE \<equiv> 695"
abbreviation (input) LBAS_PER_AMAP_TABLE :: u64 where "LBAS_PER_AMAP_TABLE \<equiv> 654 * 695"

definition amap_table_id :: "u64 \<Rightarrow> u32" where
  "amap_table_id llbax = ucast (llbax div LBAS_PER_AMAP_TABLE)"

definition amap_table_group_id :: "u32 \<Rightarrow> u32 \<times> u32" where
  "amap_table_group_id tid = (drop_bit 9 tid, tid AND (push_bit 9 1 - 1))"

definition amap_table_get_lba_start :: "u64 \<Rightarrow> u64" where
  "amap_table_get_lba_start tid = tid * LBAS_PER_AMAP_TABLE"

definition amap_get_lba_start :: "u64 \<Rightarrow> u64" where
  "amap_get_lba_start amap_id = amap_id * LBAS_PER_AMAP"

definition amap_get_id :: "u64 \<Rightarrow> u32" where
  "amap_get_id lba = ucast (lba div LBAS_PER_AMAP)"

definition amap_entry_id :: "u32 \<Rightarrow> u64 \<Rightarrow> u32" where
  "amap_entry_id amap_id lba = ucast (lba - ucast amap_id * LBAS_PER_AMAP)"

text \<open>The largest disk the 32-bit map identifiers address.\<close>

abbreviation (input) lba_ok :: "u64 \<Rightarrow> bool" where
  "lba_ok lba \<equiv> unat lba < 654 * 2 ^ 32"

lemma unat_amap_get_id:
  assumes "lba_ok lba"
  shows "unat (amap_get_id lba) = unat lba div 654"
proof -
  have "unat lba div 654 < 2 ^ 32" using assms by (simp add: div_less_iff_less_mult mult.commute)
  then show ?thesis by (simp add: amap_get_id_def unat_ucast_mod unat_div)
qed

lemma amap_split:
  assumes "lba_ok lba"
  shows "unat (amap_entry_id (amap_get_id lba) lba) = unat lba mod 654"
    and "amap_get_lba_start (ucast (amap_get_id lba)) + ucast (amap_entry_id (amap_get_id lba) lba) = lba"
proof -
  define q where "q = (ucast (amap_get_id lba) :: u64)"
  have q: "unat q = unat lba div 654"
    using unat_amap_get_id [OF assms] by (simp add: q_def)
  have le: "unat lba div 654 * 654 \<le> unat lba" by (rule div_times_less_eq_dividend)
  have lt: "unat lba < 2 ^ 64" by simp
  have m: "unat (q * 654) = unat lba div 654 * 654"
    using q le_less_trans [OF le lt] by (simp add: unat_word_ariths)
  have d: "unat (lba - q * 654) = unat lba mod 654"
    using m le by (simp add: unat_sub word_le_nat_alt minus_div_mult_eq_mod)
  have small: "unat lba mod 654 < 2 ^ 32" by (rule less_trans [OF mod_less_divisor]) simp_all
  show e: "unat (amap_entry_id (amap_get_id lba) lba) = unat lba mod 654"
    using d small by (simp add: amap_entry_id_def q_def [symmetric] unat_ucast_mod)
  have "(ucast (amap_entry_id (amap_get_id lba) lba) :: u64) = lba - q * 654"
    using d e by (simp add: word_unat_eq_iff)
  then show "amap_get_lba_start (ucast (amap_get_id lba)) + ucast (amap_entry_id (amap_get_id lba) lba) = lba"
    by (simp add: amap_get_lba_start_def q_def [symmetric])
qed

lemma unat_amap_table_id:
  assumes "lba_ok lba"
  shows "unat (amap_table_id lba) = unat (amap_get_id lba) div 695"
proof -
  have "unat lba div 654 div 695 < 2 ^ 32"
    using assms by (simp add: div_less_iff_less_mult mult.commute)
  then show ?thesis
    using unat_amap_get_id [OF assms]
    by (simp add: amap_table_id_def unat_ucast_mod unat_div div_mult2_eq)
qed

section \<open>Index identifiers\<close>

definition index_group_id :: "u32 \<Rightarrow> u32" where
  "index_group_id index_id = drop_bit 15 index_id"

definition index_subgroup_id :: "u32 \<Rightarrow> u32 \<times> u32" where
  "index_subgroup_id index_id =
     (let sub_group = index_id AND (push_bit 15 1 - 1)
      in (drop_bit 9 sub_group, sub_group AND (push_bit 9 1 - 1)))"

definition subgroup_index_id :: "u32 \<Rightarrow> u16 \<Rightarrow> u32" where
  "subgroup_index_id group_id subgroup_id = push_bit 15 group_id + push_bit 9 (ucast subgroup_id)"

lemma index_id_recompose:
  fixes id :: u32
  shows "(push_bit 15 (index_group_id id) OR push_bit 9 (fst (index_subgroup_id id))) OR
         snd (index_subgroup_id id) = id"
proof (rule bit_word_eqI)
  fix n assume n: "n < LENGTH(32)"
  consider "n < 9" | "9 \<le> n" "n < 15" | "15 \<le> n" by linarith
  then show "bit ((push_bit 15 (index_group_id id) OR push_bit 9 (fst (index_subgroup_id id))) OR
         snd (index_subgroup_id id)) n = bit id n"
    unfolding index_group_id_def index_subgroup_id_def Let_def mask_literals
    using n by cases (simp_all add: bit_or_iff bit_and_iff bit_push_bit_iff bit_drop_bit_eq bit_mask_iff)
qed

section \<open>Write identifiers\<close>

abbreviation (input) WRITE_ID_MAX :: u64 where "WRITE_ID_MAX \<equiv> 281474976710655"

definition write_id_greater :: "u64 \<Rightarrow> u64 \<Rightarrow> bool" where
  "write_id_greater current write_id =
     (if current > write_id then True
      else (let write_id_diff = WRITE_ID_MAX - write_id;
                current_diff = WRITE_ID_MAX - current
            in current_diff - write_id_diff > push_bit 32 1))"

definition write_id_incr :: "u64 \<Rightarrow> u32 \<Rightarrow> u64" where
  "write_id_incr write_id incr =
     (if write_id + ucast incr < WRITE_ID_MAX then write_id + ucast incr
      else (write_id + ucast incr) - (WRITE_ID_MAX - 1))"

lemma unat_write_id_incr:
  assumes "unat w \<le> 2 ^ 48"
  shows "unat (write_id_incr w n) =
     (if unat w + unat n < 2 ^ 48 - 1 then unat w + unat n else unat w + unat n - (2 ^ 48 - 2))"
proof -
  have s: "unat w + unat n < 18446744073709551616"
    using assms [simplified] unat_less_32 [of n] by linarith
  then have a: "unat (w + ucast n) = unat w + unat n"
    by (simp add: unat_word_ariths)
  show ?thesis
    using a by (auto simp: write_id_incr_def word_less_nat_alt unat_sub word_le_nat_alt)
qed

lemma write_id_greater_iff:
  "write_id_greater a b \<longleftrightarrow> unat b < unat a \<or> unat a + 2 ^ 32 < unat b"
proof (cases "b < a")
  case True
  then show ?thesis by (simp add: write_id_greater_def word_less_nat_alt)
next
  case False
  have "WRITE_ID_MAX - a - (WRITE_ID_MAX - b) = b - a" by (simp add: algebra_simps)
  moreover have "unat (b - a) = unat b - unat a" using False by (simp add: unat_sub)
  ultimately show ?thesis
    using False by (auto simp: write_id_greater_def word_less_nat_alt Let_def)
qed

section \<open>Checksums and ticks\<close>

text \<open>Buffers are read as 64-bit words from their start; \<open>len\<close> is in bytes.\<close>

definition calc_csum16 :: "u64 list \<Rightarrow> nat \<Rightarrow> u16" where
  "calc_csum16 buf len = ucast (NOT (foldl (+) 0 (take ((len + 7) div 8) buf)))"

definition calc_csum :: "u64 list \<Rightarrow> nat \<Rightarrow> u64" where
  "calc_csum buf len = foldl (XOR) 0 (take ((len + 7) div 8) buf)"

text \<open>The running tick counter is the argument \<open>cur_ticks\<close>.\<close>

definition get_elapsed :: "u32 \<Rightarrow> u32 \<Rightarrow> u32" where
  "get_elapsed cur_ticks timestamp =
     (if cur_ticks \<ge> timestamp then cur_ticks - timestamp
      else (let diff = 0xFFFFFFFF - timestamp in diff + cur_ticks))"

definition align_size :: "u64 \<Rightarrow> u32 \<Rightarrow> u64" where
  "align_size sz boundary = (sz + scast (boundary - 1)) AND scast (- boundary)"

lemma foldl_xor: "foldl (XOR) a ws = a XOR foldl (XOR) 0 ws" for a :: u64
proof (induction ws arbitrary: a)
  case (Cons w ws)
  show ?case using Cons [of "a XOR w"] Cons [of w] by (simp add: xor.assoc)
qed simp

lemma foldl_xor_update:
  fixes ws :: "u64 list"
  assumes "i < length ws"
  shows "foldl (XOR) 0 (ws[i := v]) = foldl (XOR) 0 ws XOR (ws ! i XOR v)"
  using assms
proof (induction ws arbitrary: i)
  case (Cons w ws)
  show ?case
  proof (cases i)
    case 0
    have "v XOR foldl (XOR) 0 ws = (w XOR foldl (XOR) 0 ws) XOR (w XOR v)"
      by (rule bit_eqI) (auto simp: bit_simps)
    then show ?thesis using 0 by (simp add: foldl_xor [of v] foldl_xor [of w])
  next
    case (Suc j)
    with Cons show ?thesis by (simp add: foldl_xor [of w] xor.assoc)
  qed
qed simp

lemma low16_sum:
  fixes ws vs :: "u64 list"
  assumes "list_all2 (\<lambda>w v. (ucast w :: u16) = ucast v) ws vs" "(ucast a :: u16) = ucast b"
  shows "(ucast (foldl (+) a ws) :: u16) = ucast (foldl (+) b vs)"
  using assms
proof (induction ws arbitrary: a b vs)
  case Nil
  then show ?case by simp
next
  case (Cons w ws)
  then obtain v vs' where vs: "vs = v # vs'" "(ucast w :: u16) = ucast v"
    "list_all2 (\<lambda>w v. (ucast w :: u16) = ucast v) ws vs'" by (auto simp: list_all2_Cons1)
  have "(ucast (a + w) :: u16) = ucast a + ucast w" "(ucast (b + v) :: u16) = ucast b + ucast v"
    by (simp_all add: word_unat_eq_iff unat_ucast_mod unat_word_ariths mod_add_eq mod_mod_cancel)
  then have "(ucast (a + w) :: u16) = ucast (b + v)" using vs(2) Cons.prems(2) by simp
  with vs Cons.IH [of vs' "a + w" "b + v"] show ?case by simp
qed

section \<open>Logical unit numbers\<close>

definition get_lun :: "u16 \<Rightarrow> u16" where
  "get_lun bus = bus + 1"

definition write_lun :: "u32 \<Rightarrow> u8 list" where
  "write_lun bus =
     (let lun = (ucast (get_lun (ucast bus)) :: u64)
      in [if lun < 256 then 0 else 0x40 OR (ucast (drop_bit 8 lun) AND 0x3F), ucast (lun AND 0xFF),
          0, 0, 0, 0, 0, 0])"

definition bus_from_lun :: "u16 \<Rightarrow> u32" where
  "bus_from_lun ilun = (let lun = ilun AND 0x3FFF in ucast lun - 1)"

end
