(* ===== verification/Scsi.thy ===== *)
theory Scsi
  imports Layout
begin

text \<open>
  A SCSI command in flight: \<^verbatim>\<open>struct qsio_scsiio\<close> of \<^verbatim>\<open>export/qsio_ccb.h\<close>, its sense data
  (\<^verbatim>\<open>export/exportdefs.h\<close>), its data buffer, and the transfer length its CDB asks for
  (\<open>ctio_write_length\<close> of \<^verbatim>\<open>core/vdevdefs.h\<close>). Commands live in a store indexed by a command
  number, because the same command is reached from the task set of its initiator and from
  the device queue.
\<close>

unbundle bit_operations_syntax

section \<open>Constants\<close>

abbreviation (input) TARGET_INT_LOCAL :: u8 where "TARGET_INT_LOCAL \<equiv> 1"
abbreviation (input) TARGET_INT_ISCSI :: u8 where "TARGET_INT_ISCSI \<equiv> 2"
abbreviation (input) TARGET_INT_MIRROR :: u8 where "TARGET_INT_MIRROR \<equiv> 4"
abbreviation (input) TARGET_INT_FC :: u8 where "TARGET_INT_FC \<equiv> 5"

abbreviation (input) MSG_SIMPLE_TASK :: u8 where "MSG_SIMPLE_TASK \<equiv> 0x20"
abbreviation (input) MSG_HEAD_OF_QUEUE_TASK :: u8 where "MSG_HEAD_OF_QUEUE_TASK \<equiv> 0x21"
abbreviation (input) MSG_ORDERED_TASK :: u8 where "MSG_ORDERED_TASK \<equiv> 0x22"
abbreviation (input) MSG_ACA_TASK :: u8 where "MSG_ACA_TASK \<equiv> 0x24"

abbreviation (input) SCSI_STATUS_OK :: u8 where "SCSI_STATUS_OK \<equiv> 0"
abbreviation (input) SCSI_STATUS_CHECK_COND :: u8 where "SCSI_STATUS_CHECK_COND \<equiv> 2"
abbreviation (input) SCSI_STATUS_BUSY :: u8 where "SCSI_STATUS_BUSY \<equiv> 8"
abbreviation (input) SCSI_STATUS_RESERV_CONFLICT :: u8 where "SCSI_STATUS_RESERV_CONFLICT \<equiv> 0x18"

abbreviation (input) QSIO_DATA_DIR_OUT :: u32 where "QSIO_DATA_DIR_OUT \<equiv> 0x10"
abbreviation (input) QSIO_CTIO_ABORTED :: u32 where "QSIO_CTIO_ABORTED \<equiv> 0x400"
abbreviation (input) QSIO_SEND_ABORT_STATUS :: u32 where "QSIO_SEND_ABORT_STATUS \<equiv> 0x800"
abbreviation (input) QSIO_CLUSTERED :: u32 where "QSIO_CLUSTERED \<equiv> 0x1000"
abbreviation (input) QSIO_IN_DEVQ :: u32 where "QSIO_IN_DEVQ \<equiv> 0x8000"

abbreviation (input) SSD_CURRENT_ERROR :: u8 where "SSD_CURRENT_ERROR \<equiv> 0x70"
abbreviation (input) SSD_KEY_NO_SENSE :: u8 where "SSD_KEY_NO_SENSE \<equiv> 0"
abbreviation (input) SSD_KEY_HARDWARE_ERROR :: u8 where "SSD_KEY_HARDWARE_ERROR \<equiv> 4"
abbreviation (input) SSD_KEY_ILLEGAL_REQUEST :: u8 where "SSD_KEY_ILLEGAL_REQUEST \<equiv> 5"
abbreviation (input) SSD_KEY_UNIT_ATTENTION :: u8 where "SSD_KEY_UNIT_ATTENTION \<equiv> 6"
abbreviation (input) SSD_KEY_DATA_PROTECT :: u8 where "SSD_KEY_DATA_PROTECT \<equiv> 7"

abbreviation (input) TEST_UNIT_READY :: u8 where "TEST_UNIT_READY \<equiv> 0x00"
abbreviation (input) REQUEST_SENSE :: u8 where "REQUEST_SENSE \<equiv> 0x03"
abbreviation (input) READ_6 :: u8 where "READ_6 \<equiv> 0x08"
abbreviation (input) WRITE_6 :: u8 where "WRITE_6 \<equiv> 0x0A"
abbreviation (input) INQUIRY :: u8 where "INQUIRY \<equiv> 0x12"
abbreviation (input) MODE_SELECT_6 :: u8 where "MODE_SELECT_6 \<equiv> 0x15"
abbreviation (input) RESERVE :: u8 where "RESERVE \<equiv> 0x16"
abbreviation (input) RELEASE :: u8 where "RELEASE \<equiv> 0x17"
abbreviation (input) MODE_SENSE_6 :: u8 where "MODE_SENSE_6 \<equiv> 0x1A"
abbreviation (input) READ_CAPACITY :: u8 where "READ_CAPACITY \<equiv> 0x25"
abbreviation (input) READ_10 :: u8 where "READ_10 \<equiv> 0x28"
abbreviation (input) WRITE_10 :: u8 where "WRITE_10 \<equiv> 0x2A"
abbreviation (input) VERIFY :: u8 where "VERIFY \<equiv> 0x2F"
abbreviation (input) SYNCHRONIZE_CACHE :: u8 where "SYNCHRONIZE_CACHE \<equiv> 0x35"
abbreviation (input) WRITE_SAME :: u8 where "WRITE_SAME \<equiv> 0x41"
abbreviation (input) UNMAP :: u8 where "UNMAP \<equiv> 0x42"
abbreviation (input) LOG_SELECT :: u8 where "LOG_SELECT \<equiv> 0x4C"
abbreviation (input) LOG_SENSE :: u8 where "LOG_SENSE \<equiv> 0x4D"
abbreviation (input) MODE_SELECT_10 :: u8 where "MODE_SELECT_10 \<equiv> 0x55"
abbreviation (input) MODE_SENSE_10 :: u8 where "MODE_SENSE_10 \<equiv> 0x5A"
abbreviation (input) PERSISTENT_RESERVE_IN :: u8 where "PERSISTENT_RESERVE_IN \<equiv> 0x5E"
abbreviation (input) PERSISTENT_RESERVE_OUT :: u8 where "PERSISTENT_RESERVE_OUT \<equiv> 0x5F"
abbreviation (input) EXTENDED_COPY :: u8 where "EXTENDED_COPY \<equiv> 0x83"
abbreviation (input) RECEIVE_COPY_RESULTS :: u8 where "RECEIVE_COPY_RESULTS \<equiv> 0x84"
abbreviation (input) READ_16 :: u8 where "READ_16 \<equiv> 0x88"
abbreviation (input) COMPARE_AND_WRITE :: u8 where "COMPARE_AND_WRITE \<equiv> 0x89"
abbreviation (input) WRITE_16 :: u8 where "WRITE_16 \<equiv> 0x8A"
abbreviation (input) VERIFY_16 :: u8 where "VERIFY_16 \<equiv> 0x8F"
abbreviation (input) SYNCHRONIZE_CACHE_16 :: u8 where "SYNCHRONIZE_CACHE_16 \<equiv> 0x91"
abbreviation (input) WRITE_SAME_16 :: u8 where "WRITE_SAME_16 \<equiv> 0x93"
abbreviation (input) SERVICE_ACTION_IN :: u8 where "SERVICE_ACTION_IN \<equiv> 0x9E"
abbreviation (input) REPORT_LUNS :: u8 where "REPORT_LUNS \<equiv> 0xA0"
abbreviation (input) READ_12 :: u8 where "READ_12 \<equiv> 0xA8"
abbreviation (input) WRITE_12 :: u8 where "WRITE_12 \<equiv> 0xAA"
abbreviation (input) VERIFY_12 :: u8 where "VERIFY_12 \<equiv> 0xAF"

text \<open>Additional sense codes of \<^verbatim>\<open>core/sense.h\<close>, as pairs of code and qualifier.\<close>

type_synonym asc = "u8 \<times> u8"

abbreviation (input) INVALID_FIELD_IN_CDB :: asc where "INVALID_FIELD_IN_CDB \<equiv> (0x24, 0x00)"
abbreviation (input) INVALID_FIELD_IN_PARAMETER_LIST :: asc where "INVALID_FIELD_IN_PARAMETER_LIST \<equiv> (0x26, 0x00)"
abbreviation (input) INVALID_COMMAND_OPERATION_CODE :: asc where "INVALID_COMMAND_OPERATION_CODE \<equiv> (0x20, 0x00)"
abbreviation (input) LOGICAL_UNIT_NOT_SUPPORTED :: asc where "LOGICAL_UNIT_NOT_SUPPORTED \<equiv> (0x25, 0x00)"
abbreviation (input) RESERVATIONS_PREEMPTED :: asc where "RESERVATIONS_PREEMPTED \<equiv> (0x2A, 0x03)"
abbreviation (input) RESERVATIONS_RELEASED :: asc where "RESERVATIONS_RELEASED \<equiv> (0x2A, 0x04)"
abbreviation (input) REGISTRATIONS_PREEMPTED :: asc where "REGISTRATIONS_PREEMPTED \<equiv> (0x2A, 0x05)"
abbreviation (input) INTERNAL_TARGET_FAILURE :: asc where "INTERNAL_TARGET_FAILURE \<equiv> (0x44, 0x00)"
abbreviation (input) PARAMETER_LIST_LENGTH_ERROR :: asc where "PARAMETER_LIST_LENGTH_ERROR \<equiv> (0x1A, 0x00)"
abbreviation (input) INVALID_RELEASE_OF_PERSISTENT_RESERVATION :: asc where
  "INVALID_RELEASE_OF_PERSISTENT_RESERVATION \<equiv> (0x26, 0x04)"
abbreviation (input) SPACE_ALLOCATION_FAILED_WRITE_PROTECT :: asc where
  "SPACE_ALLOCATION_FAILED_WRITE_PROTECT \<equiv> (0x27, 0x07)"

section \<open>Ports and commands\<close>

type_synonym port = "u64 \<times> u64"

record qs_sense_data =
  error_code :: u8
  sense_key :: u8
  sense_info :: u32
  extra_len :: u8
  add_sense_code :: u8
  add_sense_code_qual :: u8

record qsio_scsiio =
  cdb :: "u8 list"
  scsi_status :: u8
  task_attr :: u8
  queued :: bool
  init_int :: u8
  r_prt :: u16
  pglist_cnt :: u16
  data_ptr :: "u8 list option"
  dxfer_len :: u32
  task_tag :: u32
  i_prt :: port
  t_prt :: port
  ccb_flags :: u32
  ccb_tdisk :: nat
  sense_data :: "qs_sense_data option"
  sense_len :: u8
  init_name :: "u8 list"

text \<open>The store of commands.\<close>

type_synonym ccbs = "nat \<Rightarrow> qsio_scsiio"

definition port_equal :: "port \<Rightarrow> port \<Rightarrow> bool" where
  "port_equal port1 port2 \<longleftrightarrow> fst port1 = fst port2 \<and> snd port1 = snd port2"

definition iid_equal :: "port \<Rightarrow> port \<Rightarrow> u8 \<Rightarrow> port \<Rightarrow> port \<Rightarrow> u8 \<Rightarrow> bool" where
  "iid_equal first_i first_t first_f second_i second_t second_f \<longleftrightarrow>
     port_equal first_i second_i \<and> port_equal first_t second_t \<and> first_f = second_f"

lemma port_equal_iff [simp]: "port_equal p q \<longleftrightarrow> p = q"
  by (auto simp: port_equal_def prod_eq_iff)

lemma iid_equal_iff [simp]: "iid_equal i t f i' t' f' \<longleftrightarrow> (i, t, f) = (i', t', f')"
  by (auto simp: iid_equal_def)

text \<open>The nexus of a command: initiator port, target port and interface.\<close>

type_synonym iid = "port \<times> port \<times> u8"

abbreviation ctio_iid :: "qsio_scsiio \<Rightarrow> iid" where
  "ctio_iid ctio \<equiv> (i_prt ctio, t_prt ctio, init_int ctio)"

section \<open>Sense data\<close>

definition fill_sense_info :: "u8 \<Rightarrow> u8 \<Rightarrow> u32 \<Rightarrow> asc \<Rightarrow> qs_sense_data" where
  "fill_sense_info ecode key info a =
     \<lparr>error_code = ecode, sense_key = key, sense_info = info, extra_len = 18 - 8,
      add_sense_code = fst a, add_sense_code_qual = snd a\<rparr>"

definition SENSE_LEN :: "qs_sense_data \<Rightarrow> u8" where
  "SENSE_LEN s = extra_len s + 8"

definition ctio_allocate_sense :: "qsio_scsiio \<Rightarrow> u8 \<Rightarrow> qsio_scsiio" where
  "ctio_allocate_sense ctio len = ctio\<lparr>scsi_status := SCSI_STATUS_CHECK_COND, sense_len := len\<rparr>"

definition ctio_construct_sense :: "qsio_scsiio \<Rightarrow> u8 \<Rightarrow> u8 \<Rightarrow> u32 \<Rightarrow> asc \<Rightarrow> qsio_scsiio" where
  "ctio_construct_sense ctio ecode key info a =
     (ctio_allocate_sense ctio 18)\<lparr>sense_data := Some (fill_sense_info ecode key info a)\<rparr>"

definition ctio_free_sense :: "qsio_scsiio \<Rightarrow> qsio_scsiio" where
  "ctio_free_sense ctio = (if sense_data ctio = None then ctio else ctio\<lparr>sense_data := None, sense_len := 0\<rparr>)"

definition ctio_free_data :: "qsio_scsiio \<Rightarrow> qsio_scsiio" where
  "ctio_free_data ctio =
     (if dxfer_len ctio = 0 then ctio else ctio\<lparr>data_ptr := None, dxfer_len := 0, pglist_cnt := 0\<rparr>)"

section \<open>Buffers\<close>

text \<open>
  \<open>ctio_allocate_buffer\<close>. The fresh buffer is given by \<open>alloc\<close>, a function of the padded length,
  or \<open>None\<close> when the allocation fails; its contents are not initialised by the code.
\<close>

definition ctio_allocate_buffer :: "(nat \<Rightarrow> u8 list option) \<Rightarrow> qsio_scsiio \<Rightarrow> u32 \<Rightarrow> qsio_scsiio" where
  "ctio_allocate_buffer alloc ctio len =
     (let pad_mask = (if init_int ctio \<noteq> TARGET_INT_ISCSI then 0 else 0x03 :: u32);
          new_length = (if pad_mask \<noteq> 0 \<and> len AND pad_mask \<noteq> 0
                        then len + ((pad_mask + 1) - (len AND pad_mask)) else len)
      in ctio\<lparr>data_ptr := alloc (unat new_length), dxfer_len := len\<rparr>)"

text \<open>Big-endian fields of a CDB or of a parameter list.\<close>

definition be_read :: "u8 list \<Rightarrow> nat \<Rightarrow> nat \<Rightarrow> u64" where
  "be_read bytes off n = foldl (\<lambda>v b. push_bit 8 v OR ucast b) 0 (take n (drop off bytes))"

definition be_bytes :: "nat \<Rightarrow> u64 \<Rightarrow> u8 list" where
  "be_bytes n v = map (\<lambda>k. ucast (drop_bit (8 * (n - 1 - k)) v)) [0..<n]"

definition READ_24 :: "u8 \<Rightarrow> u8 \<Rightarrow> u8 \<Rightarrow> u64" where
  "READ_24 a b c = push_bit 16 (ucast a) OR push_bit 8 (ucast b) OR ucast c"

abbreviation (input) cdb8 :: "qsio_scsiio \<Rightarrow> nat \<Rightarrow> u8" where "cdb8 ctio k \<equiv> cdb ctio ! k"
abbreviation (input) cdb16 :: "qsio_scsiio \<Rightarrow> nat \<Rightarrow> u16" where "cdb16 ctio k \<equiv> ucast (be_read (cdb ctio) k 2)"
abbreviation (input) cdb32 :: "qsio_scsiio \<Rightarrow> nat \<Rightarrow> u32" where "cdb32 ctio k \<equiv> ucast (be_read (cdb ctio) k 4)"
abbreviation (input) cdb64 :: "qsio_scsiio \<Rightarrow> nat \<Rightarrow> u64" where "cdb64 ctio k \<equiv> be_read (cdb ctio) k 8"

definition is_write_cmd :: "qsio_scsiio \<Rightarrow> bool" where
  "is_write_cmd ctio \<longleftrightarrow> cdb8 ctio 0 \<in> {WRITE_6, WRITE_10, WRITE_12, WRITE_16, COMPARE_AND_WRITE}"

definition transfer_length_to_pglist_cnt :: "nat \<Rightarrow> u32 \<Rightarrow> u32" where
  "transfer_length_to_pglist_cnt lba_shift transfer_length =
     (if lba_shift = LBA_SHIFT then transfer_length
      else (let sz = push_bit lba_shift transfer_length;
                pglist_cnt = drop_bit LBA_SHIFT sz
            in if sz AND 0xFFF \<noteq> 0 then pglist_cnt + 1 else pglist_cnt))"

text \<open>\<open>ctio_write_length\<close>: the page count and the byte count, or \<open>None\<close> for another command.\<close>

definition ctio_write_length :: "qsio_scsiio \<Rightarrow> nat \<Rightarrow> (u32 \<times> u32) option" where
  "ctio_write_length ctio lba_shift =
     (let op = cdb8 ctio 0;
          result = (\<lambda>transfer_length pglist_cnt shift. Some (pglist_cnt, push_bit shift transfer_length))
      in if op = WRITE_6 \<or> op = READ_6
         then (let n = ucast (cdb8 ctio 4); n = (if n = 0 then 256 else n)
               in result n (transfer_length_to_pglist_cnt lba_shift n) lba_shift)
         else if op = WRITE_10 \<or> op = READ_10
         then (let n = ucast (cdb16 ctio 7) in result n (transfer_length_to_pglist_cnt lba_shift n) lba_shift)
         else if op = WRITE_12 \<or> op = READ_12
         then (let n = cdb32 ctio 6 in result n (transfer_length_to_pglist_cnt lba_shift n) lba_shift)
         else if op = WRITE_16 \<or> op = READ_16
         then (let n = cdb32 ctio 10 in result n (transfer_length_to_pglist_cnt lba_shift n) lba_shift)
         else if op = WRITE_SAME \<or> op = WRITE_SAME_16 then result 1 1 lba_shift
         else if op = EXTENDED_COPY
         then (let n = cdb32 ctio 10;
                   c = drop_bit LBA_SHIFT n
               in result n (if n AND 0xFFF \<noteq> 0 then c + 1 else c) 0)
         else if op = COMPARE_AND_WRITE
         then (let n = push_bit 1 (ucast (cdb8 ctio 13))
               in result n (transfer_length_to_pglist_cnt lba_shift n) lba_shift)
         else None)"

definition device_allocate_cmd_buffers :: "(nat \<Rightarrow> u8 list option) \<Rightarrow> qsio_scsiio \<Rightarrow> bool \<times> qsio_scsiio" where
  "device_allocate_cmd_buffers alloc ctio =
     (let op = cdb8 ctio 0;
          parameter_list_length =
            (if op = MODE_SELECT_6 then ucast (cdb8 ctio 4)
             else if op = MODE_SELECT_10 \<or> op = PERSISTENT_RESERVE_OUT \<or> op = UNMAP then cdb16 ctio 7
             else 0);
          ctio = ctio_allocate_buffer alloc ctio (ucast parameter_list_length)
      in if data_ptr ctio = None then (False, ctio)
         else (True, ctio\<lparr>ccb_flags := ccb_flags ctio OR QSIO_DATA_DIR_OUT\<rparr>))"

end
