(* ===== verification/FcRules.thy ===== *)
theory FcRules
  imports Scsi
begin

text \<open>
  The access rules for Fibre Channel initiators (\<^verbatim>\<open>core/vdevdefs.c\<close>). A rule names a port and
  a target; port (0, 0) stands for every port and target 0 for every target. The list keeps at
  most one rule per port and target, with the rules for every port in front.
\<close>

unbundle bit_operations_syntax

abbreviation (input) FC_RULE_ALLOW :: int where "FC_RULE_ALLOW \<equiv> 0"
abbreviation (input) FC_RULE_DISALLOW :: int where "FC_RULE_DISALLOW \<equiv> 1"

record fc_rule =
  wwpn :: port
  target_id :: u32
  rule :: int

definition fc_rule_same :: "fc_rule \<Rightarrow> fc_rule \<Rightarrow> bool" where
  "fc_rule_same r s \<longleftrightarrow> port_equal (wwpn r) (wwpn s) \<and> target_id r = target_id s"

definition target_add_fc_rule :: "fc_rule list \<Rightarrow> fc_rule \<Rightarrow> fc_rule list" where
  "target_add_fc_rule fc_rule_list cfg =
     (if list_ex (\<lambda>iter. fc_rule_same iter cfg) fc_rule_list
      then update_first (\<lambda>iter. fc_rule_same iter cfg) (\<lambda>iter. iter\<lparr>rule := rule cfg\<rparr>) fc_rule_list
      else if fst (wwpn cfg) = 0 \<and> snd (wwpn cfg) = 0 then cfg # fc_rule_list
      else fc_rule_list @ [cfg])"

definition target_remove_fc_rule :: "fc_rule list \<Rightarrow> fc_rule \<Rightarrow> fc_rule list" where
  "target_remove_fc_rule fc_rule_list cfg = remove_first (\<lambda>iter. fc_rule_same iter cfg) fc_rule_list"

definition target_clear_fc_rules :: "fc_rule list \<Rightarrow> u32 \<Rightarrow> fc_rule list" where
  "target_clear_fc_rules fc_rule_list tid = filter (\<lambda>iter. tid > 0 \<and> target_id iter \<noteq> tid) fc_rule_list"

text \<open>The four fallbacks the scan of \<open>fc_initiator_check\<close> collects, each -1 until a rule sets it.\<close>

record fc_scan =
  rule_wwpn :: int
  rule_target :: int
  rule_all_wwpn :: int
  rule_all_target :: int

definition fc_decide :: "fc_scan \<Rightarrow> int" where
  "fc_decide s =
     (if rule_wwpn s \<noteq> -1 then rule_wwpn s
      else if rule_target s \<noteq> -1 then rule_target s
      else if rule_all_wwpn s \<noteq> -1 then rule_all_wwpn s
      else if rule_all_target s \<noteq> -1 then rule_all_target s
      else FC_RULE_ALLOW)"

fun fc_scan_rules :: "fc_rule list \<Rightarrow> port \<Rightarrow> u32 \<Rightarrow> fc_scan \<Rightarrow> int" where
  "fc_scan_rules [] w tid s = fc_decide s"
| "fc_scan_rules (iter # rest) w tid s =
     (if port_equal (wwpn iter) w \<and> target_id iter = tid then rule iter
      else fc_scan_rules rest w tid
        (if port_equal (wwpn iter) w \<and> target_id iter = 0 then s\<lparr>rule_wwpn := rule iter\<rparr>
         else if target_id iter = tid then s\<lparr>rule_target := rule iter\<rparr>
         else if fst (wwpn iter) = 0 then s\<lparr>rule_all_wwpn := rule iter\<rparr>
         else if target_id iter = 0 then s\<lparr>rule_all_target := rule iter\<rparr>
         else s))"

definition fc_initiator_check :: "fc_rule list \<Rightarrow> port \<Rightarrow> u32 \<Rightarrow> int" where
  "fc_initiator_check fc_rule_list w tid =
     (if fc_rule_list = [] then FC_RULE_ALLOW
      else fc_scan_rules fc_rule_list w tid
        \<lparr>rule_wwpn = -1, rule_target = -1, rule_all_wwpn = -1, rule_all_target = -1\<rparr>)"

end
