(* ===== verification/Initiator.thy ===== *)
theory Initiator
  imports FcRules
begin

text \<open>
  The state a disk keeps for each initiator (\<^verbatim>\<open>struct initiator_state\<close>): its task set, its
  queue of unit attentions, and the list of initiators itself (\<^verbatim>\<open>core/vdevdefs.h\<close> and
  \<^verbatim>\<open>core/vdevdefs.c\<close>). The task set holds command numbers; the commands are in the store.
  Sleeping and waking are not steps of the model: an operation that would sleep is enabled
  only once its condition holds.
\<close>

unbundle bit_operations_syntax

section \<open>State\<close>

abbreviation (input) MAX_UNIT_ATTENTIONS :: nat where "MAX_UNIT_ATTENTIONS \<equiv> 8"

record initiator_state =
  queue_list :: "nat list"
  ts_ordered :: u32
  ts_head :: u32
  ts_queued :: u32
  ts_pending :: u32
  is_i_prt :: port
  is_t_prt :: port
  is_r_prt :: u16
  is_init_int :: u8
  disallowed :: u8
  blocked :: bool
  is_refs :: u32
  timestamp :: u32
  sense_list :: "qs_sense_data list"

abbreviation istate_iid :: "initiator_state \<Rightarrow> iid" where
  "istate_iid s \<equiv> (is_i_prt s, is_t_prt s, is_init_int s)"

section \<open>The task set\<close>

text \<open>Starting a command sets its \<open>queued\<close> bit.\<close>

definition ctio_start :: "nat \<Rightarrow> ccbs \<Rightarrow> ccbs" where
  "ctio_start c h = h(c := (h c)\<lparr>queued := True\<rparr>)"

text \<open>\<open>istate_queue_cmd\<close> on a task set that is not blocked; the result says whether to start the command.\<close>

definition istate_queue_cmd :: "ccbs \<Rightarrow> initiator_state \<Rightarrow> nat \<Rightarrow> bool \<times> ccbs \<times> initiator_state" where
  "istate_queue_cmd h s c =
     (let attr = task_attr (h c);
          (exec, s) =
            (if attr = MSG_SIMPLE_TASK then (ts_ordered s = 0 \<and> ts_head s = 0, s)
             else if attr = MSG_HEAD_OF_QUEUE_TASK then (True, s\<lparr>ts_head := ts_head s + 1\<rparr>)
             else if ts_queued s = 0 then (True, s\<lparr>ts_ordered := ts_ordered s + 1\<rparr>)
             else (False, s));
          h = (if exec then ctio_start c h else h);
          s = (if \<not> exec then s\<lparr>ts_pending := ts_pending s + 1\<rparr> else s\<lparr>ts_queued := ts_queued s + 1\<rparr>)
      in (exec, h, s\<lparr>queue_list := queue_list s @ [c]\<rparr>))"

text \<open>When \<open>istate_queue_cmd\<close> goes to sleep instead.\<close>

definition istate_queue_waits :: "initiator_state \<Rightarrow> bool \<Rightarrow> bool" where
  "istate_queue_waits s node_master \<longleftrightarrow> \<not> node_master \<and> blocked s"

text \<open>
  The release loop of \<open>istate_remove_cmd\<close> over the commands left, with its local counts of the
  started commands seen. It returns the commands it starts, in order.
\<close>

fun release_loop :: "ccbs \<Rightarrow> initiator_state \<Rightarrow> nat list \<Rightarrow> nat \<Rightarrow> nat \<Rightarrow> nat list \<times> ccbs \<times> initiator_state" where
  "release_loop h s [] nordered nqueued = ([], h, s)"
| "release_loop h s (c # cs) nordered nqueued =
     (if queued (h c)
      then release_loop h s cs (if task_attr (h c) \<noteq> MSG_SIMPLE_TASK then nordered + 1 else nordered) (nqueued + 1)
      else if task_attr (h c) = MSG_SIMPLE_TASK
      then if nordered \<noteq> 0 then ([], h, s)
           else (let (rel, h', s') = release_loop (ctio_start c h)
                       (s\<lparr>ts_pending := ts_pending s - 1, ts_queued := ts_queued s + 1\<rparr>) cs nordered (nqueued + 1)
                 in (c # rel, h', s'))
      else if task_attr (h c) = MSG_HEAD_OF_QUEUE_TASK then ([], h, s)
      else if nqueued \<noteq> 0 then ([], h, s)
      else (let (rel, h', s') = release_loop (ctio_start c h)
                  (s\<lparr>ts_pending := ts_pending s - 1, ts_queued := ts_queued s + 1,
                     ts_ordered := ts_ordered s + 1\<rparr>) cs (nordered + 1) (nqueued + 1)
            in (c # rel, h', s')))"

definition istate_remove_cmd :: "ccbs \<Rightarrow> initiator_state \<Rightarrow> nat \<Rightarrow> nat list \<times> ccbs \<times> initiator_state" where
  "istate_remove_cmd h s c =
     (let s = (if queued (h c)
               then (let s = s\<lparr>ts_queued := ts_queued s - 1\<rparr>
                     in if task_attr (h c) = MSG_HEAD_OF_QUEUE_TASK then s\<lparr>ts_head := ts_head s - 1\<rparr>
                        else if task_attr (h c) = MSG_ORDERED_TASK \<or> task_attr (h c) = MSG_ACA_TASK
                        then s\<lparr>ts_ordered := ts_ordered s - 1\<rparr>
                        else s)
               else s);
          s' = s\<lparr>queue_list := remove1 c (queue_list s)\<rparr>
      in if ts_pending s = 0 \<or> queue_list s = [] \<or> hd (queue_list s) \<noteq> c then ([], h, s')
         else release_loop h s' (queue_list s') 0 0)"

section \<open>Aborting tasks\<close>

text \<open>The flags an abort sets on a command of the task set; a command in the device queue is skipped.\<close>

definition abort_ctio :: "bool \<Rightarrow> qsio_scsiio \<Rightarrow> qsio_scsiio" where
  "abort_ctio send_status ctio =
     ctio\<lparr>ccb_flags := ccb_flags ctio OR QSIO_CTIO_ABORTED OR (if send_status then QSIO_SEND_ABORT_STATUS else 0)\<rparr>"

abbreviation (input) in_devq :: "qsio_scsiio \<Rightarrow> bool" where
  "in_devq ctio \<equiv> ccb_flags ctio AND QSIO_IN_DEVQ \<noteq> 0"

definition istate_abort_task_set :: "ccbs \<Rightarrow> initiator_state \<Rightarrow> ccbs \<times> initiator_state" where
  "istate_abort_task_set h s =
     (if queue_list s = [] then (h, s)
      else (fold (\<lambda>c h. if in_devq (h c) then h else h(c := abort_ctio False (h c))) (queue_list s) h,
            s\<lparr>blocked := True\<rparr>))"

definition istate_abort_tasks :: "ccbs \<Rightarrow> initiator_state \<Rightarrow> iid \<Rightarrow> bool \<Rightarrow> ccbs \<times> initiator_state" where
  "istate_abort_tasks h s who block =
     (if queue_list s = [] then (h, s)
      else (fold (\<lambda>c h. if in_devq (h c) then h
                        else h(c := abort_ctio (ctio_iid (h c) \<noteq> who) (h c))) (queue_list s) h,
            if block then s\<lparr>blocked := True\<rparr> else s))"

definition istate_task_exists :: "ccbs \<Rightarrow> initiator_state \<Rightarrow> u32 \<Rightarrow> bool" where
  "istate_task_exists h s tag = list_ex (\<lambda>c. task_tag (h c) = tag) (queue_list s)"

text \<open>\<open>istate_abort_task\<close>: whether the task was aborted, and whether it exists in the device queue.\<close>

definition istate_abort_task ::
  "ccbs \<Rightarrow> initiator_state \<Rightarrow> iid \<Rightarrow> u32 \<Rightarrow> bool \<times> bool \<times> ccbs \<times> initiator_state" where
  "istate_abort_task h s who tag =
     (if queue_list s = [] then (False, False, h, s)
      else (let s = s\<lparr>blocked := True\<rparr>
            in case find (\<lambda>c. task_tag (h c) = tag) (queue_list s) of
                 None \<Rightarrow> (False, False, h, s)
               | Some c \<Rightarrow>
                   if in_devq (h c) then (False, True, h, s)
                   else (True, False, h(c := abort_ctio (ctio_iid (h c) \<noteq> who) (h c)), s)))"

definition istate_abort_tasks_other_initiators :: "ccbs \<Rightarrow> initiator_state \<Rightarrow> iid \<Rightarrow> ccbs" where
  "istate_abort_tasks_other_initiators h s who =
     fold (\<lambda>c h. if in_devq (h c) then h
                 else if ctio_iid (h c) = who then h(c := abort_ctio True (h c)) else h) (queue_list s) h"

section \<open>Unit attentions\<close>

definition device_add_sense :: "initiator_state \<Rightarrow> u8 \<Rightarrow> u8 \<Rightarrow> u32 \<Rightarrow> asc \<Rightarrow> initiator_state" where
  "device_add_sense s ecode key info a =
     (let sinfo = fill_sense_info ecode key info a;
          count = length (sense_list s) + 1;
          l = sense_list s @ [sinfo]
      in s\<lparr>sense_list := (if count > MAX_UNIT_ATTENTIONS then tl l else l)\<rparr>)"

definition device_has_sense :: "initiator_state \<Rightarrow> bool" where
  "device_has_sense s \<longleftrightarrow> sense_list s \<noteq> []"

definition device_get_sense :: "initiator_state \<Rightarrow> qs_sense_data option \<times> initiator_state" where
  "device_get_sense s =
     (case sense_list s of [] \<Rightarrow> (None, s) | x # xs \<Rightarrow> (Some x, s\<lparr>sense_list := xs\<rparr>))"

definition device_move_sense :: "qsio_scsiio \<Rightarrow> qs_sense_data \<Rightarrow> qsio_scsiio" where
  "device_move_sense ctio sinfo = (ctio_allocate_sense ctio (SENSE_LEN sinfo))\<lparr>sense_data := Some sinfo\<rparr>"

definition device_find_sense :: "initiator_state \<Rightarrow> u8 \<Rightarrow> asc \<Rightarrow> bool" where
  "device_find_sense s key a =
     list_ex (\<lambda>x. sense_key x = key \<and> add_sense_code x = fst a \<and> add_sense_code_qual x = snd a) (sense_list s)"

text \<open>The bytes of a sense structure, and \<open>device_request_sense\<close>, which returns and consumes the oldest entry.\<close>

definition sense_bytes :: "qs_sense_data \<Rightarrow> u8 list" where
  "sense_bytes x =
     [error_code x, 0, sense_key x] @ rev (be_bytes 4 (ucast (sense_info x))) @
     [extra_len x, 0, 0, 0, 0, add_sense_code x, add_sense_code_qual x, 0, 0, 0, 0]"

definition device_request_sense :: "qsio_scsiio \<Rightarrow> initiator_state \<Rightarrow> qsio_scsiio \<times> initiator_state" where
  "device_request_sense ctio s =
     (let allocation_length = cdb8 ctio 4;
          (sense, s) =
            (if \<not> device_has_sense s
             then (fill_sense_info SSD_CURRENT_ERROR SSD_KEY_NO_SENSE 0 (0, 0), s)
             else (let (x, s') = device_get_sense s in (the x, s')));
          n = min (SENSE_LEN sense) allocation_length;
          ctio = ctio\<lparr>scsi_status := SCSI_STATUS_OK, dxfer_len := ucast n\<rparr>
      in (ctio_allocate_buffer (\<lambda>_. Some (take (unat n) (sense_bytes sense))) ctio (ucast n), s))"

definition device_unit_attention :: "initiator_state list \<Rightarrow> bool \<Rightarrow> iid \<Rightarrow> asc \<Rightarrow> bool \<Rightarrow> initiator_state list" where
  "device_unit_attention istate_list all who a ignore_dup =
     map (\<lambda>s. if \<not> all \<and> istate_iid s = who then s
              else if is_init_int s = TARGET_INT_MIRROR then s
              else if ignore_dup \<and> device_find_sense s SSD_KEY_UNIT_ATTENTION a then s
              else device_add_sense s SSD_CURRENT_ERROR SSD_KEY_UNIT_ATTENTION 0 a) istate_list"

section \<open>The initiators of a disk\<close>

definition init_istate :: "iid \<Rightarrow> u16 \<Rightarrow> initiator_state" where
  "init_istate who rp =
     \<lparr>queue_list = [], ts_ordered = 0, ts_head = 0, ts_queued = 0, ts_pending = 0,
      is_i_prt = fst who, is_t_prt = fst (snd who), is_r_prt = rp, is_init_int = snd (snd who),
      disallowed = 0, blocked = False, is_refs = 1, timestamp = 0, sense_list = []\<rparr>"

text \<open>
  \<open>device_get_initiator_state\<close>: looks the initiator up, moves it to the front and takes a
  reference, or adds it when \<open>alloc\<close> is set and the rules let it in. The result says whether
  there is one; it is then the head of the list.
\<close>

definition device_get_initiator_state ::
  "fc_rule list \<Rightarrow> u32 \<Rightarrow> u32 \<Rightarrow> initiator_state list \<Rightarrow> iid \<Rightarrow> u16 \<Rightarrow> bool \<Rightarrow> bool \<Rightarrow> bool \<times> initiator_state list" where
  "device_get_initiator_state rules tid ticks istate_list who rp alloc check =
     (case find (\<lambda>iter. istate_iid iter = who) istate_list of
        Some iter \<Rightarrow>
          if disallowed iter \<noteq> 0 then (False, istate_list)
          else (True, iter\<lparr>timestamp := ticks, is_refs := is_refs iter + 1\<rparr> #
                      remove_first (\<lambda>iter. istate_iid iter = who) istate_list)
      | None \<Rightarrow>
          if \<not> alloc then (False, istate_list)
          else if check \<and> snd (snd who) = TARGET_INT_FC \<and> fc_initiator_check rules (fst who) tid \<noteq> FC_RULE_ALLOW
          then (False, istate_list)
          else (True, (init_istate who rp)\<lparr>timestamp := ticks, is_refs := 2\<rparr> # istate_list))"

text \<open>Modify the state of one initiator in place.\<close>

definition istate_update :: "iid \<Rightarrow> (initiator_state \<Rightarrow> initiator_state) \<Rightarrow> initiator_state list \<Rightarrow> initiator_state list" where
  "istate_update who f istate_list = update_first (\<lambda>s. istate_iid s = who) f istate_list"

definition istate_put :: "iid \<Rightarrow> initiator_state list \<Rightarrow> initiator_state list" where
  "istate_put who istate_list = istate_update who (\<lambda>s. s\<lparr>is_refs := is_refs s - 1\<rparr>) istate_list"

definition tdisk_revalidate_istates :: "fc_rule list \<Rightarrow> u32 \<Rightarrow> initiator_state list \<Rightarrow> initiator_state list" where
  "tdisk_revalidate_istates rules tid istate_list =
     map (\<lambda>iter. if is_init_int iter = TARGET_INT_FC
                 then iter\<lparr>disallowed := word_of_int (fc_initiator_check rules (is_i_prt iter) tid)\<rparr> else iter) istate_list"

text \<open>One pass of \<open>device_unblock_queues\<close>; it repeats while the first component is set.\<close>

definition device_unblock_queues :: "initiator_state list \<Rightarrow> bool \<times> initiator_state list" where
  "device_unblock_queues istate_list =
     (list_ex (\<lambda>s. blocked s \<and> queue_list s \<noteq> []) istate_list,
      map (\<lambda>s. if blocked s \<and> queue_list s = [] then s\<lparr>blocked := False\<rparr> else s) istate_list)"

text \<open>Freeing initiators waits for their task sets to drain; what is freed leaves the list.\<close>

definition device_free_initiator_state2 :: "initiator_state list \<Rightarrow> iid \<Rightarrow> initiator_state list" where
  "device_free_initiator_state2 istate_list who = remove_first (\<lambda>s. istate_iid s = who) istate_list"

definition device_free_all_initiators :: "initiator_state list \<Rightarrow> initiator_state list" where
  "device_free_all_initiators istate_list = []"

definition device_free_stale_initiators ::
  "(u32 \<Rightarrow> nat) \<Rightarrow> nat \<Rightarrow> u32 \<Rightarrow> initiator_state list \<Rightarrow> initiator_state list" where
  "device_free_stale_initiators ticks_to_msecs stale_initiator_timeout ticks istate_list =
     filter (\<lambda>s. ticks_to_msecs (get_elapsed ticks (timestamp s)) < stale_initiator_timeout) istate_list"

text \<open>\<open>device_istate_queue_ctio\<close>: find or add the initiator and queue the command on its task set.\<close>

definition device_istate_queue_ctio ::
  "fc_rule list \<Rightarrow> u32 \<Rightarrow> u32 \<Rightarrow> ccbs \<Rightarrow> initiator_state list \<Rightarrow> nat \<Rightarrow> bool option \<times> ccbs \<times> initiator_state list" where
  "device_istate_queue_ctio rules tid ticks h istate_list c =
     (let who = ctio_iid (h c);
          (found, istate_list) = device_get_initiator_state rules tid ticks istate_list who (r_prt (h c)) True True
      in if \<not> found then (None, h, istate_list)
         else (let (exec, h, s) = istate_queue_cmd h (hd istate_list) c
               in (Some exec, h, s # tl istate_list)))"

end
