(* ===== verification/DeviceQueue.thy ===== *)
theory DeviceQueue
  imports Initiator
begin

text \<open>
  The device queues of \<^verbatim>\<open>core/gdevq.c\<close> and \<^verbatim>\<open>core/gdevq.h\<close>: commands ready to run wait in one
  queue, commands forwarded to the cluster master in another, and the pages of a write in a
  third until their hashes are computed. Aborts mark the commands in the task set of an
  initiator and those in the queues. A page of a write is named by its command and its
  position in the command's page list.
\<close>

unbundle bit_operations_syntax

abbreviation (input) DDBLOCK_DEDUPE_DISABLED :: nat where "DDBLOCK_DEDUPE_DISABLED \<equiv> 1"
abbreviation (input) PGDATA_HASH_CHECK_DONE :: nat where "PGDATA_HASH_CHECK_DONE \<equiv> 12"
abbreviation (input) QSIO_NOREFS :: u32 where "QSIO_NOREFS \<equiv> 0x40000"

type_synonym pgid = "nat \<times> nat"

record devq =
  dq_ccbs :: ccbs
  pending_queue :: "nat list"
  master_pending_queue :: "nat list"
  mdevq_pending :: u32
  pending_write_queue :: "pgid list"
  pg_flags :: "pgid \<Rightarrow> u32"
  pg_done :: "pgid \<Rightarrow> bool"
  fc_started :: "nat list"

section \<open>Inserting\<close>

definition mark_complete :: "pgid \<Rightarrow> devq \<Rightarrow> devq" where
  "mark_complete pg q =
     q\<lparr>pg_done := (pg_done q)(pg := True),
       pg_flags := (pg_flags q)(pg := atomic_set_bit PGDATA_HASH_CHECK_DONE (pg_flags q pg))\<rparr>"

definition gdevq_write_insert :: "bool \<Rightarrow> nat \<Rightarrow> devq \<Rightarrow> devq" where
  "gdevq_write_insert enable_deduplication c q =
     (let pages = map (\<lambda>i. (c, i)) [0..<unat (pglist_cnt (dq_ccbs q c))]
      in if \<not> enable_deduplication
         then fold (\<lambda>pg q. mark_complete pg
                (q\<lparr>pg_flags := (pg_flags q)(pg := atomic_set_bit DDBLOCK_DEDUPE_DISABLED (pg_flags q pg))\<rparr>)) pages q
         else q\<lparr>pending_write_queue := pending_write_queue q @ pages\<rparr>)"

abbreviation (input) set_in_devq :: "nat \<Rightarrow> devq \<Rightarrow> devq" where
  "set_in_devq c q \<equiv> q\<lparr>dq_ccbs := (dq_ccbs q)(c := (dq_ccbs q c)\<lparr>ccb_flags := ccb_flags (dq_ccbs q c) OR QSIO_IN_DEVQ\<rparr>)\<rparr>"

definition mdevq_insert_ccb :: "nat \<Rightarrow> devq \<Rightarrow> devq" where
  "mdevq_insert_ccb c q =
     (let q = set_in_devq c q in q\<lparr>master_pending_queue := master_pending_queue q @ [c]\<rparr>)"

text \<open>\<open>dedup\<close> gives the deduplication setting of a disk.\<close>

definition gdevq_insert_ccb :: "(nat \<Rightarrow> bool) \<Rightarrow> nat \<Rightarrow> devq \<Rightarrow> devq" where
  "gdevq_insert_ccb dedup c q =
     (let ctio = dq_ccbs q c
      in if ccb_flags ctio AND QSIO_CLUSTERED \<noteq> 0 then mdevq_insert_ccb c q
         else (let q = (if init_int ctio \<noteq> TARGET_INT_LOCAL \<and> is_write_cmd ctio
                        then gdevq_write_insert (dedup (ccb_tdisk ctio)) c q else q);
                   q = set_in_devq c q
               in q\<lparr>pending_queue := pending_queue q @ [c]\<rparr>))"

text \<open>
  \<open>device_queue_ctio_list\<close>: a released command goes to the Fibre Channel interface, where
  \<open>fc_started\<close> records it, or to the device queue.
\<close>

definition device_queue_ctio_list :: "(nat \<Rightarrow> bool) \<Rightarrow> nat list \<Rightarrow> devq \<Rightarrow> devq" where
  "device_queue_ctio_list dedup ctio_list q =
     fold (\<lambda>c q. if init_int (dq_ccbs q c) = TARGET_INT_FC then q\<lparr>fc_started := fc_started q @ [c]\<rparr>
                 else gdevq_insert_ccb dedup c q) ctio_list q"

section \<open>Removing\<close>

definition get_next_ccb :: "devq \<Rightarrow> nat option \<times> devq" where
  "get_next_ccb q = (case pending_queue q of [] \<Rightarrow> (None, q) | c # cs \<Rightarrow> (Some c, q\<lparr>pending_queue := cs\<rparr>))"

definition get_next_master_ccb :: "devq \<Rightarrow> nat option \<times> devq" where
  "get_next_master_ccb q =
     (case master_pending_queue q of
        [] \<Rightarrow> (None, q)
      | c # cs \<Rightarrow> (Some c, q\<lparr>master_pending_queue := cs, mdevq_pending := mdevq_pending q + 1\<rparr>))"

definition get_next_pgdata :: "devq \<Rightarrow> pgid option \<times> devq" where
  "get_next_pgdata q =
     (case pending_write_queue q of [] \<Rightarrow> (None, q) | p # ps \<Rightarrow> (Some p, q\<lparr>pending_write_queue := ps\<rparr>))"

text \<open>\<open>device_send_ccb\<close>: the flags a command carries back to its interface.\<close>

definition device_send_ccb :: "qsio_scsiio \<Rightarrow> qsio_scsiio" where
  "device_send_ccb ctio =
     (let norefs = ccb_flags ctio AND QSIO_NOREFS;
          fl = 0x01 OR 0x20 OR 0x40;
          fl = (if dxfer_len ctio \<noteq> 0 then fl OR 0x08 else fl);
          fl = (if norefs \<noteq> 0 then fl OR QSIO_NOREFS else fl)
      in ctio\<lparr>ccb_flags := fl\<rparr>)"

section \<open>Aborting\<close>

abbreviation (input) set_ccb :: "nat \<Rightarrow> qsio_scsiio \<Rightarrow> devq \<Rightarrow> devq" where
  "set_ccb c ctio q \<equiv> q\<lparr>dq_ccbs := (dq_ccbs q)(c := ctio)\<rparr>"

definition gdevq_abort_task :: "iid \<Rightarrow> u32 \<Rightarrow> devq \<Rightarrow> bool \<times> devq" where
  "gdevq_abort_task who tag q =
     (case find (\<lambda>c. task_tag (dq_ccbs q c) = tag \<and> ctio_iid (dq_ccbs q c) = who) (pending_queue q) of
        None \<Rightarrow> (False, q)
      | Some c \<Rightarrow> (True, set_ccb c (abort_ctio False (dq_ccbs q c)) q))"

definition gdevq_abort_tasks_for_initiator :: "iid \<Rightarrow> devq \<Rightarrow> devq" where
  "gdevq_abort_tasks_for_initiator who q =
     fold (\<lambda>c q. if ctio_iid (dq_ccbs q c) = who then set_ccb c (abort_ctio False (dq_ccbs q c)) q else q)
       (pending_queue q) q"

definition gdevq_abort_tasks :: "nat \<Rightarrow> iid \<Rightarrow> devq \<Rightarrow> devq" where
  "gdevq_abort_tasks tdisk who q =
     fold (\<lambda>c q. if ccb_tdisk (dq_ccbs q c) = tdisk
                 then set_ccb c (abort_ctio (ctio_iid (dq_ccbs q c) \<noteq> who) (dq_ccbs q c)) q else q)
       (pending_queue q) q"

definition gdevq_abort_tasks_other_initiators :: "iid \<Rightarrow> devq \<Rightarrow> devq" where
  "gdevq_abort_tasks_other_initiators who q =
     fold (\<lambda>c q. if ctio_iid (dq_ccbs q c) = who then set_ccb c (abort_ctio True (dq_ccbs q c)) q else q)
       (pending_queue q) q"

definition mdevq_abort_tasks :: "nat \<Rightarrow> iid \<Rightarrow> devq \<Rightarrow> devq" where
  "mdevq_abort_tasks tdisk who q =
     fold (\<lambda>c q. if ccb_tdisk (dq_ccbs q c) = tdisk
                 then set_ccb c (abort_ctio (ctio_iid (dq_ccbs q c) \<noteq> who) (dq_ccbs q c)) q else q)
       (master_pending_queue q) q"

section \<open>Aligned transfers\<close>

definition is_unaligned_write :: "nat \<Rightarrow> u64 \<Rightarrow> u32 \<Rightarrow> bool" where
  "is_unaligned_write lba_shift lba transfer_length =
     (if lba_shift = LBA_SHIFT then False
      else (let sz = push_bit lba_shift transfer_length;
                lba_diff = lba - (lba AND NOT 0x7)
            in \<not> (lba_diff = 0 \<and> sz AND 0xFFF = 0)))"

text \<open>The block address and the transfer length of a read or write CDB.\<close>

definition cdb_extent :: "qsio_scsiio \<Rightarrow> (u64 \<times> u32) option" where
  "cdb_extent ctio =
     (let op = cdb8 ctio 0
      in if op = READ_6 \<or> op = WRITE_6
         then Some (READ_24 (cdb8 ctio 1 AND 0x1F) (cdb8 ctio 2) (cdb8 ctio 3),
                    if cdb8 ctio 4 = 0 then 256 else ucast (cdb8 ctio 4))
         else if op = READ_10 \<or> op = WRITE_10 then Some (ucast (cdb32 ctio 2), ucast (cdb16 ctio 7))
         else if op = READ_12 \<or> op = WRITE_12 then Some (ucast (cdb32 ctio 2), cdb32 ctio 6)
         else if op = READ_16 \<or> op = WRITE_16 then Some (cdb64 ctio 2, cdb32 ctio 10)
         else None)"

definition is_aligned_write :: "nat \<Rightarrow> qsio_scsiio \<Rightarrow> bool" where
  "is_aligned_write lba_shift ctio =
     (case cdb_extent ctio of
        None \<Rightarrow> False
      | Some (lba, transfer_length) \<Rightarrow>
          transfer_length \<noteq> 0 \<and> \<not> is_unaligned_write lba_shift lba transfer_length)"

section \<open>Task management of a disk\<close>

text \<open>
  The task sets of a disk's initiators together with the queues. \<open>Abort_wait\<close> is the state in
  which \<open>__device_istate_abort_task\<close> polls for a task that is being executed to end.
\<close>

record tmf =
  tm_rules :: "fc_rule list"
  tm_target :: u32
  tm_ticks :: u32
  tm_istates :: "initiator_state list"
  tm_devq :: devq

datatype abort_result = Abort_done bool tmf | Abort_wait tmf

definition tmf_get_istate :: "iid \<Rightarrow> tmf \<Rightarrow> bool \<times> tmf" where
  "tmf_get_istate who m =
     (let (found, l) = device_get_initiator_state (tm_rules m) (tm_target m) (tm_ticks m) (tm_istates m) who 0 False True
      in (found, m\<lparr>tm_istates := l\<rparr>))"

definition tmf_unblock :: "iid \<Rightarrow> tmf \<Rightarrow> tmf" where
  "tmf_unblock who m =
     m\<lparr>tm_istates := istate_put who (istate_update who (\<lambda>s. s\<lparr>blocked := False\<rparr>) (tm_istates m))\<rparr>"

definition device_istate_abort_task :: "iid \<Rightarrow> u32 \<Rightarrow> tmf \<Rightarrow> abort_result" where
  "device_istate_abort_task who tag m =
     (let (found, m) = tmf_get_istate who m
      in if \<not> found then Abort_done False m
         else
           (let q = tm_devq m;
                (task_found, task_exists, h, s) = istate_abort_task (dq_ccbs q) (hd (tm_istates m)) who tag;
                m = m\<lparr>tm_istates := s # tl (tm_istates m), tm_devq := q\<lparr>dq_ccbs := h\<rparr>\<rparr>
            in if task_found then Abort_done True (tmf_unblock who m)
               else (let (task_found, q) = gdevq_abort_task who tag (tm_devq m);
                         m = m\<lparr>tm_devq := q\<rparr>
                     in if \<not> task_found \<and> task_exists then Abort_wait m
                        else Abort_done task_found (tmf_unblock who m))))"

text \<open>
  \<open>device_istate_abort_task_set\<close> up to the wait for the task set to drain, and the unblocking
  once it has.
\<close>

definition device_istate_abort_task_set :: "iid \<Rightarrow> tmf \<Rightarrow> bool \<times> tmf" where
  "device_istate_abort_task_set who m =
     (let (found, m) = tmf_get_istate who m
      in if \<not> found then (False, m)
         else (let (h, s) = istate_abort_task_set (dq_ccbs (tm_devq m)) (hd (tm_istates m));
                   q = gdevq_abort_tasks_for_initiator who ((tm_devq m)\<lparr>dq_ccbs := h\<rparr>)
               in (True, m\<lparr>tm_istates := s # tl (tm_istates m), tm_devq := q\<rparr>)))"

end
