(* ===== verification/Reservation.thy ===== *)
theory Reservation
  imports DeviceQueue
begin

text \<open>
  SCSI reservations of a disk (\<^verbatim>\<open>core/reservation.c\<close>, \<^verbatim>\<open>core/reservation.h\<close> and the command
  entries of \<^verbatim>\<open>core/tdisk.c\<close>): the PERSISTENT RESERVE IN and OUT service actions, RESERVE and
  RELEASE, and the check that decides whether a command conflicts with a reservation. The
  messages to the other node of a cluster (\<^verbatim>\<open>core/node_sync.c\<close>) are collected in an outbox,
  and what that node does on receipt is modelled with them. Hosts are little endian.

  Commands forwarded to a mirror peer (\<open>tdisk_mirror_cmd_generic_nocheck\<close>) depend on the peer's
  reply, which is a parameter. Response buffers are byte lists; a write past the end of a
  buffer is the value \<open>None\<close>.
\<close>

unbundle bit_operations_syntax

section \<open>State\<close>

abbreviation (input) RESERVATION_TYPE_RESERVE :: u8 where "RESERVATION_TYPE_RESERVE \<equiv> 1"
abbreviation (input) RESERVATION_TYPE_PERSISTENT :: u8 where "RESERVATION_TYPE_PERSISTENT \<equiv> 2"

abbreviation (input) RESERVATION_TYPE_WRITE_EXCLUSIVE :: u8 where "RESERVATION_TYPE_WRITE_EXCLUSIVE \<equiv> 1"
abbreviation (input) RESERVATION_TYPE_EXCLUSIVE_ACCESS :: u8 where "RESERVATION_TYPE_EXCLUSIVE_ACCESS \<equiv> 3"
abbreviation (input) RESERVATION_TYPE_WRITE_EXCLUSIVE_RO :: u8 where "RESERVATION_TYPE_WRITE_EXCLUSIVE_RO \<equiv> 5"
abbreviation (input) RESERVATION_TYPE_EXCLUSIVE_ACCESS_RO :: u8 where "RESERVATION_TYPE_EXCLUSIVE_ACCESS_RO \<equiv> 6"
abbreviation (input) RESERVATION_TYPE_WRITE_EXCLUSIVE_AR :: u8 where "RESERVATION_TYPE_WRITE_EXCLUSIVE_AR \<equiv> 7"
abbreviation (input) RESERVATION_TYPE_EXCLUSIVE_ACCESS_AR :: u8 where "RESERVATION_TYPE_EXCLUSIVE_ACCESS_AR \<equiv> 8"

record registration =
  rg_key :: u64
  rg_i_prt :: port
  rg_t_prt :: port
  rg_r_prt :: u16
  rg_init_int :: u8
  rg_init_name :: "u8 list"

record reservation =
  generation :: u32
  is_reserved :: bool
  rv_type :: u8
  persistent_type :: u8
  rv_init_int :: u8
  rv_r_prt :: u16
  rv_i_prt :: port
  rv_t_prt :: port
  persistent_key :: u64
  registration_list :: "registration list"

abbreviation reg_iid :: "registration \<Rightarrow> iid" where
  "reg_iid r \<equiv> (rg_i_prt r, rg_t_prt r, rg_init_int r)"

abbreviation resv_iid :: "reservation \<Rightarrow> iid" where
  "resv_iid r \<equiv> (rv_i_prt r, rv_t_prt r, rv_init_int r)"

text \<open>The wire form of a reservation, without its registrations, and of a registration.\<close>

record reservation_spec =
  rs_generation :: u32
  rs_is_reserved :: bool
  rs_type :: u8
  rs_persistent_type :: u8
  rs_init_int :: u8
  rs_r_prt :: u16
  rs_i_prt :: port
  rs_t_prt :: port
  rs_persistent_key :: u64

datatype registration_op = REGISTRATION_OP_ADD | REGISTRATION_OP_DELETE | REGISTRATION_OP_MODIFY

record registration_spec =
  sp_reservation :: reservation_spec
  sp_key :: u64
  sp_i_prt :: port
  sp_t_prt :: port
  sp_r_prt :: u16
  sp_init_int :: u8
  sp_op :: registration_op
  sp_init_name :: "u8 list"

datatype node_msg =
    NODE_MSG_RESERVATION_SYNC reservation_spec
  | NODE_MSG_REGISTRATION_SYNC registration_spec
  | NODE_MSG_REGISTRATION_CLEAR_SYNC reservation_spec
  | NODE_MSG_SENSE_STATE "initiator_state list"

text \<open>The part of a disk the reservation code works on. \<open>sync_enabled\<close>: there is a node to keep in step.\<close>

record tdisk =
  istate_list :: "initiator_state list"
  reservation :: reservation
  sync_reservation :: reservation
  sync_enabled :: bool
  outbox :: "node_msg list"
  td_devq :: devq
  td_ticks :: u32
  td_ticks_to_msecs :: "u32 \<Rightarrow> nat"
  td_stale_timeout :: nat

section \<open>Messages to the other node\<close>

definition reservation_spec_fill :: "reservation \<Rightarrow> reservation_spec" where
  "reservation_spec_fill r =
     \<lparr>rs_generation = generation r, rs_is_reserved = is_reserved r, rs_type = rv_type r,
      rs_persistent_type = persistent_type r, rs_init_int = rv_init_int r, rs_r_prt = rv_r_prt r,
      rs_i_prt = rv_i_prt r, rs_t_prt = rv_t_prt r, rs_persistent_key = persistent_key r\<rparr>"

definition reservation_spec_copy :: "reservation \<Rightarrow> reservation_spec \<Rightarrow> reservation" where
  "reservation_spec_copy r sp =
     r\<lparr>generation := rs_generation sp, is_reserved := rs_is_reserved sp, rv_type := rs_type sp,
       persistent_type := rs_persistent_type sp, rv_init_int := rs_init_int sp,
       rv_i_prt := rs_i_prt sp, rv_t_prt := rs_t_prt sp, rv_r_prt := rs_r_prt sp,
       persistent_key := rs_persistent_key sp\<rparr>"

definition send_msg :: "node_msg \<Rightarrow> tdisk \<Rightarrow> tdisk" where
  "send_msg m td = (if sync_enabled td then td\<lparr>outbox := outbox td @ [m]\<rparr> else td)"

definition node_reservation_sync_send :: "tdisk \<Rightarrow> tdisk" where
  "node_reservation_sync_send td = send_msg (NODE_MSG_RESERVATION_SYNC (reservation_spec_fill (reservation td))) td"

definition node_registration_sync_send :: "registration \<Rightarrow> registration_op \<Rightarrow> tdisk \<Rightarrow> tdisk" where
  "node_registration_sync_send r op td =
     send_msg (NODE_MSG_REGISTRATION_SYNC
       \<lparr>sp_reservation = reservation_spec_fill (reservation td), sp_key = rg_key r, sp_i_prt = rg_i_prt r,
        sp_t_prt = rg_t_prt r, sp_r_prt = rg_r_prt r, sp_init_int = rg_init_int r, sp_op = op,
        sp_init_name = rg_init_name r\<rparr>) td"

definition node_registration_clear_sync_send :: "tdisk \<Rightarrow> tdisk" where
  "node_registration_clear_sync_send td =
     send_msg (NODE_MSG_REGISTRATION_CLEAR_SYNC (reservation_spec_fill (reservation td))) td"

text \<open>Sending the unit attentions first drops the initiators not heard of for a while.\<close>

definition node_istate_sense_state_send :: "tdisk \<Rightarrow> tdisk" where
  "node_istate_sense_state_send td =
     (if \<not> sync_enabled td then td
      else (let td = td\<lparr>istate_list := device_free_stale_initiators (td_ticks_to_msecs td) (td_stale_timeout td)
                                         (td_ticks td) (istate_list td)\<rparr>
            in send_msg (NODE_MSG_SENSE_STATE (filter (\<lambda>s. sense_list s \<noteq> []) (istate_list td))) td))"

section \<open>Receiving on the other node\<close>

definition registration_spec_add :: "reservation \<Rightarrow> registration_spec \<Rightarrow> reservation" where
  "registration_spec_add r sp =
     (let registration = \<lparr>rg_key = sp_key sp, rg_i_prt = sp_i_prt sp, rg_t_prt = sp_t_prt sp,
                          rg_r_prt = sp_r_prt sp, rg_init_int = sp_init_int sp, rg_init_name = []\<rparr>
      in reservation_spec_copy (r\<lparr>registration_list := registration # registration_list r\<rparr>) (sp_reservation sp))"

definition registration_spec_clear :: "reservation \<Rightarrow> reservation_spec \<Rightarrow> reservation" where
  "registration_spec_clear r sp = reservation_spec_copy (r\<lparr>registration_list := []\<rparr>) sp"

definition registration_spec_modify :: "reservation \<Rightarrow> registration_spec \<Rightarrow> reservation" where
  "registration_spec_modify r sp =
     reservation_spec_copy
       (r\<lparr>registration_list :=
            update_first (\<lambda>tmp. iid_equal (rg_i_prt tmp) (rg_t_prt tmp) (rg_init_int tmp)
                                  (sp_i_prt sp) (sp_t_prt sp) (sp_init_int sp))
              (\<lambda>tmp. tmp\<lparr>rg_key := sp_key sp\<rparr>) (registration_list r)\<rparr>) (sp_reservation sp)"

definition registration_spec_remove :: "reservation \<Rightarrow> registration_spec \<Rightarrow> reservation" where
  "registration_spec_remove r sp =
     reservation_spec_copy
       (r\<lparr>registration_list :=
            remove_first (\<lambda>tmp. iid_equal (rg_i_prt tmp) (rg_t_prt tmp) (rg_init_int tmp)
                                  (sp_i_prt sp) (sp_t_prt sp) (sp_init_int sp)) (registration_list r)\<rparr>)
       (sp_reservation sp)"

definition node_registration_sync_recv :: "registration_spec \<Rightarrow> reservation \<Rightarrow> reservation" where
  "node_registration_sync_recv sp r =
     (if sp_op sp = REGISTRATION_OP_ADD then registration_spec_add r sp else registration_spec_remove r sp)"

definition node_reservation_sync_recv :: "reservation_spec \<Rightarrow> reservation \<Rightarrow> reservation" where
  "node_reservation_sync_recv sp r = reservation_spec_copy r sp"

definition node_registration_clear_sync_recv :: "reservation_spec \<Rightarrow> reservation \<Rightarrow> reservation" where
  "node_registration_clear_sync_recv sp r = registration_spec_clear r sp"

text \<open>The other node's copy of the reservation (\<open>sync_reservation\<close>) after one message.\<close>

definition node_sync_recv :: "node_msg \<Rightarrow> reservation \<Rightarrow> reservation" where
  "node_sync_recv m r = (case m of
       NODE_MSG_RESERVATION_SYNC sp \<Rightarrow> node_reservation_sync_recv sp r
     | NODE_MSG_REGISTRATION_SYNC sp \<Rightarrow> node_registration_sync_recv sp r
     | NODE_MSG_REGISTRATION_CLEAR_SYNC sp \<Rightarrow> node_registration_clear_sync_recv sp r
     | NODE_MSG_SENSE_STATE _ \<Rightarrow> r)"

section \<open>Resynchronising a mirror\<close>

text \<open>
  \<open>tdisk_mirror_sync_reservations\<close>: the mirror peer clears its registrations, gets them one by
  one and then the reservation. A registration message sent this way carries no reservation
  (\<open>blank\<close> stands for what the message buffer holds there); a reservation made by RESERVE is not
  mirrored, only its generation.
\<close>

definition tdisk_mirror_reservation_spec :: "reservation \<Rightarrow> reservation_spec" where
  "tdisk_mirror_reservation_spec r =
     (if \<not> is_reserved r \<or> rv_type r = RESERVATION_TYPE_PERSISTENT then reservation_spec_fill r
      else \<lparr>rs_generation = generation r, rs_is_reserved = False, rs_type = 0, rs_persistent_type = 0,
            rs_init_int = 0, rs_r_prt = 0, rs_i_prt = (0, 0), rs_t_prt = (0, 0), rs_persistent_key = 0\<rparr>)"

definition tdisk_mirror_registration_spec :: "reservation_spec \<Rightarrow> registration \<Rightarrow> registration_spec" where
  "tdisk_mirror_registration_spec blank r =
     \<lparr>sp_reservation = blank, sp_key = rg_key r, sp_i_prt = rg_i_prt r, sp_t_prt = rg_t_prt r,
      sp_r_prt = rg_r_prt r, sp_init_int = rg_init_int r, sp_op = REGISTRATION_OP_ADD,
      sp_init_name = rg_init_name r\<rparr>"

definition tdisk_mirror_sync_reservations :: "reservation_spec \<Rightarrow> reservation \<Rightarrow> reservation \<Rightarrow> reservation" where
  "tdisk_mirror_sync_reservations blank r peer =
     (let peer = peer\<lparr>registration_list := []\<rparr>;
          peer = fold (\<lambda>reg p. registration_spec_add p (tdisk_mirror_registration_spec blank reg))
                   (registration_list r) peer
      in reservation_spec_copy peer (tdisk_mirror_reservation_spec r))"

end
