(* ===== verification/PersistentReserve.thy ===== *)
theory PersistentReserve
  imports Reservation
begin

text \<open>
  The service actions of PERSISTENT RESERVE OUT and PERSISTENT RESERVE IN
  (\<^verbatim>\<open>core/reservation.c\<close>, \<^verbatim>\<open>core/tdisk.c\<close>). A handler takes and returns the command, whose status it
  sets, and the disk.
\<close>

unbundle bit_operations_syntax

section \<open>Who holds a reservation\<close>

definition initiator_has_registered_ar :: "reservation \<Rightarrow> iid \<Rightarrow> bool" where
  "initiator_has_registered_ar r who = list_ex (\<lambda>tmp. reg_iid tmp = who) (registration_list r)"

definition in_persistent_ro_type :: "reservation \<Rightarrow> bool" where
  "in_persistent_ro_type r \<longleftrightarrow> is_reserved r \<and> rv_type r = RESERVATION_TYPE_PERSISTENT \<and>
     (persistent_type r = RESERVATION_TYPE_WRITE_EXCLUSIVE_RO \<or> persistent_type r = RESERVATION_TYPE_EXCLUSIVE_ACCESS_RO)"

definition in_persistent_ar_type :: "reservation \<Rightarrow> bool" where
  "in_persistent_ar_type r \<longleftrightarrow> is_reserved r \<and> rv_type r = RESERVATION_TYPE_PERSISTENT \<and>
     (persistent_type r = RESERVATION_TYPE_WRITE_EXCLUSIVE_AR \<or> persistent_type r = RESERVATION_TYPE_EXCLUSIVE_ACCESS_AR)"

definition persistent_reservation_update_key :: "reservation \<Rightarrow> qsio_scsiio \<Rightarrow> u64 \<Rightarrow> reservation" where
  "persistent_reservation_update_key r ctio key =
     (if rv_type r \<noteq> RESERVATION_TYPE_PERSISTENT then r
      else if persistent_type r = RESERVATION_TYPE_WRITE_EXCLUSIVE_AR \<or>
              persistent_type r = RESERVATION_TYPE_EXCLUSIVE_ACCESS_AR then r
      else if resv_iid r \<noteq> ctio_iid ctio then r
      else r\<lparr>persistent_key := key\<rparr>)"

definition is_persistent_reservation_holder :: "reservation \<Rightarrow> iid \<Rightarrow> bool" where
  "is_persistent_reservation_holder r who =
     (if rv_type r \<noteq> RESERVATION_TYPE_PERSISTENT then False
      else if persistent_type r \<in> {RESERVATION_TYPE_WRITE_EXCLUSIVE, RESERVATION_TYPE_EXCLUSIVE_ACCESS,
                                   RESERVATION_TYPE_WRITE_EXCLUSIVE_RO, RESERVATION_TYPE_EXCLUSIVE_ACCESS_RO}
      then resv_iid r = who
      else if persistent_type r \<in> {RESERVATION_TYPE_WRITE_EXCLUSIVE_AR, RESERVATION_TYPE_EXCLUSIVE_ACCESS_AR}
      then initiator_has_registered_ar r who
      else False)"

definition multiple_registrants_reservation_type :: "reservation \<Rightarrow> bool" where
  "multiple_registrants_reservation_type r \<longleftrightarrow>
     persistent_type r \<in> {RESERVATION_TYPE_WRITE_EXCLUSIVE_RO, RESERVATION_TYPE_EXCLUSIVE_ACCESS_RO,
                          RESERVATION_TYPE_WRITE_EXCLUSIVE_AR, RESERVATION_TYPE_EXCLUSIVE_ACCESS_AR}"

text \<open>The registration \<open>initiator_has_registered\<close> finds, if any.\<close>

definition initiator_has_registered :: "u64 \<Rightarrow> iid \<Rightarrow> registration list \<Rightarrow> registration option" where
  "initiator_has_registered key who lhead = find (\<lambda>tmp. reg_iid tmp = who \<and> rg_key tmp = key) lhead"

definition persistent_reservation_reset :: "reservation \<Rightarrow> reservation" where
  "persistent_reservation_reset r = r\<lparr>is_reserved := False, rv_type := 0, persistent_type := 0, persistent_key := 0\<rparr>"

section \<open>Unit attentions for registrants\<close>

abbreviation (input) on_resv :: "(reservation \<Rightarrow> reservation) \<Rightarrow> tdisk \<Rightarrow> tdisk" where
  "on_resv f td \<equiv> td\<lparr>reservation := f (reservation td)\<rparr>"

definition registrant_unit_attention :: "registration \<Rightarrow> asc \<Rightarrow> tdisk \<Rightarrow> tdisk" where
  "registrant_unit_attention r a td =
     (let (found, l) = device_get_initiator_state [] 0 (td_ticks td) (istate_list td) (reg_iid r) (rg_r_prt r) False False
      in if \<not> found then td\<lparr>istate_list := l\<rparr>
         else td\<lparr>istate_list := istate_put (reg_iid r)
                   (device_add_sense (hd l) SSD_CURRENT_ERROR SSD_KEY_UNIT_ATTENTION 0 a # tl l)\<rparr>)"

definition registrants_unit_attention :: "asc \<Rightarrow> iid \<Rightarrow> tdisk \<Rightarrow> tdisk" where
  "registrants_unit_attention a who td =
     (let others = filter (\<lambda>r. reg_iid r \<noteq> who) (registration_list (reservation td));
          td = fold (\<lambda>r. registrant_unit_attention r a) others td
      in if others \<noteq> [] then node_istate_sense_state_send td else td)"

section \<open>The mirror peer\<close>

text \<open>
  \<open>tdisk_mirror_cmd_generic_nocheck\<close> for a persistent reserve command. The peer answers with
  a status, sense data and data, or there is no answer; then \<open>takeover\<close> says that this node
  could take the peer's role over.
\<close>

datatype peer_reply = Peer_answer u8 "qs_sense_data option" "u8 list" | Peer_lost bool

record mirror_env =
  mirroring_configured :: bool
  mirror_master :: bool
  peer_reply :: peer_reply

definition mirror_cmd_generic :: "peer_reply \<Rightarrow> qsio_scsiio \<Rightarrow> int \<times> qsio_scsiio" where
  "mirror_cmd_generic reply ctio =
     (let ctio = ctio\<lparr>scsi_status := 0\<rparr>
      in case reply of
           Peer_answer status sense bytes \<Rightarrow>
             (let ctio = ctio\<lparr>scsi_status := status, sense_data := sense\<rparr>;
                  ctio = ctio_free_data ctio;
                  ctio = (if bytes \<noteq> [] \<and> status = SCSI_STATUS_OK
                          then ctio_allocate_buffer (\<lambda>_. Some bytes) ctio (of_nat (length bytes)) else ctio)
              in (1, ctio))
         | Peer_lost takeover \<Rightarrow>
             if takeover then (0, ctio)
             else (let ctio = ctio_free_data ctio
                   in (-1, ctio_construct_sense ctio SSD_CURRENT_ERROR SSD_KEY_HARDWARE_ERROR 0 INTERNAL_TARGET_FAILURE)))"

definition tdisk_mirror_cmd_generic_nocheck :: "mirror_env \<Rightarrow> qsio_scsiio \<Rightarrow> int \<times> qsio_scsiio" where
  "tdisk_mirror_cmd_generic_nocheck env ctio =
     (if \<not> mirroring_configured env \<or> \<not> mirror_master env then (0, ctio)
      else mirror_cmd_generic (peer_reply env) ctio)"

section \<open>PERSISTENT RESERVE OUT\<close>

abbreviation (input) param_key :: "qsio_scsiio \<Rightarrow> u64" where
  "param_key ctio \<equiv> be_read (the (data_ptr ctio)) 0 8"

abbreviation (input) param_service_action_key :: "qsio_scsiio \<Rightarrow> u64" where
  "param_service_action_key ctio \<equiv> be_read (the (data_ptr ctio)) 8 8"

definition persistent_reservation_remove_registration :: "registration \<Rightarrow> tdisk \<Rightarrow> tdisk" where
  "persistent_reservation_remove_registration registration td =
     (let r = reservation td
      in if \<not> is_reserved r then node_registration_sync_send registration REGISTRATION_OP_DELETE td
         else
           (let td =
              (if in_persistent_ar_type r
               then if registration_list r = [] then on_resv persistent_reservation_reset td else td
               else if is_persistent_reservation_holder r (reg_iid registration)
               then (let td = (if in_persistent_ro_type r
                               then registrants_unit_attention RESERVATIONS_RELEASED (reg_iid registration) td else td)
                     in on_resv persistent_reservation_reset td)
               else td)
            in node_registration_sync_send registration REGISTRATION_OP_DELETE td))"

text \<open>The generation step and reservation message most service actions end with.\<close>

definition bump_and_sync :: "tdisk \<Rightarrow> tdisk" where
  "bump_and_sync td =
     node_reservation_sync_send (on_resv (\<lambda>r. r\<lparr>generation := generation r + 1\<rparr>) td)"

text \<open>What both register actions do to an existing registration of the initiator.\<close>

definition reregister :: "qsio_scsiio \<Rightarrow> registration \<Rightarrow> u64 \<Rightarrow> tdisk \<Rightarrow> tdisk" where
  "reregister ctio tmp service_action_key td =
     (let mine = (\<lambda>x. reg_iid x = ctio_iid ctio);
          td = (if service_action_key = 0
                then persistent_reservation_remove_registration tmp
                       (on_resv (\<lambda>r. r\<lparr>registration_list := remove_first mine (registration_list r)\<rparr>) td)
                else (let td = on_resv (\<lambda>r. persistent_reservation_update_key
                                  (r\<lparr>registration_list :=
                                       update_first mine (\<lambda>x. x\<lparr>rg_key := service_action_key\<rparr>) (registration_list r)\<rparr>)
                                  ctio service_action_key) td
                      in node_registration_sync_send (tmp\<lparr>rg_key := service_action_key\<rparr>) REGISTRATION_OP_MODIFY td))
      in bump_and_sync td)"

definition add_registration :: "qsio_scsiio \<Rightarrow> u64 \<Rightarrow> tdisk \<Rightarrow> tdisk" where
  "add_registration ctio service_action_key td =
     (let registration = \<lparr>rg_key = service_action_key, rg_i_prt = i_prt ctio, rg_t_prt = t_prt ctio,
                          rg_r_prt = r_prt ctio, rg_init_int = init_int ctio,
                          rg_init_name = (if init_int ctio = TARGET_INT_ISCSI then init_name ctio else [])\<rparr>;
          td = on_resv (\<lambda>r. r\<lparr>registration_list := registration # registration_list r, generation := generation r + 1\<rparr>) td
      in node_registration_sync_send registration REGISTRATION_OP_ADD td)"

abbreviation (input) conflict :: "qsio_scsiio \<Rightarrow> qsio_scsiio" where
  "conflict ctio \<equiv> ctio\<lparr>scsi_status := SCSI_STATUS_RESERV_CONFLICT\<rparr>"

definition persistent_reservation_handle_register ::
  "mirror_env \<Rightarrow> tdisk \<Rightarrow> qsio_scsiio \<Rightarrow> qsio_scsiio \<times> tdisk" where
  "persistent_reservation_handle_register env td ctio =
     (let prev_key = param_key ctio;
          service_action_key = param_service_action_key ctio
      in case find (\<lambda>tmp. reg_iid tmp = ctio_iid ctio) (registration_list (reservation td)) of
           Some tmp \<Rightarrow>
             if prev_key \<noteq> rg_key tmp then (conflict ctio, td)
             else (let (retval, ctio) = tdisk_mirror_cmd_generic_nocheck env ctio
                   in if retval < 0 then (ctio, td) else (ctio, reregister ctio tmp service_action_key td))
         | None \<Rightarrow>
             if prev_key = 0 \<and> service_action_key = 0
             then (let (retval, ctio) = tdisk_mirror_cmd_generic_nocheck env ctio
                   in if retval < 0 then (ctio, td) else (ctio, bump_and_sync td))
             else if prev_key \<noteq> 0 then (conflict ctio, td)
             else (let (retval, ctio) = tdisk_mirror_cmd_generic_nocheck env ctio
                   in if retval < 0 then (ctio, td) else (ctio, add_registration ctio service_action_key td)))"

definition persistent_reservation_handle_register_and_ignore ::
  "mirror_env \<Rightarrow> tdisk \<Rightarrow> qsio_scsiio \<Rightarrow> qsio_scsiio \<times> tdisk" where
  "persistent_reservation_handle_register_and_ignore env td ctio =
     (let service_action_key = param_service_action_key ctio;
          (retval, ctio') = tdisk_mirror_cmd_generic_nocheck env ctio
      in case find (\<lambda>tmp. reg_iid tmp = ctio_iid ctio) (registration_list (reservation td)) of
           Some tmp \<Rightarrow>
             if retval < 0 then (ctio', td) else (ctio', reregister ctio' tmp service_action_key td)
         | None \<Rightarrow>
             if service_action_key = 0
             then if retval < 0 then (ctio', td) else (ctio', bump_and_sync td)
             else if retval < 0 then (ctio', td) else (ctio', add_registration ctio' service_action_key td))"

text \<open>The fields a new holder fills in.\<close>

definition take_reservation :: "qsio_scsiio \<Rightarrow> u64 \<Rightarrow> u8 \<Rightarrow> reservation \<Rightarrow> reservation" where
  "take_reservation ctio key type r =
     r\<lparr>rv_type := RESERVATION_TYPE_PERSISTENT, persistent_type := type, persistent_key := key,
       rv_i_prt := i_prt ctio, rv_t_prt := t_prt ctio, rv_r_prt := r_prt ctio, rv_init_int := init_int ctio\<rparr>"

definition persistent_reservation_handle_reserve ::
  "mirror_env \<Rightarrow> tdisk \<Rightarrow> qsio_scsiio \<Rightarrow> qsio_scsiio \<times> tdisk" where
  "persistent_reservation_handle_reserve env td ctio =
     (let r = reservation td;
          key = param_key ctio;
          type = cdb8 ctio 2 AND 0xF
      in if initiator_has_registered key (ctio_iid ctio) (registration_list r) = None then (conflict ctio, td)
         else if is_reserved r \<and> \<not> is_persistent_reservation_holder r (ctio_iid ctio) then (conflict ctio, td)
         else if is_reserved r \<and> (persistent_key r \<noteq> key \<or> persistent_type r \<noteq> type) then (conflict ctio, td)
         else if is_reserved r then (ctio, td)
         else (let (retval, ctio) = tdisk_mirror_cmd_generic_nocheck env ctio
               in if retval < 0 then (ctio, td)
                  else (ctio, node_reservation_sync_send
                         (on_resv (\<lambda>r. take_reservation ctio key type (r\<lparr>is_reserved := True\<rparr>)) td))))"

definition persistent_reservation_handle_release ::
  "mirror_env \<Rightarrow> tdisk \<Rightarrow> qsio_scsiio \<Rightarrow> qsio_scsiio \<times> tdisk" where
  "persistent_reservation_handle_release env td ctio =
     (let r = reservation td;
          key = param_key ctio;
          type = cdb8 ctio 2 AND 0xF;
          scope = drop_bit 4 (cdb8 ctio 2)
      in if \<not> is_reserved r then (ctio, td)
         else if initiator_has_registered key (ctio_iid ctio) (registration_list r) = None then (conflict ctio, td)
         else if \<not> in_persistent_ar_type r \<and> resv_iid r \<noteq> ctio_iid ctio then (ctio, td)
         else if \<not> in_persistent_ar_type r \<and> persistent_key r \<noteq> key then (conflict ctio, td)
         else if scope \<noteq> 0 \<or> persistent_type r \<noteq> type
         then (ctio_construct_sense ctio SSD_CURRENT_ERROR SSD_KEY_ILLEGAL_REQUEST 0
                 INVALID_RELEASE_OF_PERSISTENT_RESERVATION, td)
         else (let (retval, ctio) = tdisk_mirror_cmd_generic_nocheck env ctio
               in if retval < 0 then (ctio, td)
                  else (let td = (if multiple_registrants_reservation_type r
                                  then registrants_unit_attention RESERVATIONS_RELEASED (ctio_iid ctio) td else td);
                            td = on_resv persistent_reservation_reset td
                        in (ctio, node_reservation_sync_send td))))"

definition persistent_reservation_handle_clear ::
  "mirror_env \<Rightarrow> tdisk \<Rightarrow> qsio_scsiio \<Rightarrow> qsio_scsiio \<times> tdisk" where
  "persistent_reservation_handle_clear env td ctio =
     (let key = param_key ctio
      in if initiator_has_registered key (ctio_iid ctio) (registration_list (reservation td)) = None
         then (conflict ctio, td)
         else (let (retval, ctio) = tdisk_mirror_cmd_generic_nocheck env ctio
               in if retval < 0 then (ctio, td)
                  else (let td = registrants_unit_attention RESERVATIONS_PREEMPTED (ctio_iid ctio) td;
                            td = on_resv (\<lambda>r. (persistent_reservation_reset (r\<lparr>registration_list := []\<rparr>))
                                               \<lparr>generation := generation r + 1\<rparr>) td
                        in (ctio, node_registration_clear_sync_send td))))"

definition persistent_reservation_abort_tasks :: "registration \<Rightarrow> tdisk \<Rightarrow> tdisk" where
  "persistent_reservation_abort_tasks tmp td =
     (let who = reg_iid tmp;
          (found, l) = device_get_initiator_state [] 0 (td_ticks td) (istate_list td) who (rg_r_prt tmp) False False;
          q = td_devq td;
          q = (if found then q\<lparr>dq_ccbs := istate_abort_tasks_other_initiators (dq_ccbs q) (hd l) who\<rparr> else q)
      in td\<lparr>istate_list := l, td_devq := gdevq_abort_tasks_other_initiators who q\<rparr>)"

text \<open>
  What the loop of \<open>persistent_reservation_handle_preempt\<close> does for one registration it has
  unlinked. The list is only read by the loop itself, so the unlinking is done first for all.
\<close>

definition preempt_one :: "bool \<Rightarrow> registration \<Rightarrow> tdisk \<Rightarrow> tdisk" where
  "preempt_one abort tmp td =
     (let td = (if abort then persistent_reservation_abort_tasks tmp td else td);
          td = registrant_unit_attention tmp REGISTRATIONS_PREEMPTED td
      in node_registration_sync_send tmp REGISTRATION_OP_DELETE td)"

text \<open>Whether the loop removes a registration.\<close>

definition preempt_victim :: "iid \<Rightarrow> bool \<Rightarrow> u64 \<Rightarrow> registration \<Rightarrow> bool" where
  "preempt_victim who is_ar service_action_key tmp \<longleftrightarrow>
     reg_iid tmp \<noteq> who \<and> \<not> (rg_key tmp \<noteq> service_action_key \<and> (\<not> is_ar \<or> service_action_key \<noteq> 0))"

text \<open>The loop and what follows it.\<close>

definition preempt_registrations :: "qsio_scsiio \<Rightarrow> u64 \<Rightarrow> u64 \<Rightarrow> u8 \<Rightarrow> bool \<Rightarrow> tdisk \<Rightarrow> tdisk" where
  "preempt_registrations ctio key service_action_key type abort td =
     (let r = reservation td;
          is_ar = in_persistent_ar_type r;
          victim = preempt_victim (ctio_iid ctio) is_ar service_action_key;
          victims = filter victim (registration_list r);
          td = on_resv (\<lambda>r. r\<lparr>registration_list := filter (\<lambda>tmp. \<not> victim tmp) (registration_list r)\<rparr>) td;
          td = fold (preempt_one abort) victims td;
          td = (if victims \<noteq> [] then node_istate_sense_state_send td else td);
          td = (if (is_reserved r \<and> \<not> is_ar \<and> persistent_key r = service_action_key) \<or>
                   (is_ar \<and> service_action_key = 0)
                then on_resv (take_reservation ctio key type) td else td)
      in bump_and_sync td)"

definition persistent_reservation_handle_preempt ::
  "mirror_env \<Rightarrow> tdisk \<Rightarrow> qsio_scsiio \<Rightarrow> bool \<Rightarrow> qsio_scsiio \<times> tdisk" where
  "persistent_reservation_handle_preempt env td ctio abort =
     (let r = reservation td;
          key = param_key ctio;
          service_action_key = param_service_action_key ctio;
          type = cdb8 ctio 2 AND 0xF
      in if initiator_has_registered key (ctio_iid ctio) (registration_list r) = None then (conflict ctio, td)
         else if \<not> in_persistent_ar_type r \<and> is_reserved r \<and> service_action_key = 0
         then (ctio_construct_sense ctio SSD_CURRENT_ERROR SSD_KEY_ILLEGAL_REQUEST 0 INVALID_FIELD_IN_PARAMETER_LIST, td)
         else (let (retval, ctio) = tdisk_mirror_cmd_generic_nocheck env ctio
               in if retval < 0 then (ctio, td)
                  else (ctio, preempt_registrations ctio key service_action_key type abort td)))"

text \<open>\<open>tdisk_cmd_persistent_reserve_out\<close>, after the check that the command may be handled on this node.\<close>

definition tdisk_cmd_persistent_reserve_out ::
  "mirror_env \<Rightarrow> tdisk \<Rightarrow> qsio_scsiio \<Rightarrow> qsio_scsiio \<times> tdisk" where
  "tdisk_cmd_persistent_reserve_out env td ctio =
     (let scope = drop_bit 4 (cdb8 ctio 2) AND 0xF;
          service_action = cdb8 ctio 1 AND 0x1F;
          parameter_list_length = cdb32 ctio 5;
          reject = (\<lambda>a. (ctio_construct_sense (ctio_free_data ctio) SSD_CURRENT_ERROR SSD_KEY_ILLEGAL_REQUEST 0 a, td))
      in if scope \<noteq> 0 then reject INVALID_FIELD_IN_CDB
         else if parameter_list_length \<noteq> 24 then reject PARAMETER_LIST_LENGTH_ERROR
         else
           (let (ctio, td) =
              (if service_action = 0 then persistent_reservation_handle_register env td ctio
               else if service_action = 6 then persistent_reservation_handle_register_and_ignore env td ctio
               else if service_action = 1 then persistent_reservation_handle_reserve env td ctio
               else if service_action = 2 then persistent_reservation_handle_release env td ctio
               else if service_action = 3 then persistent_reservation_handle_clear env td ctio
               else if service_action = 4 then persistent_reservation_handle_preempt env td ctio False
               else if service_action = 5 then persistent_reservation_handle_preempt env td ctio True
               else (ctio_construct_sense ctio SSD_CURRENT_ERROR SSD_KEY_ILLEGAL_REQUEST 0 INVALID_FIELD_IN_CDB, td))
            in (ctio_free_data ctio, td)))"

end
