(* ===== verification/ReserveIn.thy ===== *)
theory ReserveIn
  imports PersistentReserve
begin

text \<open>
  PERSISTENT RESERVE IN: the four responses and their buffers (\<^verbatim>\<open>core/reservation.c\<close>,
  \<^verbatim>\<open>core/tdisk.c\<close>). The response buffer is the byte list \<open>alloc\<close> returns for the padded length;
  \<open>None\<close> as the result of a handler means a write past the end of that buffer.
\<close>

unbundle bit_operations_syntax

section \<open>Buffers\<close>

definition put :: "u8 list \<Rightarrow> nat \<Rightarrow> u8 list \<Rightarrow> u8 list option" where
  "put buffer off bytes =
     (if off + length bytes \<le> length buffer
      then Some (take off buffer @ bytes @ drop (off + length bytes) buffer) else None)"

definition le_bytes :: "nat \<Rightarrow> u64 \<Rightarrow> u8 list" where
  "le_bytes n v = rev (be_bytes n v)"

text \<open>A handler's outcome: an allocation failure, an overrun, or the command with its response.\<close>

datatype in_result = In_nomem | In_overrun | In_ok qsio_scsiio

definition respond :: "qsio_scsiio \<Rightarrow> u8 list option \<Rightarrow> u32 \<Rightarrow> in_result" where
  "respond ctio buffer len =
     (case buffer of None \<Rightarrow> In_overrun | Some b \<Rightarrow> In_ok (ctio\<lparr>data_ptr := Some b, dxfer_len := len\<rparr>))"

definition persistent_reservation_read_capabilities ::
  "(nat \<Rightarrow> u8 list option) \<Rightarrow> qsio_scsiio \<Rightarrow> u16 \<Rightarrow> in_result" where
  "persistent_reservation_read_capabilities alloc ctio allocation_length =
     (let cap = be_bytes 2 8 @ [0, 0x80, 0x2 OR 0x8 OR 0x20 OR 0x40 OR 0x80, 0x1, 0, 0];
          min_len = min allocation_length 8;
          ctio = ctio_allocate_buffer alloc ctio (ucast min_len)
      in case data_ptr ctio of
           None \<Rightarrow> In_nomem
         | Some buffer \<Rightarrow> respond ctio (put buffer 0 (take (unat min_len) cap)) (dxfer_len ctio))"

definition persistent_reservation_read_reservations ::
  "(nat \<Rightarrow> u8 list option) \<Rightarrow> qsio_scsiio \<Rightarrow> u16 \<Rightarrow> reservation \<Rightarrow> in_result" where
  "persistent_reservation_read_reservations alloc ctio allocation_length r =
     (let ctio = ctio_allocate_buffer alloc ctio (ucast allocation_length)
      in case data_ptr ctio of
           None \<Rightarrow> In_nomem
         | Some buffer \<Rightarrow>
             (let pin_data = be_bytes 8 (if in_persistent_ar_type r then 0 else persistent_key r) @
                             [0, 0, 0, 0, 0, persistent_type r, 0, 0];
                  b = put buffer 0 (be_bytes 4 (ucast (generation r)));
                  b = (if is_reserved r \<and> unat allocation_length \<ge> 8 + 8
                       then Option.bind b (\<lambda>b. put b 8 pin_data) else b);
                  done = (if is_reserved r then 8 + 16 else 8 :: u16);
                  b = Option.bind b (\<lambda>b. put b 4 (be_bytes 4 (ucast (done - 8))))
              in respond ctio b (if done < allocation_length then ucast done else dxfer_len ctio)))"

fun read_keys_loop :: "registration list \<Rightarrow> u16 \<Rightarrow> u16 \<Rightarrow> u8 list option \<Rightarrow> u16 \<times> u8 list option" where
  "read_keys_loop [] allocation_length done b = (done, b)"
| "read_keys_loop (reg # regs) allocation_length done b =
     (if unat done + 8 > unat allocation_length
      then read_keys_loop regs allocation_length (done + 8) b
      else read_keys_loop regs allocation_length (done + 8)
             (Option.bind b (\<lambda>b. put b (unat done) (be_bytes 8 (rg_key reg)))))"

definition persistent_reservation_read_keys ::
  "(nat \<Rightarrow> u8 list option) \<Rightarrow> qsio_scsiio \<Rightarrow> u16 \<Rightarrow> reservation \<Rightarrow> in_result" where
  "persistent_reservation_read_keys alloc ctio allocation_length r =
     (let ctio = ctio_allocate_buffer alloc ctio (ucast allocation_length)
      in case data_ptr ctio of
           None \<Rightarrow> In_nomem
         | Some buffer \<Rightarrow>
             (let (done, b) = read_keys_loop (registration_list r) allocation_length 8
                                (put buffer 0 (be_bytes 4 (ucast (generation r))));
                  b = Option.bind b (\<lambda>b. put b 4 (be_bytes 4 (ucast (done - 8))))
              in respond ctio b (if done < allocation_length then ucast done else dxfer_len ctio)))"

section \<open>Full status\<close>

definition transport_size :: "registration \<Rightarrow> u16" where
  "transport_size reg =
     (if rg_init_int reg = TARGET_INT_ISCSI then 4 + of_nat (length (rg_init_name reg))
      else if rg_init_int reg = TARGET_INT_FC then 24
      else if rg_init_int reg = TARGET_INT_LOCAL then 24
      else 0)"

text \<open>The fixed part of a descriptor; \<open>addl_len\<close> is four bytes wide and filled with a 16-bit value.\<close>

definition pfull_data :: "reservation \<Rightarrow> registration \<Rightarrow> u8 list" where
  "pfull_data r reg =
     (let holder = is_reserved r \<and> is_persistent_reservation_holder r (reg_iid reg)
      in be_bytes 8 (rg_key reg) @ [0, 0, 0, 0] @
         [if holder then 1 else 0, if holder then persistent_type r else 0] @ [0, 0, 0, 0] @
         be_bytes 2 (ucast (rv_r_prt r)) @ be_bytes 2 (ucast (transport_size reg)) @ [0, 0])"

text \<open>The transport id; the string copy of an iSCSI name also writes the terminating zero.\<close>

definition transport_id :: "registration \<Rightarrow> u8 list" where
  "transport_id reg =
     (if rg_init_int reg = TARGET_INT_ISCSI
      then [5, 0] @ be_bytes 2 (ucast (transport_size reg - 4)) @ rg_init_name reg @ [0]
      else if rg_init_int reg = TARGET_INT_FC
      then [if snd (rg_i_prt reg) \<noteq> 0 then 4 else 0, 0, 0, 0, 0, 0, 0, 0] @ le_bytes 8 (fst (rg_i_prt reg)) @
           (if snd (rg_i_prt reg) \<noteq> 0 then le_bytes 8 (snd (rg_i_prt reg)) else replicate 8 0)
      else if rg_init_int reg = TARGET_INT_LOCAL
      then [1, 0] @ be_bytes 2 7 @ replicate 20 0
      else [])"

fun read_full_loop :: "reservation \<Rightarrow> registration list \<Rightarrow> u16 \<Rightarrow> u16 \<Rightarrow> u8 list option \<Rightarrow> u16 \<times> u8 list option" where
  "read_full_loop r [] allocation_length done b = (done, b)"
| "read_full_loop r (reg # regs) allocation_length done b =
     (let desc_size = 24 + transport_size reg
      in if unat done + unat desc_size > unat allocation_length
         then read_full_loop r regs allocation_length (done + desc_size) b
         else (let b = Option.bind b (\<lambda>b. put b (unat done) (pfull_data r reg));
                   b = Option.bind b (\<lambda>b. put b (unat done + 24) (transport_id reg))
               in read_full_loop r regs allocation_length (done + desc_size) b))"

definition persistent_reservation_read_full ::
  "(nat \<Rightarrow> u8 list option) \<Rightarrow> qsio_scsiio \<Rightarrow> u16 \<Rightarrow> reservation \<Rightarrow> in_result" where
  "persistent_reservation_read_full alloc ctio allocation_length r =
     (let ctio = ctio_allocate_buffer alloc ctio (ucast allocation_length)
      in case data_ptr ctio of
           None \<Rightarrow> In_nomem
         | Some buffer \<Rightarrow>
             (let (done, b) = read_full_loop r (registration_list r) allocation_length 8
                                (put buffer 0 (be_bytes 4 (ucast (generation r))));
                  b = Option.bind b (\<lambda>b. put b 4 (be_bytes 4 (ucast (done - 8))))
              in respond ctio b (if done < allocation_length then ucast done else dxfer_len ctio)))"

definition tdisk_cmd_persistent_reserve_in ::
  "(nat \<Rightarrow> u8 list option) \<Rightarrow> reservation \<Rightarrow> qsio_scsiio \<Rightarrow> in_result" where
  "tdisk_cmd_persistent_reserve_in alloc r ctio =
     (let service_action = cdb8 ctio 1 AND 0x1F;
          allocation_length = cdb16 ctio 7;
          reject = In_ok (ctio_construct_sense ctio SSD_CURRENT_ERROR SSD_KEY_ILLEGAL_REQUEST 0 INVALID_FIELD_IN_CDB)
      in if allocation_length < 8 then reject
         else if service_action = 0 then persistent_reservation_read_keys alloc ctio allocation_length r
         else if service_action = 1 then persistent_reservation_read_reservations alloc ctio allocation_length r
         else if service_action = 2 then persistent_reservation_read_capabilities alloc ctio allocation_length
         else if service_action = 3 then persistent_reservation_read_full alloc ctio allocation_length r
         else reject)"

end
