(* ===== verification/DiskInfo.thy ===== *)
theory DiskInfo
  imports ReserveIn
begin

text \<open>
  What a disk tells about itself (\<^verbatim>\<open>core/tdisk.c\<close>, \<^verbatim>\<open>core/copymgr.c\<close>, \<^verbatim>\<open>core/vdevdefs.c\<close>): INQUIRY with its
  vital product data pages, MODE SENSE, READ CAPACITY and TEST UNIT READY. Responses are built in
  the buffer \<open>alloc\<close> returns; \<open>In_overrun\<close> is an access outside that buffer. Structures appear as
  the bytes they have in memory.
\<close>

unbundle bit_operations_syntax

section \<open>The disk\<close>

abbreviation (input) SSD_KEY_NOT_READY :: u8 where "SSD_KEY_NOT_READY \<equiv> 2"
abbreviation (input) LOGICAL_UNIT_IS_IN_PROCESS_OF_BECOMING_READY :: asc where
  "LOGICAL_UNIT_IS_IN_PROCESS_OF_BECOMING_READY \<equiv> (0x04, 0x01)"

text \<open>The bytes of the strings \<open>QUADSTOR\<close>, \<open>VDISK\<close> and \<open>2.0\<close>, padded with blanks where the code pads.\<close>

definition VENDOR_ID_QUADSTOR :: "u8 list" where
  "VENDOR_ID_QUADSTOR = [0x51, 0x55, 0x41, 0x44, 0x53, 0x54, 0x4F, 0x52]"

definition PRODUCT_ID_QUADSTOR_SAN :: "u8 list" where
  "PRODUCT_ID_QUADSTOR_SAN = [0x56, 0x44, 0x49, 0x53, 0x4B] @ replicate 11 0x20"

record logical_unit_identifier =
  code_set :: u8
  identifier_type :: u8
  identifier_length :: u8
  vendor_id :: "u8 list"
  product_id :: "u8 list"
  serial_number :: "u8 list"

record logical_unit_naa_identifier =
  naa_code_set :: u8
  naa_identifier_type :: u8
  naa_identifier_length :: u8
  naa_id :: "u8 list"

record disk =
  lba_shift :: nat
  end_lba :: u64
  threshold :: u8
  unit_identifier :: logical_unit_identifier
  naa_identifier :: logical_unit_naa_identifier

definition unit_identifier_bytes :: "logical_unit_identifier \<Rightarrow> u8 list" where
  "unit_identifier_bytes u =
     [code_set u, identifier_type u, 0, identifier_length u] @ vendor_id u @ product_id u @ serial_number u"

definition naa_identifier_bytes :: "logical_unit_naa_identifier \<Rightarrow> u8 list" where
  "naa_identifier_bytes u =
     [naa_code_set u, naa_identifier_type u, 0, naa_identifier_length u] @ naa_id u"

definition char_to_int :: "u8 \<Rightarrow> u8" where
  "char_to_int tmp = (if 0x30 \<le> tmp \<and> tmp \<le> 0x39 then tmp - 0x30 else (tmp - 0x61) + 10)"

definition convert_serialnumber_to_hash :: "u8 list \<Rightarrow> u8 list" where
  "convert_serialnumber_to_hash sn =
     map (\<lambda>j. push_bit 4 (char_to_int (sn ! (2 * j))) OR char_to_int (sn ! (2 * j + 1))) [0..<16]"

definition device_init_unit_identifier :: "logical_unit_identifier \<Rightarrow> nat \<Rightarrow> logical_unit_identifier" where
  "device_init_unit_identifier u serial_len =
     u\<lparr>code_set := 2, identifier_type := 1, vendor_id := VENDOR_ID_QUADSTOR,
       product_id := PRODUCT_ID_QUADSTOR_SAN, identifier_length := 24 + of_nat serial_len\<rparr>"

definition device_init_naa_identifier :: "logical_unit_naa_identifier \<Rightarrow> u8 list \<Rightarrow> logical_unit_naa_identifier" where
  "device_init_naa_identifier u hash =
     u\<lparr>naa_code_set := 1, naa_identifier_type := 3, naa_identifier_length := 16, naa_id := (take 16 hash)[0 := 0x6E]\<rparr>"

text \<open>
  \<open>tdisk_initialize\<close> with the serial number as a string without its terminating zero. The field has
  40 bytes, of which \<open>strcpy\<close> overwrites the beginning, and 32 characters are converted. \<open>None\<close> is an
  access outside the field or the string.
\<close>

definition tdisk_initialize :: "disk \<Rightarrow> u8 list \<Rightarrow> disk option" where
  "tdisk_initialize d sn =
     (if length sn + 1 > 40 \<or> length sn + 1 < 32 then None
      else
        (let u = unit_identifier d;
             u = u\<lparr>serial_number := sn @ 0 # drop (length sn + 1) (serial_number u)\<rparr>;
             hash = convert_serialnumber_to_hash (sn @ [0])
         in Some (d\<lparr>unit_identifier := device_init_unit_identifier u (length sn),
                    naa_identifier := device_init_naa_identifier (naa_identifier d) hash\<rparr>)))"

section \<open>INQUIRY\<close>

definition tdisk_init_inquiry_data :: "u8 list" where
  "tdisk_init_inquiry_data =
     [0, 0, 6, 0x02 OR 0x10, 36 - 5, 8, 0, 2] @ VENDOR_ID_QUADSTOR @ PRODUCT_ID_QUADSTOR_SAN @
     [0x32, 0x2E, 0x30, 0] @ replicate 20 0 @ [0, 0] @ be_bytes 2 0x04C0 @ be_bytes 2 0x0460 @ replicate 12 0 @ replicate 22 0"

text \<open>A page builder writes into the zeroed buffer and returns the length of the response.\<close>

definition tdisk_serial_number :: "disk \<Rightarrow> u8 list \<Rightarrow> nat \<Rightarrow> u8 list option \<times> nat" where
  "tdisk_serial_number d buffer allocation_length =
     (put buffer 0 ([0, 0x80, 0, 32] @ take 32 (serial_number (unit_identifier d))),
      min allocation_length (4 + 32))"

definition tdisk_device_identification :: "disk \<Rightarrow> u8 list \<Rightarrow> nat \<Rightarrow> u8 list option \<times> nat" where
  "tdisk_device_identification d buffer allocation_length =
     (let t10_idlength = unat (identifier_length (unit_identifier d)) + 4;
          naa_idlength = unat (naa_identifier_length (naa_identifier d)) + 4;
          idlength = t10_idlength + naa_idlength;
          b = put buffer 0 [0, 0x83, 0, of_nat idlength];
          b = Option.bind b (\<lambda>b. put b 4 (take t10_idlength (unit_identifier_bytes (unit_identifier d))));
          b = Option.bind b (\<lambda>b. put b (4 + t10_idlength) (take naa_idlength (naa_identifier_bytes (naa_identifier d))))
      in (b, min allocation_length (idlength + 4)))"

definition tdisk_copy_extended_inquiry_vpd_page :: "u8 list \<Rightarrow> nat \<Rightarrow> u8 list option \<times> nat" where
  "tdisk_copy_extended_inquiry_vpd_page buffer allocation_length =
     (let page = [0, 0x86, 0, 0x3C, 0, 0x01 OR 0x02 OR 0x04, 0] @ replicate 57 0;
          min_len = min allocation_length 64
      in (put buffer 0 (take min_len page), min_len))"

definition tdisk_init_logical_block_provisioning_page :: "disk \<Rightarrow> u8 list" where
  "tdisk_init_logical_block_provisioning_page d =
     [0, 0xB2] @ be_bytes 2 4 @ [if lba_shift d = LBA_SHIFT then 8 else 11, 0x01 OR 0x02 OR 0x40 OR 0x80, 0, 0]"

definition tdisk_copy_logical_block_provisioning_vpd_page :: "disk \<Rightarrow> u8 list \<Rightarrow> nat \<Rightarrow> u8 list option \<times> nat" where
  "tdisk_copy_logical_block_provisioning_vpd_page d buffer allocation_length =
     (let min_len = min allocation_length 8
      in (put buffer 0 (take min_len (tdisk_init_logical_block_provisioning_page d)), min_len))"

text \<open>The page length is a 16-bit field stored without conversion to big-endian.\<close>

definition tdisk_copy_block_device_characteristics_vpd_page :: "u8 list \<Rightarrow> nat \<Rightarrow> u8 list option \<times> nat" where
  "tdisk_copy_block_device_characteristics_vpd_page buffer allocation_length =
     (let page = [0, 0xB1] @ le_bytes 2 0x3C @ be_bytes 2 0x3A98 @ [0, 3] @ replicate 56 0;
          min_len = min allocation_length 64
      in (put buffer 0 (take min_len page), min_len))"

definition tdisk_init_block_limits_page :: "disk \<Rightarrow> u8 list" where
  "tdisk_init_block_limits_page d =
     (let std = (lba_shift d = LBA_SHIFT)
      in [0, 0xB0] @ be_bytes 2 0x3C @ [0, 128, 0, 0] @ be_bytes 4 (if std then 256 else 2048) @
         be_bytes 4 (if std then 32 else 256) @ replicate 4 0 @ be_bytes 4 (if std then 512 else 4096) @
         be_bytes 4 16 @ be_bytes 4 (if std then 0 else 8) @ replicate 4 0 @ replicate 28 0)"

definition tdisk_copy_block_limits_vpd_page :: "disk \<Rightarrow> u8 list \<Rightarrow> nat \<Rightarrow> u8 list option \<times> nat" where
  "tdisk_copy_block_limits_vpd_page d buffer allocation_length =
     (let min_len = min allocation_length 64
      in (put buffer 0 (take min_len (tdisk_init_block_limits_page d)), min_len))"

definition tdisk_copy_vital_product_page_info :: "u8 list \<Rightarrow> nat \<Rightarrow> u8 list option \<times> nat" where
  "tdisk_copy_vital_product_page_info buffer allocation_length =
     (put buffer 0 ([0, 0, 0, 8] @ [0x00, 0x80, 0x83, 0x86, 0x8F, 0xB0, 0xB1, 0xB2]), min allocation_length (8 + 4))"

subsection \<open>Third party copy\<close>

definition rod_token_limits_descriptor :: "disk \<Rightarrow> u8 list" where
  "rod_token_limits_descriptor d =
     [0, 0] @ be_bytes 2 0x20 @ replicate 6 0 @ be_bytes 2 1 @ be_bytes 4 60 @ be_bytes 4 35 @
     be_bytes 8 (drop_bit (lba_shift d) 0x400000) @ replicate 8 0"

definition supported_third_party_commands_descriptor :: "u8 list" where
  "supported_third_party_commands_descriptor =
     be_bytes 2 1 @ be_bytes 2 12 @ [EXTENDED_COPY, 3, 0, 0x10, 0x11, RECEIVE_COPY_RESULTS, 2, 0, 7, 0, 0, 0]"

definition rod_token_features_descriptor :: "u8 list" where
  "rod_token_features_descriptor =
     be_bytes 2 0x0106 @ be_bytes 2 (48 + 48 - 4) @ [4] @ replicate 11 0 @ be_bytes 4 300 @ be_bytes 4 600 @ be_bytes 4 60 @
     replicate 18 0 @ be_bytes 2 48 @
     [0, 0] @ be_bytes 2 0x2C @ [0, 0, 0, 0] @ be_bytes 8 0x400000 @ replicate 32 0"

definition supported_rod_types_descriptor :: "u8 list" where
  "supported_rod_types_descriptor =
     be_bytes 2 0x0108 @ be_bytes 2 (8 + 3 * 64 - 4) @ [0, 0, 0, 0] @
     concat (map (\<lambda>rod_type. be_bytes 4 rod_type @ [0x3 OR 0x80, 0, 0, 0] @ replicate 56 0) [0x800000, 0x800001, 0x800002])"

definition generic_copy_operations_descriptor :: "u8 list" where
  "generic_copy_operations_descriptor = be_bytes 2 0x8001 @ be_bytes 2 0x20 @ be_bytes 4 8 @ be_bytes 4 8 @ replicate 22 0"

definition tdisk_copy_third_party_copy_vpd_page :: "disk \<Rightarrow> u8 list \<Rightarrow> nat \<Rightarrow> u8 list option \<times> nat" where
  "tdisk_copy_third_party_copy_vpd_page d buffer allocation_length =
     (let descs = rod_token_limits_descriptor d @ supported_third_party_commands_descriptor @
                  rod_token_features_descriptor @ supported_rod_types_descriptor @ generic_copy_operations_descriptor;
          offset = 4 + length descs
      in (put buffer 0 ([0, 0x8F] @ be_bytes 2 (of_nat (offset - 4)) @ descs), min offset allocation_length))"

subsection \<open>The command\<close>

definition evpd_page :: "disk \<Rightarrow> u8 \<Rightarrow> u8 list \<Rightarrow> nat \<Rightarrow> (u8 list option \<times> nat) option" where
  "evpd_page d page_code b n =
     (if page_code = 0x80 then Some (tdisk_serial_number d b n)
      else if page_code = 0x83 then Some (tdisk_device_identification d b n)
      else if page_code = 0x00 then Some (tdisk_copy_vital_product_page_info b n)
      else if page_code = 0xB0 then Some (tdisk_copy_block_limits_vpd_page d b n)
      else if page_code = 0xB1 then Some (tdisk_copy_block_device_characteristics_vpd_page b n)
      else if page_code = 0xB2 then Some (tdisk_copy_logical_block_provisioning_vpd_page d b n)
      else if page_code = 0x86 then Some (tdisk_copy_extended_inquiry_vpd_page b n)
      else if page_code = 0x8F then Some (tdisk_copy_third_party_copy_vpd_page d b n)
      else None)"

definition tdisk_evpd_inquiry_data ::
  "(nat \<Rightarrow> u8 list option) \<Rightarrow> disk \<Rightarrow> qsio_scsiio \<Rightarrow> u8 \<Rightarrow> u16 \<Rightarrow> in_result" where
  "tdisk_evpd_inquiry_data alloc d ctio page_code allocation_length =
     (let max_allocation_length = max 1024 (unat allocation_length);
          ctio = ctio_allocate_buffer alloc ctio (of_nat max_allocation_length)
      in case data_ptr ctio of
           None \<Rightarrow> In_nomem
         | Some buffer \<Rightarrow>
             (case put buffer 0 (replicate max_allocation_length 0) of
                None \<Rightarrow> In_overrun
              | Some b \<Rightarrow>
                  (case evpd_page d page_code b (unat allocation_length) of
                     None \<Rightarrow> In_ok ((ctio_construct_sense (ctio_free_data (ctio\<lparr>data_ptr := Some b\<rparr>)) SSD_CURRENT_ERROR
                                     SSD_KEY_ILLEGAL_REQUEST 0 INVALID_FIELD_IN_CDB)\<lparr>dxfer_len := 0\<rparr>)
                   | Some (b, retval) \<Rightarrow> respond ctio b (of_nat retval))))"

definition tdisk_standard_inquiry_data :: "(nat \<Rightarrow> u8 list option) \<Rightarrow> qsio_scsiio \<Rightarrow> u16 \<Rightarrow> in_result" where
  "tdisk_standard_inquiry_data alloc ctio allocation_length =
     (let min_len = min allocation_length 96;
          ctio = ctio_allocate_buffer alloc ctio (ucast min_len)
      in case data_ptr ctio of
           None \<Rightarrow> In_nomem
         | Some buffer \<Rightarrow>
             respond (ctio\<lparr>scsi_status := SCSI_STATUS_OK\<rparr>) (put buffer 0 (take (unat min_len) tdisk_init_inquiry_data))
               (dxfer_len ctio))"

text \<open>
  \<open>tdisk_cmd_inquiry\<close>. When the allocation fails, \<open>dxfer_len\<close> has been set already and the last step
  writes through the null pointer for an iSCSI command with a nonzero LUN.
\<close>

definition tdisk_cmd_inquiry ::
  "(nat \<Rightarrow> u8 list option) \<Rightarrow> disk \<Rightarrow> u32 \<Rightarrow> qsio_scsiio \<Rightarrow> in_result" where
  "tdisk_cmd_inquiry alloc d target_lun ctio =
     (let evpd = bit (cdb8 ctio 1) 0;
          page_code = cdb8 ctio 2;
          allocation_length = cdb16 ctio 3;
          invalid_lun = (init_int ctio = TARGET_INT_ISCSI \<and> target_lun \<noteq> 0)
      in if \<not> evpd \<and> page_code \<noteq> 0
         then In_ok (ctio_construct_sense ctio SSD_CURRENT_ERROR SSD_KEY_ILLEGAL_REQUEST 0 INVALID_FIELD_IN_CDB)
         else if allocation_length = 0 then In_ok ctio
         else case (if \<not> evpd then tdisk_standard_inquiry_data alloc ctio allocation_length
                    else tdisk_evpd_inquiry_data alloc d ctio page_code allocation_length) of
                In_nomem \<Rightarrow> if invalid_lun then In_overrun else In_nomem
              | In_overrun \<Rightarrow> In_overrun
              | In_ok ctio \<Rightarrow>
                  if dxfer_len ctio \<noteq> 0 \<and> invalid_lun
                  then respond ctio (Option.bind (data_ptr ctio) (\<lambda>b. put b 0 [0x7F])) 1
                  else In_ok ctio)"

section \<open>MODE SENSE\<close>

definition tdisk_init_caching_mode_page :: "u8 list" where
  "tdisk_init_caching_mode_page =
     [0x08, 0x12, 0x10, 0] @ be_bytes 2 0xFFFF @ be_bytes 2 0xFF @ be_bytes 2 0xFFFF @ be_bytes 2 0xFFFF @ replicate 8 0"

definition control_mode_page :: "u8 list" where
  "control_mode_page = [0x0A, 0x0A, 0x20, 0, 0x40, 0] @ replicate 6 0"

definition rw_error_recovery_page :: "u8 list" where
  "rw_error_recovery_page = [0x01, 0x0A, 0, 0, 0, 0, 0, 0x80, 0, 0, 0, 0]"

definition logical_block_provisioning_mode_page :: "disk \<Rightarrow> u8 list" where
  "logical_block_provisioning_mode_page d =
     (let set_size = (if lba_shift d = LBA_SHIFT then 8 else 11);
          count = align_size ((push_bit (lba_shift d) (end_lba d) div 100) * ucast (threshold d)) (push_bit set_size 1);
          set = drop_bit set_size (drop_bit (lba_shift d) count)
      in [0x1C, 2, 0, 0x14, 1] @ replicate 11 0 @ [0x80, 1, 0, 0] @ be_bytes 4 set)"

text \<open>One page of the response: it is cut at the allocation length, its full size is counted.\<close>

definition add_mode_page :: "bool \<Rightarrow> u8 list \<Rightarrow> nat \<Rightarrow> nat \<times> nat \<times> u8 list option \<Rightarrow> nat \<times> nat \<times> u8 list option" where
  "add_mode_page wanted page allocation_length acc =
     (case acc of (avail, offset, b) \<Rightarrow>
        if \<not> wanted then acc
        else (let min_len = min (length page) (allocation_length - offset)
              in if min_len > 0
                 then (avail + length page, offset + min_len, Option.bind b (\<lambda>b. put b offset (take min_len page)))
                 else (avail + length page, offset, b)))"

definition mode_sense_current_values ::
  "disk \<Rightarrow> u8 list option \<Rightarrow> nat \<Rightarrow> u8 \<Rightarrow> nat \<Rightarrow> nat \<times> nat \<times> u8 list option" where
  "mode_sense_current_values d b allocation_length page_code offset =
     (let all = (page_code = 0x3F);
          acc = (0, offset, b);
          acc = add_mode_page (all \<or> page_code = 0x08) tdisk_init_caching_mode_page allocation_length acc;
          acc = add_mode_page (all \<or> page_code = 0x0A) control_mode_page allocation_length acc;
          acc = add_mode_page (threshold d \<noteq> 0 \<and> (all \<or> page_code = 0x1C)) (logical_block_provisioning_mode_page d)
                  allocation_length acc
      in add_mode_page (all \<or> page_code = 0x01) rw_error_recovery_page allocation_length acc)"

definition block_count32 :: "disk \<Rightarrow> u64" where
  "block_count32 d = (if end_lba d > 0xFFFFFFFF then 0xFFFFFFFF else end_lba d - 1)"

text \<open>All eight bytes are written however few of them fit.\<close>

definition mode_sense_block_descriptor :: "disk \<Rightarrow> u8 list option \<Rightarrow> nat \<Rightarrow> nat \<Rightarrow> nat \<times> u8 list option" where
  "mode_sense_block_descriptor d b allocation_length offset =
     (let min_len = min 8 (allocation_length - offset)
      in if min_len > 0
         then (offset + min_len,
               Option.bind b (\<lambda>b. put b offset (be_bytes 4 (block_count32 d) @ be_bytes 4 (push_bit (lba_shift d) 1))))
         else (offset, b))"

text \<open>
  The common body of \<open>tdisk_cmd_mode_sense6\<close> and \<open>tdisk_cmd_mode_sense10\<close>: \<open>hdr\<close> is the size of the
  mode parameter header, \<open>fld\<close> the width of its two length fields.
\<close>

definition mode_sense_body ::
  "(nat \<Rightarrow> u8 list option) \<Rightarrow> disk \<Rightarrow> qsio_scsiio \<Rightarrow> nat \<Rightarrow> nat \<Rightarrow> nat \<Rightarrow> in_result" where
  "mode_sense_body alloc d ctio allocation_length hdr fld =
     (let dbd = bit (cdb8 ctio 1) 3;
          pc = drop_bit 6 (cdb8 ctio 2);
          page_code = cdb8 ctio 2 AND 0x3F;
          ctio = ctio_allocate_buffer alloc ctio (of_nat allocation_length)
      in case data_ptr ctio of
           None \<Rightarrow> In_nomem
         | Some buffer \<Rightarrow>
             (let b = put buffer 0 (replicate allocation_length 0);
                  offset = min allocation_length hdr;
                  (offset, b) = (if \<not> dbd then mode_sense_block_descriptor d b allocation_length offset else (offset, b));
                  b = Option.bind b (\<lambda>b. put b (hdr - fld) (be_bytes fld (if \<not> dbd then 8 else 0)));
                  avail = (if \<not> dbd then hdr + 8 else hdr);
                  (more, offset, b) = (if pc = 1 then (0, offset, b)
                                       else mode_sense_current_values d b allocation_length page_code offset);
                  b = Option.bind b (\<lambda>b. put b 0 (be_bytes fld (of_nat (avail + more - fld))))
              in respond ctio b (of_nat offset)))"

definition tdisk_cmd_mode_sense6 :: "(nat \<Rightarrow> u8 list option) \<Rightarrow> disk \<Rightarrow> qsio_scsiio \<Rightarrow> in_result" where
  "tdisk_cmd_mode_sense6 alloc d ctio =
     (let allocation_length = unat (cdb8 ctio 4)
      in if allocation_length = 0 then In_ok ctio
         else if allocation_length < 4 - 1
         then In_ok (ctio_construct_sense ctio SSD_CURRENT_ERROR SSD_KEY_ILLEGAL_REQUEST 0 INVALID_FIELD_IN_CDB)
         else mode_sense_body alloc d ctio allocation_length 4 1)"

definition tdisk_cmd_mode_sense10 :: "(nat \<Rightarrow> u8 list option) \<Rightarrow> disk \<Rightarrow> qsio_scsiio \<Rightarrow> in_result" where
  "tdisk_cmd_mode_sense10 alloc d ctio =
     (let allocation_length = unat (cdb16 ctio 7)
      in if allocation_length = 0 then In_ok ctio
         else if allocation_length < 8 - 2
         then In_ok (ctio_construct_sense ctio SSD_CURRENT_ERROR SSD_KEY_ILLEGAL_REQUEST 0 INVALID_FIELD_IN_CDB)
         else mode_sense_body alloc d ctio allocation_length 8 2)"

section \<open>Capacity and readiness\<close>

definition tdisk_cmd_service_action_in :: "(nat \<Rightarrow> u8 list option) \<Rightarrow> disk \<Rightarrow> qsio_scsiio \<Rightarrow> in_result" where
  "tdisk_cmd_service_action_in alloc d ctio =
     (let lba = cdb64 ctio 2;
          allocation_length = cdb32 ctio 10;
          pmi = cdb8 ctio 8 AND 1;
          service_action = cdb8 ctio 1 AND 0x1F
      in if allocation_length = 0 then In_ok ctio
         else if lba \<noteq> 0 \<and> pmi = 0 \<or> service_action \<noteq> 0x10
         then In_ok (ctio_construct_sense ctio SSD_CURRENT_ERROR SSD_KEY_ILLEGAL_REQUEST 0 INVALID_FIELD_IN_CDB)
         else (let ctio = ctio_allocate_buffer alloc ctio 32
               in case data_ptr ctio of
                    None \<Rightarrow> In_nomem
                  | Some buffer \<Rightarrow>
                      respond ctio
                        (put buffer 0 (be_bytes 8 (end_lba d - 1) @ be_bytes 4 (push_bit (lba_shift d) 1) @
                                       [0, 0, 0x80 OR 0x40, 0] @ replicate 16 0))
                        allocation_length))"

definition tdisk_cmd_read_capacity :: "(nat \<Rightarrow> u8 list option) \<Rightarrow> disk \<Rightarrow> qsio_scsiio \<Rightarrow> in_result" where
  "tdisk_cmd_read_capacity alloc d ctio =
     (let lba = cdb32 ctio 2;
          pmi = cdb8 ctio 8 AND 1
      in if lba \<noteq> 0 \<and> pmi = 0
         then In_ok (ctio_construct_sense ctio SSD_CURRENT_ERROR SSD_KEY_ILLEGAL_REQUEST 0 INVALID_FIELD_IN_CDB)
         else (let ctio = ctio_allocate_buffer alloc ctio 8
               in case data_ptr ctio of
                    None \<Rightarrow> In_nomem
                  | Some buffer \<Rightarrow>
                      respond ctio (put buffer 0 (be_bytes 4 (block_count32 d) @ be_bytes 4 (push_bit (lba_shift d) 1)))
                        (dxfer_len ctio)))"

definition tdisk_cmd_test_unit_ready :: "bool \<Rightarrow> bool \<Rightarrow> qsio_scsiio \<Rightarrow> in_result" where
  "tdisk_cmd_test_unit_ready kern_inited mirror_ready ctio =
     In_ok (if \<not> kern_inited \<or> \<not> mirror_ready
            then ctio_construct_sense ctio SSD_CURRENT_ERROR SSD_KEY_NOT_READY 0 LOGICAL_UNIT_IS_IN_PROCESS_OF_BECOMING_READY
            else ctio)"

end
