(* ===== verification/LbaLock.thy ===== *)
theory LbaLock
  imports Scsi
begin

text \<open>
  The ranges of a disk that commands are working on (\<open>struct lba_write\<close> of \<^verbatim>\<open>core/tdisk.h\<close>,
  \<open>tdisk_add_lba_write\<close> and \<open>tdisk_remove_lba_write\<close> of \<^verbatim>\<open>core/tdisk.c\<close>). A command puts its range at
  the end of \<open>lba_list\<close>, waits until no earlier entry conflicts with it, and takes it off the list
  when it is done. Ranges are in blocks of 4096 bytes whatever the sector size of the disk.
  The entries of a list are identified by their number, as the code identifies them by address.
\<close>

unbundle bit_operations_syntax

section \<open>Ranges\<close>

datatype qs_io = QS_IO_READ | QS_IO_WRITE

record lba_write =
  lba_start :: u64
  lba_end :: u64
  lw_flags :: u32
  lw_cw :: bool
  sync_wait :: bool
  lw_dir :: qs_io

definition lba_in_range :: "lba_write \<Rightarrow> lba_write \<Rightarrow> bool" where
  "lba_in_range first second =
     (if lba_end first \<le> lba_start second then False
      else if lba_end second \<le> lba_start first then False
      else True)"

text \<open>The entry a command asks for; the page count is an \<open>int\<close> and is sign-extended in the sum.\<close>

definition lba_write_init :: "nat \<Rightarrow> u64 \<Rightarrow> u32 \<Rightarrow> bool \<Rightarrow> qs_io \<Rightarrow> bool \<Rightarrow> lba_write" where
  "lba_write_init lba_shift lba transfer_length c d sw =
     (let lba_diff = lba - (lba AND NOT 7);
          (lba, transfer_length) =
            (if lba_shift \<noteq> LBA_SHIFT
             then (drop_bit 3 (lba - lba_diff), transfer_length + ucast lba_diff)
             else (lba, transfer_length));
          pglist_cnt = transfer_length_to_pglist_cnt lba_shift transfer_length
      in \<lparr>lba_start = lba, lba_end = lba + scast pglist_cnt, lw_flags = 0, lw_cw = c, sync_wait = sw, lw_dir = d\<rparr>)"

section \<open>The list\<close>

type_synonym lba_list = "(nat \<times> lba_write) list"

text \<open>Whether the loop stops at the earlier entry \<open>iter\<close> to wait.\<close>

definition lba_waits_for :: "lba_write \<Rightarrow> lba_write \<Rightarrow> bool" where
  "lba_waits_for lw iter =
     (if sync_wait iter then \<not> sync_wait lw
      else if \<not> lba_in_range lw iter \<and> \<not> sync_wait lw then False
      else if lw_dir lw = QS_IO_READ \<and> lw_dir iter = QS_IO_READ \<and> \<not> sync_wait lw then False
      else True)"

text \<open>One pass over the list: whether the caller has to wait.\<close>

fun lba_scan :: "nat \<Rightarrow> lba_write \<Rightarrow> lba_list \<Rightarrow> bool" where
  "lba_scan n lw [] = False"
| "lba_scan n lw ((m, iter) # rest) =
     (if m = n then False else if lba_waits_for lw iter then True else lba_scan n lw rest)"

text \<open>
  The list with the entries whose call of \<open>tdisk_add_lba_write\<close> has returned. A call first inserts its
  entry, returns in a later step when a pass finds nothing to wait for, and
  \<open>tdisk_remove_lba_write\<close> may follow.
\<close>

record lba_state =
  lba_list :: lba_list
  lba_owners :: "nat set"

definition lba_insert_tail :: "nat \<Rightarrow> lba_write \<Rightarrow> lba_state \<Rightarrow> lba_state" where
  "lba_insert_tail n lw s = s\<lparr>lba_list := lba_list s @ [(n, lw)]\<rparr>"

definition tdisk_add_lba_write :: "nat \<Rightarrow> lba_write \<Rightarrow> lba_state \<Rightarrow> lba_state option" where
  "tdisk_add_lba_write n lw s =
     (if lba_scan n lw (lba_list s) then None else Some (s\<lparr>lba_owners := insert n (lba_owners s)\<rparr>))"

definition tdisk_remove_lba_write :: "nat \<Rightarrow> lba_state \<Rightarrow> lba_state" where
  "tdisk_remove_lba_write n s =
     s\<lparr>lba_list := filter (\<lambda>(m, _). m \<noteq> n) (lba_list s), lba_owners := lba_owners s - {n}\<rparr>"

inductive lba_step :: "lba_state \<Rightarrow> lba_state \<Rightarrow> bool" where
  arrive: "n \<notin> fst ` set (lba_list s) \<Longrightarrow> lba_step s (lba_insert_tail n lw s)"
| grant: "(n, lw) \<in> set (lba_list s) \<Longrightarrow> n \<notin> lba_owners s \<Longrightarrow> tdisk_add_lba_write n lw s = Some s' \<Longrightarrow> lba_step s s'"
| release: "n \<in> lba_owners s \<Longrightarrow> lba_step s (tdisk_remove_lba_write n s)"

definition lba_idle :: lba_state where "lba_idle = \<lparr>lba_list = [], lba_owners = {}\<rparr>"

section \<open>Allocation order\<close>

text \<open>
  \<open>tdisk_add_alloc_lba_write\<close> keeps its list sorted by the first block; \<open>tdisk_check_alloc_lba_write\<close>
  waits for the nearby entries in front of the caller's that have not set the flag.
\<close>

fun tdisk_add_alloc_lba_write :: "nat \<Rightarrow> lba_write \<Rightarrow> lba_list \<Rightarrow> lba_list" where
  "tdisk_add_alloc_lba_write n lw [] = [(n, lw)]"
| "tdisk_add_alloc_lba_write n lw ((m, iter) # rest) =
     (if lba_start iter < lba_start lw then (m, iter) # tdisk_add_alloc_lba_write n lw rest
      else (n, lw) # (m, iter) # rest)"

fun tdisk_check_alloc_lba_write :: "nat \<Rightarrow> lba_write \<Rightarrow> nat \<Rightarrow> lba_list \<Rightarrow> bool" where
  "tdisk_check_alloc_lba_write n lw flag [] = False"
| "tdisk_check_alloc_lba_write n lw flag ((m, iter) # rest) =
     (if m = n then False
      else if lba_start iter + 256 < lba_start lw then tdisk_check_alloc_lba_write n lw flag rest
      else if \<not> bit (lw_flags iter) flag then True
      else tdisk_check_alloc_lba_write n lw flag rest)"

definition tdisk_update_alloc_lba_write :: "nat \<Rightarrow> nat \<Rightarrow> lba_list \<Rightarrow> lba_list" where
  "tdisk_update_alloc_lba_write n flag l =
     map (\<lambda>(m, lw). (m, if m = n then lw\<lparr>lw_flags := set_bit flag (lw_flags lw)\<rparr> else lw)) l"

definition tdisk_remove_alloc_lba_write :: "nat \<Rightarrow> lba_list \<Rightarrow> lba_list" where
  "tdisk_remove_alloc_lba_write n l = filter (\<lambda>(m, _). m \<noteq> n) l"

end
