(* ===== verification/DataCmd.thy ===== *)
theory DataCmd
  imports DiskInfo LbaLock
begin

text \<open>
  The data commands up to the point where the disk's map is touched (\<^verbatim>\<open>core/tdisk.c\<close>): which sectors READ,
  WRITE and COMPARE AND WRITE ask for, the range check, and the zeroing writes that UNMAP and
  WRITE SAME are turned into. Whether page allocation and \<open>__tdisk_cmd_write\<close> succeed for a request are
  the arguments \<open>pages_ok\<close> and \<open>write_ok\<close>.
\<close>

unbundle bit_operations_syntax

abbreviation (input) LOGICAL_BLOCK_ADDRESS_OUT_OF_RANGE :: asc where "LOGICAL_BLOCK_ADDRESS_OUT_OF_RANGE \<equiv> (0x21, 0x00)"

definition reached_eom :: "disk \<Rightarrow> u64 \<Rightarrow> u32 \<Rightarrow> bool" where
  "reached_eom d lba transfer_length =
     (if lba \<ge> end_lba d \<or> lba + ucast transfer_length > end_lba d then True else False)"

section \<open>READ and WRITE\<close>

text \<open>A command is completed at once or goes on with its first sector and its length.\<close>

datatype data_cmd = Data_sent qsio_scsiio | Data_range u64 u32

definition data_range :: "qsio_scsiio \<Rightarrow> u64 \<Rightarrow> u32 \<Rightarrow> data_cmd" where
  "data_range ctio lba transfer_length =
     (if transfer_length = 0 then Data_sent (ctio_free_data ctio) else Data_range lba transfer_length)"

definition tdisk_cmd_read16 :: "qsio_scsiio \<Rightarrow> data_cmd" where
  "tdisk_cmd_read16 ctio = data_range ctio (cdb64 ctio 2) (cdb32 ctio 10)"

definition tdisk_cmd_read12 :: "qsio_scsiio \<Rightarrow> data_cmd" where
  "tdisk_cmd_read12 ctio = data_range ctio (ucast (cdb32 ctio 2)) (cdb32 ctio 6)"

definition tdisk_cmd_read10 :: "qsio_scsiio \<Rightarrow> data_cmd" where
  "tdisk_cmd_read10 ctio = data_range ctio (ucast (cdb32 ctio 2)) (ucast (cdb16 ctio 7))"

definition tdisk_cmd_read6 :: "qsio_scsiio \<Rightarrow> data_cmd" where
  "tdisk_cmd_read6 ctio =
     (let lba = READ_24 (cdb8 ctio 1 AND 0x1F) (cdb8 ctio 2) (cdb8 ctio 3);
          transfer_length = ucast (cdb8 ctio 4)
      in Data_range lba (if transfer_length = 0 then 256 else transfer_length))"

definition tdisk_cmd_compare_and_write :: "qsio_scsiio \<Rightarrow> data_cmd" where
  "tdisk_cmd_compare_and_write ctio = data_range ctio (cdb64 ctio 2) (ucast (cdb8 ctio 13))"

definition tdisk_cmd_write16 :: "qsio_scsiio \<Rightarrow> data_cmd" where
  "tdisk_cmd_write16 ctio = data_range ctio (cdb64 ctio 2) (cdb32 ctio 10)"

definition tdisk_cmd_write12 :: "qsio_scsiio \<Rightarrow> data_cmd" where
  "tdisk_cmd_write12 ctio = data_range ctio (ucast (cdb32 ctio 2)) (cdb32 ctio 6)"

definition tdisk_cmd_write10 :: "qsio_scsiio \<Rightarrow> data_cmd" where
  "tdisk_cmd_write10 ctio = data_range ctio (ucast (cdb32 ctio 2)) (ucast (cdb16 ctio 7))"

definition tdisk_cmd_write6 :: "qsio_scsiio \<Rightarrow> data_cmd" where
  "tdisk_cmd_write6 ctio =
     (let lba = READ_24 (cdb8 ctio 1 AND 0x1F) (cdb8 ctio 2) (cdb8 ctio 3);
          transfer_length = ucast (cdb8 ctio 4)
      in Data_range lba (if transfer_length = 0 then 256 else transfer_length))"

section \<open>UNMAP\<close>

text \<open>A write of a repeated page, all zeroes for UNMAP: first sector, sectors, pages.\<close>

type_synonym zero_write = "u64 \<times> u32 \<times> u32"

text \<open>A disk with small sectors only unmaps the whole 4096-byte blocks of a range.\<close>

definition unmap_range :: "disk \<Rightarrow> u64 \<Rightarrow> u32 \<Rightarrow> zero_write" where
  "unmap_range d lba num_blocks =
     (if lba_shift d \<noteq> LBA_SHIFT
      then (let lba_align = align_size lba 8;
                lba_diff = lba_align - lba;
                num_blocks = (num_blocks - ucast lba_diff) AND NOT 7
            in (lba_align, num_blocks, transfer_length_to_pglist_cnt (lba_shift d) num_blocks))
      else (lba, num_blocks, num_blocks))"

text \<open>
  The loop over the descriptors, with the writes issued so far. The command is completed here, or
  \<open>None\<close>: a write failed and has sent the status itself, which it does before anything is written when
  its range is not on the disk.
\<close>

function unmap_loop ::
  "(u32 \<Rightarrow> bool) \<Rightarrow> (u64 \<Rightarrow> u32 \<Rightarrow> bool) \<Rightarrow> disk \<Rightarrow> qsio_scsiio \<Rightarrow> u8 list \<Rightarrow> nat \<Rightarrow> zero_write list \<Rightarrow>
     qsio_scsiio option \<times> zero_write list" where
  "unmap_loop pages_ok write_ok d ctio buffer block_descriptor_length done =
     (if block_descriptor_length < 16 then (Some ctio, done)
      else
        (let lba = be_read buffer 0 8;
             num_blocks = ucast (be_read buffer 8 4) :: u32;
             rest = drop 16 buffer;
             left = block_descriptor_length - 16;
             reject = (\<lambda>key a. (Some (ctio_construct_sense ctio SSD_CURRENT_ERROR key 0 a), done))
         in if (lba_shift d = LBA_SHIFT \<and> num_blocks > 512) \<or> (lba_shift d \<noteq> LBA_SHIFT \<and> num_blocks > 4096)
            then reject SSD_KEY_ILLEGAL_REQUEST INVALID_FIELD_IN_PARAMETER_LIST
            else if reached_eom d lba num_blocks
            then reject SSD_KEY_ILLEGAL_REQUEST LOGICAL_BLOCK_ADDRESS_OUT_OF_RANGE
            else
              (case unmap_range d lba num_blocks of (lba, num_blocks, pages) \<Rightarrow>
                 if pages = 0 then unmap_loop pages_ok write_ok d ctio rest left done
                 else if \<not> pages_ok pages
                 then reject SSD_KEY_HARDWARE_ERROR INTERNAL_TARGET_FAILURE
                 else if reached_eom d lba num_blocks then (None, done)
                 else if \<not> write_ok lba num_blocks then (None, done @ [(lba, num_blocks, pages)])
                 else unmap_loop pages_ok write_ok d ctio rest left (done @ [(lba, num_blocks, pages)]))))"
  by pat_completeness auto
termination
  by (relation "measure (\<lambda>(pages_ok, write_ok, d, ctio, buffer, block_descriptor_length, done). block_descriptor_length)") auto

declare unmap_loop.simps [simp del]

text \<open>\<open>tdisk_cmd_unmap\<close>; the parameter list is the command's data.\<close>

definition tdisk_cmd_unmap ::
  "(u32 \<Rightarrow> bool) \<Rightarrow> (u64 \<Rightarrow> u32 \<Rightarrow> bool) \<Rightarrow> disk \<Rightarrow> qsio_scsiio \<Rightarrow> qsio_scsiio option \<times> zero_write list" where
  "tdisk_cmd_unmap pages_ok write_ok d ctio =
     (let parameter_list_length = cdb16 ctio 7
      in if parameter_list_length \<le> 4 then (Some (ctio_free_data ctio), [])
         else
           (let buffer = the (data_ptr ctio);
                len = unat (dxfer_len ctio);
                ctio = ctio\<lparr>data_ptr := None, dxfer_len := 0\<rparr>;
                data_length = unat (be_read buffer 0 2);
                block_descriptor_length = unat (be_read buffer 2 2)
            in if block_descriptor_length = 0 then (Some (ctio_free_data ctio), [])
               else if data_length + 2 \<noteq> len \<or> block_descriptor_length + 8 \<noteq> len
               then (Some (ctio_construct_sense (ctio_free_data ctio) SSD_CURRENT_ERROR SSD_KEY_ILLEGAL_REQUEST 0
                             INVALID_FIELD_IN_CDB), [])
               else unmap_loop pages_ok write_ok d ctio (drop 8 buffer) block_descriptor_length []))"

section \<open>WRITE SAME\<close>

text \<open>The complement of \<open>0x7U\<close> is a 32-bit value and clears the upper half of the count as well.\<close>

definition write_same_range :: "disk \<Rightarrow> u64 \<Rightarrow> u64 \<Rightarrow> u64 \<times> u64" where
  "write_same_range d lba num_blocks =
     (if lba_shift d \<noteq> LBA_SHIFT
      then (let lba_align = align_size lba 8;
                lba_diff = lba_align - lba
            in (lba_align, (num_blocks - lba_diff) AND ucast (NOT 7 :: u32)))
      else (lba, num_blocks))"

text \<open>
  The loop: the chunks written, and whether it ended normally, for want of memory or in a failed
  write. It may not end, then it is \<open>None\<close>.
\<close>

datatype same_end = Same_done | Same_nomem | Same_failed

partial_function (option) write_same_loop ::
  "(u32 \<Rightarrow> bool) \<Rightarrow> (u64 \<Rightarrow> u32 \<Rightarrow> bool) \<Rightarrow> disk \<Rightarrow> u64 \<Rightarrow> u64 \<Rightarrow> zero_write list \<Rightarrow> (same_end \<times> zero_write list) option" where
  "write_same_loop pages_ok write_ok d lba num_blocks done =
     (if num_blocks = 0 then Some (Same_done, done)
      else
        (let min_blocks = (if lba_shift d = LBA_SHIFT then 512 else 4096 :: u32);
             todo = min (ucast num_blocks) min_blocks;
             pglist_cnt = transfer_length_to_pglist_cnt (lba_shift d) todo
         in if \<not> pages_ok pglist_cnt then Some (Same_nomem, done)
            else if reached_eom d lba todo then Some (Same_failed, done)
            else if \<not> write_ok lba todo then Some (Same_failed, done @ [(lba, todo, pglist_cnt)])
            else write_same_loop pages_ok write_ok d (lba + ucast todo) (num_blocks - ucast todo) (done @ [(lba, todo, pglist_cnt)])))"

text \<open>How the command ends: it is completed here, or the failed write has done so.\<close>

fun same_completion :: "qsio_scsiio \<Rightarrow> same_end \<times> zero_write list \<Rightarrow> qsio_scsiio option \<times> zero_write list" where
  "same_completion ctio (Same_done, done) = (Some ctio, done)"
| "same_completion ctio (Same_nomem, done) =
     (Some (ctio_construct_sense ctio SSD_CURRENT_ERROR SSD_KEY_HARDWARE_ERROR 0 INTERNAL_TARGET_FAILURE), done)"
| "same_completion ctio (Same_failed, done) = (None, done)"

text \<open>
  \<open>__tdisk_cmd_write_same\<close>: \<open>page\<close> is the data of the command. The result has the command when it is completed
  here.
\<close>

definition tdisk_cmd_write_same_int ::
  "(u32 \<Rightarrow> bool) \<Rightarrow> (u64 \<Rightarrow> u32 \<Rightarrow> bool) \<Rightarrow> disk \<Rightarrow> qsio_scsiio \<Rightarrow> u8 list \<Rightarrow> u64 \<Rightarrow> u64 \<Rightarrow> bool \<Rightarrow> bool \<Rightarrow>
     (qsio_scsiio option \<times> zero_write list) option" where
  "tdisk_cmd_write_same_int pages_ok write_ok d ctio page lba num_blocks pbdata lbdata =
     (let num_blocks = (if num_blocks = 0 then end_lba d - lba else num_blocks);
          internal = (\<lambda>c. ctio_construct_sense c SSD_CURRENT_ERROR SSD_KEY_HARDWARE_ERROR 0 INTERNAL_TARGET_FAILURE)
      in if num_blocks = 0 then Some (Some (ctio_free_data ctio), [])
         else if (pbdata \<or> lbdata) \<and> lba_shift d \<noteq> LBA_SHIFT then Some (Some (internal (ctio_free_data ctio)), [])
         else if lba_shift d \<noteq> LBA_SHIFT \<and> take (2 ^ lba_shift d) page \<noteq> replicate (2 ^ lba_shift d) 0
         then Some (Some (internal (ctio_free_data ctio)), [])
         else
           (let ctio = ctio\<lparr>data_ptr := None, dxfer_len := 0, pglist_cnt := 0\<rparr>
            in case write_same_range d lba num_blocks of (lba, num_blocks) \<Rightarrow>
                 map_option (same_completion ctio) (write_same_loop pages_ok write_ok d lba num_blocks [])))"

definition write_same_cdb ::
  "(u32 \<Rightarrow> bool) \<Rightarrow> (u64 \<Rightarrow> u32 \<Rightarrow> bool) \<Rightarrow> disk \<Rightarrow> qsio_scsiio \<Rightarrow> u8 list \<Rightarrow> u64 \<Rightarrow> u32 \<Rightarrow>
     (qsio_scsiio option \<times> zero_write list) option" where
  "write_same_cdb pages_ok write_ok d ctio page lba num_blocks =
     (let lbdata = bit (cdb8 ctio 1) 1;
          pbdata = bit (cdb8 ctio 1) 2;
          reject = (\<lambda>a. Some (Some (ctio_construct_sense (ctio_free_data ctio) SSD_CURRENT_ERROR SSD_KEY_ILLEGAL_REQUEST 0 a), []))
      in if reached_eom d lba num_blocks then reject LOGICAL_BLOCK_ADDRESS_OUT_OF_RANGE
         else if pbdata \<and> lbdata then reject INVALID_FIELD_IN_CDB
         else tdisk_cmd_write_same_int pages_ok write_ok d ctio page lba (ucast num_blocks) pbdata lbdata)"

definition tdisk_cmd_write_same ::
  "(u32 \<Rightarrow> bool) \<Rightarrow> (u64 \<Rightarrow> u32 \<Rightarrow> bool) \<Rightarrow> disk \<Rightarrow> qsio_scsiio \<Rightarrow> u8 list \<Rightarrow> (qsio_scsiio option \<times> zero_write list) option" where
  "tdisk_cmd_write_same pages_ok write_ok d ctio page =
     write_same_cdb pages_ok write_ok d ctio page (ucast (cdb32 ctio 2)) (ucast (cdb16 ctio 7))"

definition tdisk_cmd_write_same16 ::
  "(u32 \<Rightarrow> bool) \<Rightarrow> (u64 \<Rightarrow> u32 \<Rightarrow> bool) \<Rightarrow> disk \<Rightarrow> qsio_scsiio \<Rightarrow> u8 list \<Rightarrow> (qsio_scsiio option \<times> zero_write list) option" where
  "tdisk_cmd_write_same16 pages_ok write_ok d ctio page =
     write_same_cdb pages_ok write_ok d ctio page (cdb64 ctio 2) (cdb32 ctio 10)"

section \<open>VERIFY and SYNCHRONIZE CACHE\<close>

text \<open>All of them wait until the writes to their range are done: the range they enter into the list.\<close>

definition tdisk_flush_lba_write :: "disk \<Rightarrow> u64 \<Rightarrow> u32 \<Rightarrow> lba_write" where
  "tdisk_flush_lba_write d lba transfer_length = lba_write_init (lba_shift d) lba transfer_length False QS_IO_WRITE False"

definition tdisk_cmd_verify :: "disk \<Rightarrow> qsio_scsiio \<Rightarrow> lba_write" where
  "tdisk_cmd_verify d ctio = tdisk_flush_lba_write d (ucast (cdb32 ctio 2)) (ucast (cdb16 ctio 7))"

definition tdisk_cmd_verify12 :: "disk \<Rightarrow> qsio_scsiio \<Rightarrow> lba_write" where
  "tdisk_cmd_verify12 d ctio = tdisk_flush_lba_write d (ucast (cdb32 ctio 2)) (cdb32 ctio 6)"

definition tdisk_cmd_verify16 :: "disk \<Rightarrow> qsio_scsiio \<Rightarrow> lba_write" where
  "tdisk_cmd_verify16 d ctio = tdisk_flush_lba_write d (cdb64 ctio 2) (cdb32 ctio 10)"

definition tdisk_cmd_sync_cache :: "disk \<Rightarrow> qsio_scsiio \<Rightarrow> lba_write" where
  "tdisk_cmd_sync_cache d ctio = tdisk_flush_lba_write d (ucast (cdb32 ctio 2)) (ucast (cdb16 ctio 7))"

definition tdisk_cmd_sync_cache16 :: "disk \<Rightarrow> qsio_scsiio \<Rightarrow> lba_write" where
  "tdisk_cmd_sync_cache16 d ctio = tdisk_flush_lba_write d (cdb64 ctio 2) (cdb32 ctio 10)"

end
