(* ===== verification/CopyMgr.thy ===== *)
theory CopyMgr
  imports DataCmd
begin

text \<open>
  The copy manager (\<^verbatim>\<open>core/copymgr.c\<close>): POPULATE TOKEN, RECEIVE ROD TOKEN INFORMATION, WRITE USING TOKEN
  and the time-out of tokens. A token stands for blocks of a disk (its ROD) and is known by a number that the
  client gets and presents again. Tokens live in a table of addresses and structures; the disks are a
  function from their numbers.
\<close>

unbundle bit_operations_syntax

abbreviation (input) TOO_MANY_SEGMENT_DESCRIPTORS :: asc where "TOO_MANY_SEGMENT_DESCRIPTORS \<equiv> (0x26, 0x08)"
abbreviation (input) INVALID_TOKEN_OPERATION_TOKEN_UNKNOWN :: asc where "INVALID_TOKEN_OPERATION_TOKEN_UNKNOWN \<equiv> (0x23, 0x04)"
abbreviation (input) UNREACHABLE_COPY_TARGET :: asc where "UNREACHABLE_COPY_TARGET \<equiv> (0x08, 0x04)"
abbreviation (input) MAXIMUM_RANGE_DESCRIPTORS :: nat where "MAXIMUM_RANGE_DESCRIPTORS \<equiv> 1"
abbreviation (input) MAXIMUM_INACTIVITY_TIMEOUT :: u32 where "MAXIMUM_INACTIVITY_TIMEOUT \<equiv> 60"
abbreviation (input) DEFAULT_INACTIVITY_TIMEOUT :: u32 where "DEFAULT_INACTIVITY_TIMEOUT \<equiv> 35"
abbreviation (input) MAXIMUM_BYTES_IN_BLOCK_ROD :: u64 where "MAXIMUM_BYTES_IN_BLOCK_ROD \<equiv> 0x400000"
abbreviation (input) POINT_IN_TIME_COPY_DEFAULT :: u32 where "POINT_IN_TIME_COPY_DEFAULT \<equiv> 0x00800000"
abbreviation (input) POINT_IN_TIME_COPY_CV :: u32 where "POINT_IN_TIME_COPY_CV \<equiv> 0x00800001"
abbreviation (input) POINT_IN_TIME_COPY_PERSISTENT :: u32 where "POINT_IN_TIME_COPY_PERSISTENT \<equiv> 0x00800002"
abbreviation (input) COPY_OPERATION_OK :: u8 where "COPY_OPERATION_OK \<equiv> 0x01"
abbreviation (input) COPY_OPERATION_ERROR :: u8 where "COPY_OPERATION_ERROR \<equiv> 0x02"
abbreviation (input) COPY_OPERATION_INPROGRESS :: u8 where "COPY_OPERATION_INPROGRESS \<equiv> 0x10"

section \<open>Data\<close>

record block_range_descriptor =
  bd_lba :: u64
  bd_num_blocks :: u32

definition range_descriptor :: "u8 list \<Rightarrow> nat \<Rightarrow> block_range_descriptor" where
  "range_descriptor buffer off = \<lparr>bd_lba = be_read buffer off 8, bd_num_blocks = ucast (be_read buffer (off + 8) 4)\<rparr>"

record rod_entry =
  en_lba :: u64
  en_lba_diff :: u64
  en_num_blocks :: u32

datatype rod_cmd = ROD_POPULATE_TOKEN_CMD | ROD_WRITE_TOKEN_CMD

record rod_token_spec =
  rt_identifier :: u64
  rt_src_tdisk :: nat
  rod_entry_list :: "rod_entry list"
  rt_rod_type :: u32
  rt_timestamp :: u32
  rt_timeout :: u32
  rt_list_identifier :: u32
  rt_iid :: iid
  rt_cmd_type :: rod_cmd
  copy_operation_status :: u8
  read_transfer_count :: u64
  write_transfer_count :: u64
  del_token :: bool
  rt_refs :: int

record copy_mgr =
  rod_token_list :: "(nat \<times> rod_token_spec) list"
  rod_identifier :: u64

definition on_token :: "nat \<Rightarrow> (rod_token_spec \<Rightarrow> rod_token_spec) \<Rightarrow> copy_mgr \<Rightarrow> copy_mgr" where
  "on_token a f m = m\<lparr>rod_token_list := map (\<lambda>(b, t). (b, if b = a then f t else t)) (rod_token_list m)\<rparr>"

section \<open>Tokens\<close>

definition rod_token_generate :: "u32 \<Rightarrow> nat \<Rightarrow> qsio_scsiio \<Rightarrow> u32 \<Rightarrow> u32 \<Rightarrow> u32 \<Rightarrow> rod_cmd \<Rightarrow> rod_token_spec" where
  "rod_token_generate now src ctio list_identifier rod_type timeout cmd_type =
     \<lparr>rt_identifier = 0, rt_src_tdisk = src, rod_entry_list = [], rt_rod_type = rod_type, rt_timestamp = now, rt_timeout = timeout,
      rt_list_identifier = list_identifier, rt_iid = ctio_iid ctio, rt_cmd_type = cmd_type,
      copy_operation_status = COPY_OPERATION_INPROGRESS, read_transfer_count = 0, write_transfer_count = 0,
      del_token = False, rt_refs = 1\<rparr>"

text \<open>
  Referencing the blocks of a range (\<open>__tdisk_cmd_ref_int\<close>) up to the lookup of the blocks, whose outcome is \<open>ref_ok\<close>:
  the command with its sense data when it fails.
\<close>

definition tdisk_cmd_ref_int :: "(u64 \<Rightarrow> u32 \<Rightarrow> bool) \<Rightarrow> disk \<Rightarrow> qsio_scsiio \<Rightarrow> u64 \<Rightarrow> u32 \<Rightarrow> qsio_scsiio option" where
  "tdisk_cmd_ref_int ref_ok d ctio lba transfer_length =
     (if reached_eom d lba transfer_length
      then Some (ctio_construct_sense ctio SSD_CURRENT_ERROR SSD_KEY_ILLEGAL_REQUEST 0 LOGICAL_BLOCK_ADDRESS_OUT_OF_RANGE)
      else if \<not> ref_ok lba transfer_length
      then Some (ctio_construct_sense ctio SSD_CURRENT_ERROR SSD_KEY_HARDWARE_ERROR 0 INTERNAL_TARGET_FAILURE)
      else None)"

definition rod_token_add_descriptor ::
  "(u64 \<Rightarrow> u32 \<Rightarrow> bool) \<Rightarrow> disk \<Rightarrow> qsio_scsiio \<Rightarrow> block_range_descriptor \<Rightarrow> rod_token_spec \<Rightarrow> qsio_scsiio + rod_token_spec" where
  "rod_token_add_descriptor ref_ok d ctio descriptor token =
     (let lba = bd_lba descriptor;
          lba_diff = (if lba_shift d \<noteq> LBA_SHIFT then lba - (lba AND NOT 7) else 0);
          num_blocks = bd_num_blocks descriptor
      in case tdisk_cmd_ref_int ref_ok d ctio (lba - lba_diff) (num_blocks + ucast lba_diff) of
           Some c \<Rightarrow> Inl c
         | None \<Rightarrow> Inr (token\<lparr>rod_entry_list := rod_entry_list token @
                             [\<lparr>en_lba = lba, en_lba_diff = lba_diff, en_num_blocks = num_blocks\<rparr>]\<rparr>))"

fun add_descriptors ::
  "(u64 \<Rightarrow> u32 \<Rightarrow> bool) \<Rightarrow> disk \<Rightarrow> qsio_scsiio \<Rightarrow> block_range_descriptor list \<Rightarrow> rod_token_spec \<Rightarrow> qsio_scsiio + rod_token_spec" where
  "add_descriptors ref_ok d ctio [] token = Inr token"
| "add_descriptors ref_ok d ctio (descriptor # descs) token =
     (case rod_token_add_descriptor ref_ok d ctio descriptor token of
        Inl c \<Rightarrow> Inl c | Inr token \<Rightarrow> add_descriptors ref_ok d ctio descs token)"

definition token_get :: "(rod_token_spec \<Rightarrow> bool) \<Rightarrow> u32 \<Rightarrow> copy_mgr \<Rightarrow> (nat \<times> copy_mgr) option" where
  "token_get P now m =
     (case find (\<lambda>(a, t). P t) (rod_token_list m) of
        None \<Rightarrow> None
      | Some (a, t) \<Rightarrow> Some (a, on_token a (\<lambda>t. t\<lparr>rt_timestamp := now, rt_refs := rt_refs t + 1\<rparr>) m))"

definition rod_token_find_for_list_identifier :: "u32 \<Rightarrow> qsio_scsiio \<Rightarrow> u32 \<Rightarrow> copy_mgr \<Rightarrow> (nat \<times> copy_mgr) option" where
  "rod_token_find_for_list_identifier now ctio list_identifier m =
     token_get (\<lambda>t. rt_list_identifier t = list_identifier \<and> rt_iid t = ctio_iid ctio) now m"

definition rod_token_find :: "u32 \<Rightarrow> u64 \<Rightarrow> copy_mgr \<Rightarrow> (nat \<times> copy_mgr) option" where
  "rod_token_find now identifier m = token_get (\<lambda>t. rt_identifier t = identifier) now m"

text \<open>\<open>rod_token_put\<close>: the last user of a token that is to be deleted removes it.\<close>

definition rod_token_put :: "nat \<Rightarrow> copy_mgr \<Rightarrow> copy_mgr" where
  "rod_token_put a m =
     (let m = on_token a (\<lambda>t. t\<lparr>rt_refs := rt_refs t - 1\<rparr>) m
      in case map_of (rod_token_list m) a of
           None \<Rightarrow> m
         | Some t \<Rightarrow>
             if \<not> del_token t \<or> rt_refs t > 1 then m
             else m\<lparr>rod_token_list := filter (\<lambda>(b, t). b \<noteq> a) (rod_token_list m)\<rparr>)"

definition copy_mgr_free_timedout_tokens :: "(u32 \<Rightarrow> nat) \<Rightarrow> u32 \<Rightarrow> copy_mgr \<Rightarrow> copy_mgr" where
  "copy_mgr_free_timedout_tokens ticks_to_msecs now m =
     m\<lparr>rod_token_list := filter (\<lambda>(a, t). ticks_to_msecs (get_elapsed now (rt_timestamp t)) < unat (rt_timeout t * 1000))
                          (rod_token_list m)\<rparr>"

section \<open>Ranges\<close>

definition range_overlap :: "u64 \<Rightarrow> u64 \<Rightarrow> u64 \<Rightarrow> u64 \<Rightarrow> bool" where
  "range_overlap first_lba_start first_lba_end second_lba_start second_lba_end =
     (if first_lba_end \<le> second_lba_start then False
      else if second_lba_end \<le> first_lba_start then False else True)"

text \<open>\<open>descriptor_valid\<close>: the number of blocks, or zero, with the sense data it leaves in the command.\<close>

definition descriptor_valid :: "disk \<Rightarrow> qsio_scsiio \<Rightarrow> block_range_descriptor list \<Rightarrow> nat \<Rightarrow> u32 \<times> qsio_scsiio" where
  "descriptor_valid d ctio descs i =
     (let lba_start = bd_lba (descs ! i);
          num_blocks = bd_num_blocks (descs ! i);
          lba_end = lba_start + ucast num_blocks
      in if reached_eom d lba_start num_blocks
         then (0, ctio_construct_sense (ctio_free_data ctio) SSD_CURRENT_ERROR SSD_KEY_ILLEGAL_REQUEST 0 LOGICAL_BLOCK_ADDRESS_OUT_OF_RANGE)
         else if list_ex (\<lambda>j. j \<noteq> i \<and> range_overlap lba_start lba_end (bd_lba (descs ! j)) (bd_lba (descs ! j) + ucast (bd_num_blocks (descs ! j))))
                   [0..<length descs]
         then (0, ctio_construct_sense (ctio_free_data ctio) SSD_CURRENT_ERROR SSD_KEY_ILLEGAL_REQUEST 0 INVALID_FIELD_IN_PARAMETER_LIST)
         else (num_blocks, ctio))"

fun descriptors_size :: "disk \<Rightarrow> qsio_scsiio \<Rightarrow> block_range_descriptor list \<Rightarrow> nat list \<Rightarrow> u64 \<Rightarrow> qsio_scsiio + u64" where
  "descriptors_size d ctio descs [] transfer_size = Inr transfer_size"
| "descriptors_size d ctio descs (i # is) transfer_size =
     (case descriptor_valid d ctio descs i of (n, c) \<Rightarrow>
        if n = 0 then Inl c else descriptors_size d ctio descs is (transfer_size + scast n))"

section \<open>POPULATE TOKEN\<close>

abbreviation (input) list_error :: "qsio_scsiio \<Rightarrow> asc \<Rightarrow> qsio_scsiio" where
  "list_error ctio a \<equiv> ctio_construct_sense (ctio_free_data ctio) SSD_CURRENT_ERROR SSD_KEY_ILLEGAL_REQUEST 0 a"

text \<open>The range descriptors of a parameter list and their total size, or the command to send.\<close>

definition token_ranges :: "disk \<Rightarrow> qsio_scsiio \<Rightarrow> u8 list \<Rightarrow> nat \<Rightarrow> u16 \<Rightarrow> qsio_scsiio + (block_range_descriptor list \<times> u64)" where
  "token_ranges d ctio buffer off descriptor_length =
     (let num_descriptors = unat descriptor_length div 16
      in if num_descriptors > MAXIMUM_RANGE_DESCRIPTORS then Inl (list_error ctio TOO_MANY_SEGMENT_DESCRIPTORS)
         else
           (let descs = map (\<lambda>i. range_descriptor buffer (off + 16 * i)) [0..<num_descriptors]
            in case descriptors_size d ctio descs [0..<num_descriptors] 0 of
                 Inl c \<Rightarrow> Inl c
               | Inr transfer_size \<Rightarrow>
                   if push_bit (lba_shift d) transfer_size > MAXIMUM_BYTES_IN_BLOCK_ROD
                   then Inl (list_error ctio INVALID_FIELD_IN_PARAMETER_LIST) else Inr (descs, transfer_size)))"

definition populate_params ::
  "disk \<Rightarrow> qsio_scsiio \<Rightarrow> qsio_scsiio + (u32 \<times> u32 \<times> block_range_descriptor list \<times> u64)" where
  "populate_params d ctio =
     (let parameter_list_length = cdb32 ctio 10;
          header = the (data_ptr ctio);
          invalid = Inl (list_error ctio INVALID_FIELD_IN_PARAMETER_LIST);
          rtv = bit (cdb8 ctio 1) 1;
          rod_type = ucast (be_read header 8 4);
          timeout = ucast (be_read header 4 4);
          descriptor_length = ucast (be_read header 14 2) :: u16
      in if parameter_list_length = 0 then Inl (ctio_free_data ctio)
         else if parameter_list_length < 16 then Inl (list_error ctio PARAMETER_LIST_LENGTH_ERROR)
         else if be_read header 0 2 < 0x1E then invalid
         else if rtv \<and> rod_type \<notin> {POINT_IN_TIME_COPY_DEFAULT, POINT_IN_TIME_COPY_CV, POINT_IN_TIME_COPY_PERSISTENT} then invalid
         else if timeout \<noteq> 0 \<and> timeout > MAXIMUM_INACTIVITY_TIMEOUT then invalid
         else if descriptor_length < 16 then invalid
         else case token_ranges d ctio header 16 descriptor_length of
                Inl c \<Rightarrow> Inl c
              | Inr (descs, transfer_size) \<Rightarrow>
                  Inr (if rtv then rod_type else POINT_IN_TIME_COPY_DEFAULT,
                       if timeout \<noteq> 0 then timeout else DEFAULT_INACTIVITY_TIMEOUT, descs, transfer_size))"

text \<open>
  The new token is at the address \<open>a\<close>. A token of the same initiator with the list identifier is released with
  the lock of the table held, which \<open>rod_token_put\<close> takes again: the command never ends.
\<close>

datatype token_result = Token_sent qsio_scsiio copy_mgr | Token_deadlock

definition tdisk_cmd_populate_token ::
  "(u64 \<Rightarrow> u32 \<Rightarrow> bool) \<Rightarrow> (nat \<Rightarrow> disk) \<Rightarrow> u32 \<Rightarrow> nat \<Rightarrow> nat \<Rightarrow> copy_mgr \<Rightarrow> qsio_scsiio \<Rightarrow> token_result" where
  "tdisk_cmd_populate_token ref_ok disks now a src m ctio =
     (let d = disks src;
          list_identifier = cdb32 ctio 6
      in case populate_params d ctio of
           Inl c \<Rightarrow> Token_sent c m
         | Inr (rod_type, timeout, descs, transfer_size) \<Rightarrow>
             (case add_descriptors ref_ok d ctio descs
                     (rod_token_generate now src ctio list_identifier rod_type timeout ROD_POPULATE_TOKEN_CMD) of
                Inl c \<Rightarrow> Token_sent c m
              | Inr token \<Rightarrow>
                  (case rod_token_find_for_list_identifier now ctio list_identifier m of
                     Some (b, m) \<Rightarrow> Token_deadlock
                   | None \<Rightarrow>
                       (let rid = rod_identifier m + 1;
                            token = token\<lparr>copy_operation_status := COPY_OPERATION_OK, rt_identifier := rid,
                                          read_transfer_count := transfer_size\<rparr>
                        in Token_sent (ctio_free_data ctio)
                             (m\<lparr>rod_token_list := rod_token_list m @ [(a, token)], rod_identifier := rid\<rparr>)))))"

section \<open>RECEIVE ROD TOKEN INFORMATION\<close>

definition fill_naa_identifier :: "logical_unit_naa_identifier \<Rightarrow> u8 list" where
  "fill_naa_identifier u = [0xE4, 0, 0, 0] @ naa_identifier_bytes u"

text \<open>The 512 bytes of a token; the association is or-ed into the identifier type as a nine-bit value and lost.\<close>

definition fill_rod_token :: "u32 \<Rightarrow> disk \<Rightarrow> rod_token_spec \<Rightarrow> u8 list" where
  "fill_rod_token now d token =
     be_bytes 4 (ucast (rt_rod_type token)) @ [0, 0] @ be_bytes 2 (512 - 8) @ be_bytes 8 (rt_identifier token) @
     fill_naa_identifier (naa_identifier d) @ replicate 8 0 @ replicate 16 0 @ replicate 32 0 @ replicate 32 0 @
     naa_identifier_bytes ((naa_identifier d)\<lparr>naa_identifier_type := naa_identifier_type (naa_identifier d) OR ucast (push_bit 4 (0x10 :: u32))\<rparr>) @
     replicate 12 0 @ le_bytes 4 (ucast now) @ le_bytes 4 (ucast now) @ replicate 24 0 @ replicate 320 0"

definition tdisk_cmd_receive_rod_token_information ::
  "(nat \<Rightarrow> u8 list option) \<Rightarrow> u32 \<Rightarrow> disk \<Rightarrow> copy_mgr \<Rightarrow> qsio_scsiio \<Rightarrow> in_result \<times> copy_mgr" where
  "tdisk_cmd_receive_rod_token_information alloc now d m ctio =
     (let allocation_length = cdb32 ctio 10
      in if allocation_length = 0 then (In_ok ctio, m)
         else
           (case rod_token_find_for_list_identifier now ctio (cdb32 ctio 2) m of
              None \<Rightarrow> (In_ok (ctio_construct_sense ctio SSD_CURRENT_ERROR SSD_KEY_ILLEGAL_REQUEST 0 INVALID_FIELD_IN_CDB), m)
            | Some (a, m) \<Rightarrow>
                (let max_allocation_length = (if sint allocation_length > 512 then allocation_length else 512);
                     ctio = ctio_allocate_buffer alloc ctio max_allocation_length;
                     token = the (map_of (rod_token_list m) a);
                     populate = (rt_cmd_type token = ROD_POPULATE_TOKEN_CMD);
                     rod_length = (if populate then 512 + 2 else 0 :: nat);
                     avail = 32 + rod_length;
                     header = be_bytes 4 (of_nat avail) @ [if populate then 0x10 else 0x11, copy_operation_status token, 0, 0, 0, 0, 0, 0, 0, 0, 0, 0xF1] @
                       be_bytes 8 (if populate then read_transfer_count token else write_transfer_count token) @ replicate 8 0 @
                       be_bytes 4 (of_nat rod_length);
                     body = (if populate then [0, 0] @ take 168 (fill_rod_token now d token) else [])
                 in case data_ptr ctio of
                      None \<Rightarrow> (In_nomem, rod_token_put a m)
                    | Some b \<Rightarrow>
                        (respond ctio (put (replicate (unat (dxfer_len ctio)) 0 @ drop (unat (dxfer_len ctio)) b) 0 (header @ body))
                           (if sint allocation_length < int (avail + 4) then allocation_length else of_nat (avail + 4)),
                         rod_token_put a m))))"

section \<open>WRITE USING TOKEN\<close>

definition is_unaligned_extended_copy :: "disk \<Rightarrow> u64 \<Rightarrow> u64 \<Rightarrow> u64 \<Rightarrow> bool" where
  "is_unaligned_extended_copy src src_lba dest_lba sz =
     (if lba_shift src = LBA_SHIFT then False
      else if src_lba - (src_lba AND NOT 7) = 0 \<and> sz AND 0xFFF = 0
      then \<not> (dest_lba - (dest_lba AND NOT 7) = 0 \<and> sz AND 0xFFF = 0)
      else True)"

fun rod_entry_locate :: "rod_entry list \<Rightarrow> u64 \<Rightarrow> u32 \<Rightarrow> (rod_entry list \<times> u32) option" where
  "rod_entry_locate [] done_blocks offset_blocks = None"
| "rod_entry_locate (entry # rest) done_blocks offset_blocks =
     (if ucast (en_num_blocks entry) + done_blocks \<le> ucast offset_blocks
      then rod_entry_locate rest (done_blocks + ucast (en_num_blocks entry)) offset_blocks
      else Some (entry # rest, offset_blocks - ucast done_blocks))"

text \<open>
  What a copy meets: whether the map of the source still has the blocks of the token, whether blocks can be
  referenced, read, rearranged and written, and what an exchange with the mirror leaves in the command
  when it fails.
\<close>

record copy_env =
  amap_modified :: "rod_entry \<Rightarrow> u32 \<Rightarrow> u32 \<Rightarrow> bool"
  mirror_check :: "qsio_scsiio \<Rightarrow> qsio_scsiio option"
  ce_ref_ok :: "u64 \<Rightarrow> u32 \<Rightarrow> bool"
  ce_read_ok :: "u64 \<Rightarrow> u32 \<Rightarrow> bool"
  ce_remap_ok :: bool
  ce_write_ok :: "u64 \<Rightarrow> u32 \<Rightarrow> bool"

text \<open>
  One copy: done, failed with the command still to be sent, failed and answered by the write, or
  a store outside the page list. \<open>read_from_rod_entry\<close> allocates a list for the pages from \<open>rod_idx\<close> on but fills it at the
  index of the entry's own list, which is outside unless \<open>rod_idx\<close> is zero.
\<close>

datatype copy_result = Copied qsio_scsiio | Copy_failed qsio_scsiio | Copy_answered | Copy_overrun

definition read_from_rod_entry :: "copy_env \<Rightarrow> u64 \<Rightarrow> u32 \<Rightarrow> u32 \<Rightarrow> u32 \<Rightarrow> bool option" where
  "read_from_rod_entry env src_lba blocks rod_idx rod_pglist_cnt =
     (if rod_idx \<noteq> 0 \<and> rod_idx < rod_pglist_cnt then None else Some (ce_read_ok env src_lba blocks))"

definition copy_to_dest_range ::
  "copy_env \<Rightarrow> disk \<Rightarrow> disk \<Rightarrow> qsio_scsiio \<Rightarrow> u64 \<Rightarrow> u32 \<Rightarrow> u64 \<Rightarrow> u32 \<Rightarrow> rod_entry \<Rightarrow> u32 \<Rightarrow> u32 \<Rightarrow> copy_result" where
  "copy_to_dest_range env dest src ctio dest_lba dest_blocks src_lba src_blocks entry rod_idx rod_pglist_cnt =
     (let size = push_bit (lba_shift src) src_blocks;
          unaligned = (if en_lba_diff entry \<noteq> 0 then True else is_unaligned_extended_copy src src_lba dest_lba (ucast size));
          modified = (if \<not> unaligned then amap_modified env entry rod_idx rod_pglist_cnt else True);
          wr = (if reached_eom dest dest_lba dest_blocks \<or> \<not> ce_write_ok env dest_lba dest_blocks then Copy_answered
                else Copied (ctio\<lparr>data_ptr := None, dxfer_len := 0, pglist_cnt := 0\<rparr>))
      in if \<not> unaligned \<and> \<not> modified
         then (case mirror_check env ctio of
                 Some c \<Rightarrow> Copy_failed c
               | None \<Rightarrow>
                   (case tdisk_cmd_ref_int (ce_ref_ok env) src ctio src_lba src_blocks of
                      Some c \<Rightarrow> Copy_failed c
                    | None \<Rightarrow> wr))
         else (case read_from_rod_entry env src_lba src_blocks rod_idx rod_pglist_cnt of
                 None \<Rightarrow> Copy_overrun
               | Some ok \<Rightarrow>
                   if \<not> ok then Copy_failed ctio
                   else if lba_shift src \<noteq> LBA_SHIFT \<and> src_lba - (src_lba AND NOT 7) \<noteq> 0 \<and> \<not> ce_remap_ok env
                   then Copy_failed ctio
                   else wr))"

text \<open>A copy: destination and its blocks, source and its blocks.\<close>

type_synonym block_copy = "u64 \<times> u32 \<times> u64 \<times> u32"

text \<open>The loop over the entries of a token with the copies that were started; it may not end.\<close>

partial_function (option) rod_copy_loop ::
  "copy_env \<Rightarrow> disk \<Rightarrow> disk \<Rightarrow> qsio_scsiio \<Rightarrow> rod_entry list \<Rightarrow> u32 \<Rightarrow> u64 \<Rightarrow> u32 \<Rightarrow> block_copy list \<Rightarrow> (copy_result \<times> block_copy list) option" where
  "rod_copy_loop env dest src ctio entries start_block dest_lba dest_num_blocks done =
     (case entries of
        [] \<Rightarrow> Some (Copied ctio, done)
      | entry # rest \<Rightarrow>
          if dest_num_blocks = 0 then Some (Copied ctio, done)
          else
            (let src_lba = en_lba entry + ucast start_block;
                 src_num_blocks = en_num_blocks entry - start_block;
                 src_size = push_bit (lba_shift src) (start_block + ucast (en_lba_diff entry));
                 src_end_size = src_size + push_bit (lba_shift src) src_num_blocks;
                 rod_idx = drop_bit 12 src_size;
                 rod_pglist_cnt = drop_bit 12 src_end_size + (if src_end_size AND 0xFFF \<noteq> 0 then 1 else 0)
             in if src_num_blocks = 0 then rod_copy_loop env dest src ctio rest 0 dest_lba dest_num_blocks done
                else
                  (let min_size = min (push_bit (lba_shift src) src_num_blocks) (push_bit (lba_shift dest) dest_num_blocks);
                       from_blocks = drop_bit (lba_shift src) min_size;
                       to_blocks = drop_bit (lba_shift dest) min_size;
                       done = done @ [(dest_lba, to_blocks, src_lba, from_blocks)]
                   in case copy_to_dest_range env dest src ctio dest_lba to_blocks src_lba from_blocks entry rod_idx rod_pglist_cnt of
                        Copied ctio \<Rightarrow>
                          if start_block + from_blocks = en_num_blocks entry
                          then rod_copy_loop env dest src ctio rest 0 (dest_lba + ucast to_blocks) (dest_num_blocks - to_blocks) done
                          else rod_copy_loop env dest src ctio entries (start_block + from_blocks) (dest_lba + ucast to_blocks)
                                 (dest_num_blocks - to_blocks) done
                      | r \<Rightarrow> Some (r, done))))"

text \<open>\<open>rod_token_process_descriptor\<close>; a failed copy, not a wrong offset, marks the token with an error.\<close>

definition rod_token_process_descriptor ::
  "copy_env \<Rightarrow> disk \<Rightarrow> disk \<Rightarrow> qsio_scsiio \<Rightarrow> rod_token_spec \<Rightarrow> block_range_descriptor \<Rightarrow> u64 \<Rightarrow>
     (copy_result \<times> block_copy list \<times> rod_token_spec) option" where
  "rod_token_process_descriptor env dest src ctio token descriptor offset_into_rod =
     (let span = ucast (push_bit (lba_shift dest) offset_into_rod) :: u32;
          offset_blocks = drop_bit (lba_shift src) span
      in case rod_entry_locate (rod_entry_list token) 0 offset_blocks of
           None \<Rightarrow> Some (Copy_failed (list_error ctio INVALID_FIELD_IN_PARAMETER_LIST), [], token)
         | Some (entries, start_block) \<Rightarrow>
             map_option (\<lambda>(r, done). (r, done, case r of Copied c \<Rightarrow> token | _ \<Rightarrow> token\<lparr>copy_operation_status := COPY_OPERATION_ERROR\<rparr>))
               (rod_copy_loop env dest src ctio entries start_block (bd_lba descriptor) (bd_num_blocks descriptor) []))"

text \<open>Every round of the loop over the descriptors takes the first one, of which there is at most one.\<close>

fun process_descriptors ::
  "nat \<Rightarrow> copy_env \<Rightarrow> disk \<Rightarrow> disk \<Rightarrow> qsio_scsiio \<Rightarrow> rod_token_spec \<Rightarrow> block_range_descriptor \<Rightarrow> u64 \<Rightarrow> block_copy list \<Rightarrow>
     (copy_result \<times> block_copy list \<times> rod_token_spec) option" where
  "process_descriptors 0 env dest src ctio token descriptor offset_into_rod done = Some (Copied ctio, done, token)"
| "process_descriptors (Suc n) env dest src ctio token descriptor offset_into_rod done =
     (case rod_token_process_descriptor env dest src ctio token descriptor offset_into_rod of
        None \<Rightarrow> None
      | Some (Copied c, cs, token) \<Rightarrow> process_descriptors n env dest src c token descriptor offset_into_rod (done @ cs)
      | Some (r, cs, token) \<Rightarrow> Some (r, done @ cs, token))"

definition write_token_params ::
  "disk \<Rightarrow> qsio_scsiio \<Rightarrow> qsio_scsiio + (bool \<times> u64 \<times> u64 \<times> block_range_descriptor list \<times> u64)" where
  "write_token_params d ctio =
     (let parameter_list_length = cdb32 ctio 10;
          header = the (data_ptr ctio);
          token_data_length = be_read header 0 2;
          descriptor_length = ucast (be_read header 534 2) :: u16;
          del = bit (header ! 2) 1
      in if parameter_list_length = 0 then Inl (ctio_free_data ctio)
         else if parameter_list_length < 552 then Inl (list_error ctio INVALID_FIELD_IN_CDB)
         else if token_data_length < 550 then Inl (list_error ctio INVALID_FIELD_IN_PARAMETER_LIST)
         else if token_data_length \<noteq> 534 + ucast descriptor_length then Inl (list_error ctio INVALID_FIELD_IN_PARAMETER_LIST)
         else case token_ranges d ctio header 536 descriptor_length of
                Inl c \<Rightarrow> Inl c
              | Inr (descs, transfer_size) \<Rightarrow> Inr (del, be_read header 24 8, be_read header 8 8, descs, transfer_size))"

text \<open>The copies with the token at the address \<open>a\<close>, which is given back at the end.\<close>

definition write_with_token ::
  "copy_env \<Rightarrow> (nat \<Rightarrow> disk) \<Rightarrow> disk \<Rightarrow> qsio_scsiio \<Rightarrow> u64 \<Rightarrow> block_range_descriptor list \<Rightarrow> u64 \<Rightarrow> nat \<Rightarrow> copy_mgr \<Rightarrow>
     (copy_result \<times> block_copy list \<times> copy_mgr) option" where
  "write_with_token env disks d ctio offset_into_rod descs transfer_size a m =
     (let token = the (map_of (rod_token_list m) a);
          src = disks (rt_src_tdisk token)
      in if lba_shift src \<noteq> lba_shift d
         then Some (Copy_failed (list_error ctio UNREACHABLE_COPY_TARGET), [], rod_token_put a m)
         else
           (let token = token\<lparr>rt_list_identifier := cdb32 ctio 6, rt_cmd_type := ROD_WRITE_TOKEN_CMD\<rparr>;
                ctio = ctio\<lparr>data_ptr := None, pglist_cnt := 0, dxfer_len := 0\<rparr>
            in map_option
                 (\<lambda>(r, cs, token).
                    (r, cs, rod_token_put a (on_token a
                       (\<lambda>_. case r of
                              Copied c \<Rightarrow> token\<lparr>copy_operation_status := COPY_OPERATION_OK,
                                                write_transfer_count := write_transfer_count token + transfer_size\<rparr>
                            | _ \<Rightarrow> token) m)))
                 (process_descriptors (length descs) env d src ctio token (hd descs) offset_into_rod [])))"

text \<open>
  \<open>tdisk_cmd_write_using_token\<close> on the disk \<open>dst\<close>, with the copies it made. A failed copy is sent as it is: when nothing has set
  its status it is sent as a success.
\<close>

definition tdisk_cmd_write_using_token ::
  "copy_env \<Rightarrow> (nat \<Rightarrow> disk) \<Rightarrow> u32 \<Rightarrow> nat \<Rightarrow> copy_mgr \<Rightarrow> qsio_scsiio \<Rightarrow> (copy_result \<times> block_copy list \<times> copy_mgr) option" where
  "tdisk_cmd_write_using_token env disks now dst m ctio =
     (case write_token_params (disks dst) ctio of
        Inl c \<Rightarrow> Some (Copy_failed c, [], m)
      | Inr (del, identifier, offset_into_rod, descs, transfer_size) \<Rightarrow>
          (case rod_token_find now identifier m of
             None \<Rightarrow> Some (Copy_failed (list_error ctio INVALID_TOKEN_OPERATION_TOKEN_UNKNOWN), [], m)
           | Some (a, m) \<Rightarrow>
               write_with_token env disks (disks dst) ctio offset_into_rod descs transfer_size a
                 (if del then on_token a (\<lambda>t. t\<lparr>del_token := True\<rparr>) m else m)))"

end
