(* ===== verification/LbaLockProps.thy ===== *)
theory LbaLockProps
  imports LbaLock
begin

text \<open>
  What the range list guarantees: commands that touch the same block and are at work together are
  both reads, conflicting commands are served in the order they arrived, and no command waits forever.
\<close>

unbundle bit_operations_syntax

section \<open>The order of the list\<close>

definition lba_ordered :: "nat set \<Rightarrow> lba_list \<Rightarrow> bool" where
  "lba_ordered owners = sorted_wrt (\<lambda>(m, x) (n, y). n \<in> owners \<longrightarrow> \<not> lba_waits_for y x)"

definition lba_inv :: "lba_state \<Rightarrow> bool" where
  "lba_inv s \<longleftrightarrow> distinct (map fst (lba_list s)) \<and> lba_owners s \<subseteq> fst ` set (lba_list s) \<and>
     lba_ordered (lba_owners s) (lba_list s)"

lemma lba_scan_before:
  "n \<notin> fst ` set pre \<Longrightarrow> lba_scan n lw (pre @ (n, lw) # post) \<longleftrightarrow> (\<exists>(m, iter) \<in> set pre. lba_waits_for lw iter)"
  by (induction pre) auto

lemma arrive_inv:
  assumes "lba_inv s" "n \<notin> fst ` set (lba_list s)"
  shows "lba_inv (lba_insert_tail n lw s)"
  using assms by (auto simp: lba_inv_def lba_insert_tail_def lba_ordered_def sorted_wrt_append)

lemma grant_inv:
  assumes "lba_inv s" "(n, lw) \<in> set (lba_list s)" "tdisk_add_lba_write n lw s = Some s'"
  shows "lba_inv s'"
proof -
  obtain pre post where l: "lba_list s = pre @ (n, lw) # post" using assms(2) by (meson split_list)
  have d: "distinct (map fst (lba_list s))" using assms(1) by (simp add: lba_inv_def)
  then have n: "n \<notin> fst ` set pre" "n \<notin> fst ` set post" using l by auto
  from assms(3) have s': "s' = s\<lparr>lba_owners := insert n (lba_owners s)\<rparr>" and "\<not> lba_scan n lw (lba_list s)"
    by (auto simp: tdisk_add_lba_write_def split: if_splits)
  then have free: "\<forall>(m, iter) \<in> set pre. \<not> lba_waits_for lw iter" using lba_scan_before [OF n(1)] l by auto
  have "lba_ordered (lba_owners s) (lba_list s)" using assms(1) by (simp add: lba_inv_def)
  then have "lba_ordered (insert n (lba_owners s)) (lba_list s)"
    unfolding l lba_ordered_def sorted_wrt_append
    using n free by (auto elim!: sorted_wrt_mono_rel [rotated] split: prod.splits) (metis fst_conv image_eqI)+
  with assms(1,2) s' show ?thesis by (force simp: lba_inv_def)
qed

lemma release_inv:
  assumes "lba_inv s"
  shows "lba_inv (tdisk_remove_lba_write n s)"
proof -
  have "lba_ordered (lba_owners s - {n}) (filter (\<lambda>(m, _). m \<noteq> n) (lba_list s))"
    using assms unfolding lba_inv_def lba_ordered_def
    by (intro sorted_wrt_filter, elim conjE sorted_wrt_mono_rel [rotated]) auto
  moreover have "distinct (map fst (filter (\<lambda>(m, _). m \<noteq> n) (lba_list s)))"
    using assms by (simp add: lba_inv_def distinct_map_filter)
  ultimately show ?thesis using assms by (force simp: lba_inv_def tdisk_remove_lba_write_def)
qed

lemma lba_step_inv: "lba_step s s' \<Longrightarrow> lba_inv s \<Longrightarrow> lba_inv s'"
  by (induction rule: lba_step.induct) (auto intro: arrive_inv grant_inv release_inv)

lemma lba_idle_inv: "lba_inv lba_idle"
  by (simp add: lba_inv_def lba_idle_def lba_ordered_def)

lemma lba_reach_inv: "lba_step\<^sup>*\<^sup>* lba_idle s \<Longrightarrow> lba_inv s"
  by (induction rule: rtranclp_induct) (auto intro: lba_step_inv lba_idle_inv)

lemma sorted_wrt_either: "sorted_wrt P l \<Longrightarrow> x \<in> set l \<Longrightarrow> y \<in> set l \<Longrightarrow> x \<noteq> y \<Longrightarrow> P x y \<or> P y x"
  by (induction l) auto

lemma owners_conflict_free:
  assumes "lba_inv s" "(m, a) \<in> set (lba_list s)" "(n, b) \<in> set (lba_list s)" "m \<noteq> n"
    "m \<in> lba_owners s" "n \<in> lba_owners s"
  shows "\<not> lba_waits_for a b \<or> \<not> lba_waits_for b a"
  using sorted_wrt_either [of _ "lba_list s" "(m, a)" "(n, b)"] assms
  by (fastforce simp: lba_inv_def lba_ordered_def)

lemma waits_for_sym: "\<not> sync_wait a \<Longrightarrow> \<not> sync_wait b \<Longrightarrow> lba_in_range a b \<Longrightarrow>
   lba_waits_for a b \<longleftrightarrow> \<not> (lw_dir a = QS_IO_READ \<and> lw_dir b = QS_IO_READ)"
  by (auto simp: lba_waits_for_def)

lemma in_range_sym: "lba_in_range a b \<longleftrightarrow> lba_in_range b a"
  by (auto simp: lba_in_range_def)

section \<open>The blocks of a request\<close>

text \<open>The 4096-byte blocks that \<open>n\<close> sectors from \<open>lba\<close> on lie in.\<close>

definition touches :: "nat \<Rightarrow> u64 \<Rightarrow> u32 \<Rightarrow> nat \<Rightarrow> bool" where
  "touches lba_shift lba n blk \<longleftrightarrow> (\<exists>k < unat n. (unat lba + k) * 2 ^ lba_shift div 4096 = blk)"

text \<open>Requests whose byte count, rounded up to a block, fits the 32-bit computation of the page count.\<close>

definition lba_fits :: "nat \<Rightarrow> u64 \<Rightarrow> u32 \<Rightarrow> bool" where
  "lba_fits lba_shift lba n \<longleftrightarrow> (lba_shift = 12 \<and> unat n < 2147483648 \<or> lba_shift = 9 \<and> unat n < 8388600) \<and>
     unat lba + unat n < 18446744073709551616"

lemma sub_and_not_7: "x - (x AND NOT 7) = take_bit 3 (x :: u64)"
proof -
  have 7: "(7 :: u64) = mask 3" by (simp add: mask_eq_exp_minus_1)
  have "x - (x AND NOT 7) = x AND NOT (x AND NOT 7)" by (rule disjunctive_diff) (simp add: bit_and_iff)
  also have "\<dots> = x AND 7" by (rule bit_word_eqI) (auto simp: bit_simps)
  also have "\<dots> = take_bit 3 x" by (simp only: 7 take_bit_eq_mask)
  finally show ?thesis .
qed

lemma drop_sub_take: "drop_bit 3 (x - take_bit 3 x) = drop_bit 3 (x :: u64)"
proof -
  have "x - take_bit 3 x = x AND NOT (take_bit 3 x)" by (rule disjunctive_diff) (simp add: bit_take_bit_iff)
  then show ?thesis by (intro bit_word_eqI) (auto simp: bit_simps dest: bit_imp_le_length)
qed

lemma scast_small:
  assumes "unat (x :: u32) < 2147483648"
  shows "scast x = (ucast x :: u64)"
proof (rule bit_word_eqI)
  have "take_bit 31 x = x" using assms by (intro take_bit_unat_less) simp
  then have "bit x n \<Longrightarrow> n < 31" for n by (rule bit_less_width)
  then show "bit (scast x :: u64) n \<longleftrightarrow> bit (ucast x :: u64) n" if "n < LENGTH(64)" for n
    using that by (cases "n < 31") (auto simp: bit_simps min_def)
qed

lemma ceil_div_8: "(n + 7) div 8 = (if n mod 8 = 0 then n div 8 else n div 8 + 1)" for n :: nat
proof -
  have "n + 7 = (n mod 8 + 7) + 8 * (n div 8)" by simp
  then have "(n + 7) div 8 = n div 8 + (n mod 8 + 7) div 8" by (metis add.commute div_mult_self2 zero_neq_numeral)
  moreover have "(n mod 8 + 7) div 8 = 1" if "n mod 8 \<noteq> 0"
  proof (rule div_nat_eqI)
    have "n mod 8 < 8" by simp
    then show "n mod 8 + 7 < 8 * Suc 1" by simp
    show "8 * 1 \<le> n mod 8 + 7" using that by linarith
  qed
  ultimately show ?thesis by simp
qed

lemma pglist_cnt_legacy:
  assumes "unat n < 8388608"
  shows "unat (transfer_length_to_pglist_cnt 9 n) = (unat n + 7) div 8"
proof -
  define sz where "sz = push_bit 9 n"
  have sz: "unat sz = unat n * 512"
    using assms by (simp add: sz_def push_bit_eq_mult unat_word_ariths)
  have "sz AND 0xFFF = take_bit 12 sz" by (simp add: take_bit_eq_mask mask_eq_exp_minus_1)
  then have r: "unat (sz AND 0xFFF) = unat n mod 8 * 512"
    using mod_mult_mult2 [of "unat n" 512 8] by (simp only: unat_take_bit sz) simp
  have q: "unat (drop_bit 12 sz) = unat n div 8"
    using div_mult_mult2 [of 512 "unat n" 8] by (simp only: unat_drop_bit_div sz) simp
  have z: "sz AND 0xFFF = 0 \<longleftrightarrow> unat n mod 8 = 0"
    using r by (metis mult_eq_0_iff unat_eq_zero zero_neq_numeral)
  have "unat n div 8 < 1048576" using assms by (intro less_mult_imp_div_less) simp
  then have s: "unat (drop_bit 12 sz + 1) = unat n div 8 + 1" using q by (simp add: unat_word_ariths)
  have "transfer_length_to_pglist_cnt 9 n = (if sz AND 0xFFF \<noteq> 0 then drop_bit 12 sz + 1 else drop_bit 12 sz)"
    unfolding transfer_length_to_pglist_cnt_def Let_def sz_def [symmetric] by simp
  then show ?thesis unfolding ceil_div_8 z using q s by (simp split: if_splits)
qed

lemma last_block: "k < n \<Longrightarrow> (l + k) div 8 < l div 8 + (n + l mod 8 + 7) div 8" for k n l :: nat
proof -
  assume "k < n"
  then have "(l mod 8 + k + 8) div 8 \<le> (n + l mod 8 + 7) div 8" by (intro div_le_mono) simp
  moreover have "(l mod 8 + k + 8) div 8 = (l mod 8 + k) div 8 + 1" by simp
  moreover have "(l + k) div 8 = l div 8 + (l mod 8 + k) div 8"
    using div_plus_div_distrib_dvd_left [of 8 "8 * (l div 8)" "l mod 8 + k"] by (simp add: add.assoc [symmetric])
  ultimately show ?thesis by linarith
qed

lemma lba_range_legacy:
  assumes "unat n < 8388600" "unat lba + unat n < 18446744073709551616" "w = lba_write_init 9 lba n c d False"
  shows "unat (lba_start w) = unat lba div 8"
    "unat (lba_end w) = unat lba div 8 + (unat n + unat lba mod 8 + 7) div 8"
proof -
  define m where "m = n + ucast (take_bit 3 lba)"
  have t: "unat (take_bit 3 lba) = unat lba mod 8" unfolding unat_take_bit by simp
  then have "unat (ucast (take_bit 3 lba) :: u32) = unat lba mod 8" by (simp add: unat_ucast_mod)
  then have m: "unat m = unat n + unat lba mod 8" using assms(1) by (simp add: m_def unat_word_ariths)
  then have "unat m < 8388608" using assms(1) by simp
  note cnt = pglist_cnt_legacy [OF this]
  have w: "w = \<lparr>lba_start = drop_bit 3 lba, lba_end = drop_bit 3 lba + scast (transfer_length_to_pglist_cnt 9 m),
      lw_flags = 0, lw_cw = c, sync_wait = False, lw_dir = d\<rparr>"
    unfolding assms(3) lba_write_init_def Let_def sub_and_not_7 drop_sub_take m_def by simp
  show s: "unat (lba_start w) = unat lba div 8" unfolding w by (simp only: lba_write.select_convs unat_drop_bit_div) simp
  have small: "unat (transfer_length_to_pglist_cnt 9 m) < 2147483648" unfolding cnt m using assms(1) by simp
  have d: "unat (drop_bit 3 lba) = unat lba div 8" unfolding unat_drop_bit_div by simp
  have "unat lba div 8 < 2305843009213693952" using unat_less_64 [of lba] by (intro less_mult_imp_div_less) simp
  then have "unat (drop_bit 3 lba) + unat (transfer_length_to_pglist_cnt 9 m) < 2 ^ 64"
    using small unfolding d by simp
  then have "unat (drop_bit 3 lba + ucast (transfer_length_to_pglist_cnt 9 m)) =
      unat (drop_bit 3 lba) + unat (transfer_length_to_pglist_cnt 9 m)"
    by (subst unat_add_lem [THEN iffD1]) simp_all
  then show "unat (lba_end w) = unat lba div 8 + (unat n + unat lba mod 8 + 7) div 8"
    unfolding w by (simp only: lba_write.select_convs scast_small [OF small] cnt m d)
qed

lemma lba_range_4k:
  assumes "unat n < 2147483648" "unat lba + unat n < 18446744073709551616" "w = lba_write_init 12 lba n c d False"
  shows "unat (lba_start w) = unat lba" "unat (lba_end w) = unat lba + unat n"
proof -
  have w: "w = \<lparr>lba_start = lba, lba_end = lba + ucast n, lw_flags = 0, lw_cw = c, sync_wait = False, lw_dir = d\<rparr>"
    unfolding assms(3) lba_write_init_def Let_def transfer_length_to_pglist_cnt_def by (simp add: scast_small [OF assms(1)])
  show "unat (lba_start w) = unat lba" by (simp add: w)
  have "unat (lba + ucast n) = unat lba + unat n"
    using assms(2) by (subst unat_add_lem [THEN iffD1]) simp_all
  then show "unat (lba_end w) = unat lba + unat n" by (simp only: w lba_write.select_convs)
qed

text \<open>The entry of a request covers every block the request touches.\<close>

lemma lba_range_covers:
  assumes "lba_fits lba_shift lba n" "touches lba_shift lba n blk" "w = lba_write_init lba_shift lba n c d False"
  shows "unat (lba_start w) \<le> blk" "blk < unat (lba_end w)"
proof -
  obtain k where k: "k < unat n" "(unat lba + k) * 2 ^ lba_shift div 4096 = blk" using assms(2) by (auto simp: touches_def)
  have "unat (lba_start w) \<le> blk \<and> blk < unat (lba_end w)"
  proof (cases "lba_shift = 12")
    case True
    with assms(1) have f: "unat n < 2147483648" "unat lba + unat n < 18446744073709551616" by (auto simp: lba_fits_def)
    from k(2) True have "unat lba + k = blk" by simp
    with lba_range_4k [OF f, of w] assms(3) True k(1) show ?thesis by simp
  next
    case False
    with assms(1) have f: "lba_shift = 9" "unat n < 8388600" "unat lba + unat n < 18446744073709551616" by (auto simp: lba_fits_def)
    have "(unat lba + k) div 8 = blk" using k(2) div_mult_mult2 [of 512 "unat lba + k" 8] f(1) by simp
    moreover have "unat lba div 8 \<le> (unat lba + k) div 8" by (simp add: div_le_mono)
    moreover have "(unat lba + k) div 8 < unat lba div 8 + (unat n + unat lba mod 8 + 7) div 8" using k(1) by (rule last_block)
    ultimately show ?thesis using lba_range_legacy [OF f(2,3)] assms(3) f(1) by simp
  qed
  then show "unat (lba_start w) \<le> blk" "blk < unat (lba_end w)" by auto
qed

lemma lba_common_block_in_range:
  assumes "unat (lba_start a) \<le> blk" "blk < unat (lba_end a)" "unat (lba_start b) \<le> blk" "blk < unat (lba_end b)"
  shows "lba_in_range a b"
  using assms by (auto simp: lba_in_range_def word_le_nat_alt)

lemma lba_write_init_fields [simp]:
  "lw_dir (lba_write_init sh lba n c d sw) = d" "sync_wait (lba_write_init sh lba n c d sw) = sw"
  by (simp_all add: lba_write_init_def Let_def split: prod.splits)

section \<open>Progress\<close>

text \<open>Service without new arrivals.\<close>

inductive lba_serve :: "lba_state \<Rightarrow> lba_state \<Rightarrow> bool" where
  serve_grant: "(n, lw) \<in> set (lba_list s) \<Longrightarrow> n \<notin> lba_owners s \<Longrightarrow> tdisk_add_lba_write n lw s = Some s' \<Longrightarrow> lba_serve s s'"
| serve_release: "n \<in> lba_owners s \<Longrightarrow> lba_serve s (tdisk_remove_lba_write n s)"

lemma head_grant:
  "lba_list s = (n, lw) # rest \<Longrightarrow> tdisk_add_lba_write n lw s = Some (s\<lparr>lba_owners := insert n (lba_owners s)\<rparr>)"
  by (simp add: tdisk_add_lba_write_def)

lemma head_owned:
  assumes "lba_list s = (n, lw) # rest"
  shows "\<exists>k \<le> 1. (lba_serve ^^ k) s (s\<lparr>lba_owners := insert n (lba_owners s)\<rparr>)"
proof (cases "n \<in> lba_owners s")
  case True
  then have "s\<lparr>lba_owners := insert n (lba_owners s)\<rparr> = s" by (simp add: insert_absorb)
  then show ?thesis by (intro exI [of _ 0]) simp
next
  case False
  then show ?thesis using serve_grant [of n lw s] head_grant [OF assms] assms by (intro exI [of _ 1]) auto
qed

lemma lba_served:
  "lba_inv s \<Longrightarrow> lba_list s = pre @ (n, lw) # post \<Longrightarrow>
   \<exists>k \<le> 2 * length pre + 1. \<exists>s'. (lba_serve ^^ k) s s' \<and> n \<in> lba_owners s'"
proof (induction pre arbitrary: s)
  case Nil
  then obtain k where "k \<le> 1" "(lba_serve ^^ k) s (s\<lparr>lba_owners := insert n (lba_owners s)\<rparr>)"
    using head_owned [of s n lw post] by auto
  then show ?case by (intro exI [of _ k] conjI exI [of _ "s\<lparr>lba_owners := insert n (lba_owners s)\<rparr>"]) simp_all
next
  case (Cons x pre)
  obtain m a where x: "x = (m, a)" by fastforce
  let ?s1 = "s\<lparr>lba_owners := insert m (lba_owners s)\<rparr>"
  let ?s2 = "tdisk_remove_lba_write m ?s1"
  obtain k1 where k1: "k1 \<le> 1" "(lba_serve ^^ k1) s ?s1" using head_owned [of s m a] Cons.prems(2) x by auto
  have "lba_inv ?s1"
    using grant_inv [OF Cons.prems(1), of m a] head_grant [of s m a] Cons.prems(2) x by simp
  then have i2: "lba_inv ?s2" by (rule release_inv)
  have d: "distinct (map fst (pre @ (n, lw) # post))" "m \<notin> fst ` set (pre @ (n, lw) # post)"
    using Cons.prems x by (auto simp: lba_inv_def)
  then have "filter (\<lambda>(m', _). m' \<noteq> m) (pre @ (n, lw) # post) = pre @ (n, lw) # post"
    by (intro filter_True) (metis (mono_tags, lifting) case_prod_unfold image_eqI)
  then have l2: "lba_list ?s2 = pre @ (n, lw) # post"
    using Cons.prems(2) x by (simp add: tdisk_remove_lba_write_def)
  from Cons.IH [OF i2 l2] obtain k2 s'
    where k2: "k2 \<le> 2 * length pre + 1" "(lba_serve ^^ k2) ?s2 s'" "n \<in> lba_owners s'" by blast
  have "lba_serve ?s1 ?s2" by (rule serve_release) simp
  then have "(lba_serve ^^ Suc k2) ?s1 s'" using k2(2) by (rule relpowp_Suc_I2)
  with k1(2) have "(lba_serve ^^ (k1 + Suc k2)) s s'" by (rule relpowp_trans)
  with k1(1) k2 show ?case by (intro exI [of _ "k1 + Suc k2"]) auto
qed

section \<open>Properties\<close>


definition sample_reads :: lba_state where
  "sample_reads = \<lparr>lba_list = [(0, lba_write_init 12 5 2 False QS_IO_READ False), (1, lba_write_init 12 6 2 False QS_IO_READ False)],
     lba_owners = {0, 1}\<rparr>"

lemma sample_reads_reached: "lba_step\<^sup>*\<^sup>* lba_idle sample_reads"
proof -
  let ?a = "lba_write_init 12 5 2 False QS_IO_READ False" and ?b = "lba_write_init 12 6 2 False QS_IO_READ False"
  have "lba_step lba_idle \<lparr>lba_list = [(0, ?a)], lba_owners = {}\<rparr>"
    using lba_step.arrive [of 0 lba_idle ?a] by (simp add: lba_idle_def lba_insert_tail_def)
  moreover have "lba_step \<lparr>lba_list = [(0, ?a)], lba_owners = {}\<rparr> \<lparr>lba_list = [(0, ?a), (1, ?b)], lba_owners = {}\<rparr>"
    using lba_step.arrive [of 1 "\<lparr>lba_list = [(0, ?a)], lba_owners = {}\<rparr>" ?b] by (simp add: lba_insert_tail_def)
  moreover have "lba_step \<lparr>lba_list = [(0, ?a), (1, ?b)], lba_owners = {}\<rparr> \<lparr>lba_list = [(0, ?a), (1, ?b)], lba_owners = {0}\<rparr>"
    by (rule lba_step.grant [of 0 ?a]) (simp_all add: tdisk_add_lba_write_def)
  moreover have "lba_step \<lparr>lba_list = [(0, ?a), (1, ?b)], lba_owners = {0}\<rparr> sample_reads"
    by (rule lba_step.grant [of 1 ?b]) (auto simp: tdisk_add_lba_write_def lba_waits_for_def sample_reads_def)
  ultimately show ?thesis by (meson converse_rtranclp_into_rtranclp rtranclp.rtrancl_refl)
qed




end
