(* ===== verification/TdiskCmd.thy ===== *)
theory TdiskCmd
  imports ReserveIn
begin

text \<open>
  The front door of a disk (\<^verbatim>\<open>core/tdisk.c\<close>): the opcodes it knows, whether a command conflicts
  with a reservation, RESERVE, RELEASE, REPORT LUNS and REQUEST SENSE, and the checks
  that are made before a command is handed to its handler.
\<close>

unbundle bit_operations_syntax

definition device_reserved :: "qsio_scsiio \<Rightarrow> reservation \<Rightarrow> bool" where
  "device_reserved ctio r =
     (if \<not> is_reserved r \<or>
         (port_equal (rv_i_prt r) (i_prt ctio) \<and> port_equal (rv_t_prt r) (t_prt ctio) \<and> rv_init_int r = init_int ctio) \<or>
         init_int ctio = TARGET_INT_MIRROR
      then False else True)"

definition tdisk_cmd_access_ok :: "reservation \<Rightarrow> qsio_scsiio \<Rightarrow> bool" where
  "tdisk_cmd_access_ok r ctio =
     (let op = cdb8 ctio 0;
          registered = list_ex (\<lambda>tmp. reg_iid tmp = ctio_iid ctio) (registration_list r);
          pt = persistent_type r;
          write_excl = (pt = RESERVATION_TYPE_WRITE_EXCLUSIVE);
          excl_access = (pt = RESERVATION_TYPE_EXCLUSIVE_ACCESS);
          write_excl_ro = (pt = RESERVATION_TYPE_WRITE_EXCLUSIVE_RO \<or> pt = RESERVATION_TYPE_WRITE_EXCLUSIVE_AR);
          excl_access_ro = (pt = RESERVATION_TYPE_EXCLUSIVE_ACCESS_RO \<or> pt = RESERVATION_TYPE_EXCLUSIVE_ACCESS_AR)
      in if \<not> device_reserved ctio r then True
         else if rv_type r = RESERVATION_TYPE_RESERVE
         then op \<notin> {LOG_SELECT, MODE_SELECT_6, MODE_SELECT_10, MODE_SENSE_6, MODE_SENSE_10, PERSISTENT_RESERVE_IN,
                    PERSISTENT_RESERVE_OUT, TEST_UNIT_READY, RESERVE, READ_6, READ_10, READ_12, READ_16,
                    WRITE_6, WRITE_10, WRITE_12, WRITE_16, UNMAP, EXTENDED_COPY, RECEIVE_COPY_RESULTS,
                    COMPARE_AND_WRITE, WRITE_SAME, WRITE_SAME_16, SYNCHRONIZE_CACHE, SYNCHRONIZE_CACHE_16,
                    VERIFY, VERIFY_12, VERIFY_16}
         else if op \<in> {LOG_SELECT, MODE_SENSE_6, MODE_SENSE_10, MODE_SELECT_6, MODE_SELECT_10, TEST_UNIT_READY,
                       WRITE_6, WRITE_10, WRITE_12, WRITE_16, UNMAP, EXTENDED_COPY, RECEIVE_COPY_RESULTS,
                       COMPARE_AND_WRITE, WRITE_SAME, WRITE_SAME_16, SYNCHRONIZE_CACHE, SYNCHRONIZE_CACHE_16}
         then (if write_excl \<or> excl_access then False
               else if (write_excl_ro \<or> excl_access_ro) \<and> \<not> registered then False else True)
         else if op \<in> {READ_6, READ_10, READ_12, READ_16, VERIFY, VERIFY_12, VERIFY_16}
         then (if excl_access then False else if excl_access_ro \<and> \<not> registered then False else True)
         else if op \<in> {RELEASE, RESERVE} then False
         else True)"

definition tdisk_check_cmd :: "u8 \<Rightarrow> bool" where
  "tdisk_check_cmd op \<longleftrightarrow>
     op \<in> {TEST_UNIT_READY, INQUIRY, RESERVE, RELEASE, PERSISTENT_RESERVE_IN, PERSISTENT_RESERVE_OUT, REQUEST_SENSE,
           READ_CAPACITY, SERVICE_ACTION_IN, MODE_SENSE_6, MODE_SENSE_10, READ_6, READ_10, READ_12, READ_16,
           WRITE_SAME, WRITE_SAME_16, UNMAP, EXTENDED_COPY, RECEIVE_COPY_RESULTS, COMPARE_AND_WRITE,
           WRITE_6, WRITE_10, WRITE_12, WRITE_16, REPORT_LUNS, VERIFY, VERIFY_12, VERIFY_16,
           SYNCHRONIZE_CACHE, SYNCHRONIZE_CACHE_16}"

definition tdisk_cmd_reserve :: "tdisk \<Rightarrow> qsio_scsiio \<Rightarrow> qsio_scsiio \<times> tdisk" where
  "tdisk_cmd_reserve td ctio =
     (if \<not> tdisk_cmd_access_ok (reservation td) ctio then (conflict ctio, td)
      else (ctio, node_reservation_sync_send
              (on_resv (\<lambda>r. r\<lparr>is_reserved := True, rv_type := RESERVATION_TYPE_RESERVE, rv_i_prt := i_prt ctio,
                              rv_t_prt := t_prt ctio, rv_init_int := init_int ctio\<rparr>) td)))"

definition tdisk_cmd_release :: "tdisk \<Rightarrow> qsio_scsiio \<Rightarrow> qsio_scsiio \<times> tdisk" where
  "tdisk_cmd_release td ctio =
     (if resv_iid (reservation td) = ctio_iid ctio
      then (ctio, node_reservation_sync_send (on_resv (\<lambda>r. r\<lparr>is_reserved := False\<rparr>) td))
      else (ctio, td))"

definition tdisk_cmd_report_luns :: "(nat \<Rightarrow> u8 list option) \<Rightarrow> u32 \<Rightarrow> qsio_scsiio \<Rightarrow> bool \<times> qsio_scsiio" where
  "tdisk_cmd_report_luns alloc bus ctio =
     (let allocation_length = cdb32 ctio 6
      in if allocation_length < 16
         then (True, ctio_construct_sense ctio SSD_CURRENT_ERROR SSD_KEY_ILLEGAL_REQUEST 0 INVALID_FIELD_IN_CDB)
         else (let ctio = ctio_allocate_buffer alloc ctio 16
               in if data_ptr ctio = None then (False, ctio)
                  else (True, ctio\<lparr>data_ptr := Some (be_bytes 4 8 @ replicate 4 0 @
                                     (if init_int ctio = TARGET_INT_FC then write_lun bus else replicate 8 0)),
                                   scsi_status := SCSI_STATUS_OK\<rparr>)))"

definition tdisk_cmd_request_sense :: "initiator_state \<Rightarrow> tdisk \<Rightarrow> qsio_scsiio \<Rightarrow> qsio_scsiio \<times> tdisk" where
  "tdisk_cmd_request_sense istate td ctio =
     (case device_request_sense ctio istate of (ctio, istate') \<Rightarrow>
        (ctio, td\<lparr>istate_list := istate_update (ctio_iid ctio) (\<lambda>_. istate') (istate_list td)\<rparr>))"

text \<open>
  The first half of \<open>tdisk_proc_cmd\<close>: the command is completed with the returned status, or goes on
  to its handler. \<open>ready\<close> is the readiness of node, disk and mirror, \<open>log_error\<close> the state of the
  disk group's log.
\<close>

datatype gate = Completed qsio_scsiio tdisk | Dispatch initiator_state

definition tdisk_proc_checks :: "bool \<Rightarrow> bool \<Rightarrow> tdisk \<Rightarrow> qsio_scsiio \<Rightarrow> gate" where
  "tdisk_proc_checks ready log_error td ctio =
     (let op = cdb8 ctio 0;
          who = ctio_iid ctio
      in if \<not> ready then Completed ((ctio_free_data ctio)\<lparr>scsi_status := SCSI_STATUS_BUSY\<rparr>) td
         else if log_error \<and> is_write_cmd ctio
         then Completed (ctio_construct_sense (ctio_free_data ctio) SSD_CURRENT_ERROR SSD_KEY_DATA_PROTECT 0
                           SPACE_ALLOCATION_FAILED_WRITE_PROTECT) td
         else case find (\<lambda>s. istate_iid s = who) (istate_list td) of
                None \<Rightarrow> Completed (ctio_construct_sense (ctio_free_data ctio) SSD_CURRENT_ERROR
                                     SSD_KEY_ILLEGAL_REQUEST 0 LOGICAL_UNIT_NOT_SUPPORTED) td
              | Some istate \<Rightarrow>
                  if op \<notin> {INQUIRY, REPORT_LUNS, REQUEST_SENSE} \<and> device_has_sense istate
                  then (let (sinfo, istate') = device_get_sense istate;
                            ctio = device_move_sense ctio (the sinfo);
                            td = td\<lparr>istate_list := istate_update who (\<lambda>_. istate') (istate_list td)\<rparr>
                        in Completed (ctio_free_data ctio) td)
                  else if is_reserved (reservation td) \<and> \<not> tdisk_cmd_access_ok (reservation td) ctio
                  then Completed (conflict (ctio_free_data ctio)) td
                  else Dispatch istate)"

end
