(* ===== verification/ReserveInProps.thy ===== *)
theory ReserveInProps
  imports TdiskCmd
begin

text \<open>
  The responses to PERSISTENT RESERVE IN: what a client reads back, and which requests make the
  code write past the end of the response buffer.
\<close>

unbundle bit_operations_syntax

section \<open>Big-endian fields\<close>

lemma length_be_bytes [simp]: "length (be_bytes n v) = n"
  by (simp add: be_bytes_def)

lemma be_bytes_Suc: "be_bytes (Suc n) v = ucast (drop_bit (8 * n) v) # be_bytes n v"
  unfolding be_bytes_def by (subst upt_conv_Cons) (simp_all add: map_Suc_upt [symmetric] o_def del: upt_Suc)

lemma be_foldl:
  "foldl (\<lambda>v b. push_bit 8 v OR ucast b) a (be_bytes n v) = push_bit (8 * n) a OR take_bit (8 * n) v" for a v :: u64
proof (induction n arbitrary: a)
  case 0
  then show ?case by (simp add: be_bytes_def)
next
  case (Suc n)
  have "push_bit (8 * n) (push_bit 8 a OR ucast (ucast (drop_bit (8 * n) v) :: u8)) OR take_bit (8 * n) v =
      push_bit (8 * Suc n) a OR take_bit (8 * Suc n) v"
    by (rule bit_word_eqI) (auto simp: bit_simps add.commute [of 8])
  with Suc show ?case by (simp add: be_bytes_Suc)
qed

lemma be_read_be_bytes: "take n (drop off b) = be_bytes n v \<Longrightarrow> be_read b off n = take_bit (8 * n) v"
  by (simp add: be_read_def be_foldl)

lemma take_bit_ucast32: "take_bit 32 (ucast x :: u64) = ucast x" for x :: u32
  by (rule bit_word_eqI) (auto simp: bit_simps dest: bit_imp_le_length)

lemma take_bit_ucast16: "take_bit 32 (ucast x :: u64) = ucast x" for x :: u16
  by (rule bit_word_eqI) (auto simp: bit_simps dest: bit_imp_le_length)

lemma unat_ucast16: "unat (ucast x :: u32) = unat x" for x :: u16
proof -
  have "unat x < 2 ^ 16" using unsigned_less [of x] by simp
  from less_le_trans [OF this, of "2 ^ 32"] have "unat x < 2 ^ 32" by simp
  then have "take_bit 32 (unat x) = unat x" by (rule take_bit_nat_eq_self)
  then show ?thesis by (simp add: unsigned_ucast_eq)
qed

section \<open>Writing into a buffer\<close>

lemma put_Some:
  assumes "off + length bytes \<le> length b"
  shows "\<exists>b'. put b off bytes = Some b' \<and> length b' = length b \<and> take off b' = take off b \<and>
     take (length bytes) (drop off b') = bytes \<and> drop (off + length bytes) b' = drop (off + length bytes) b"
  using assms by (simp add: put_def)

lemma read_keys_loop_ok:
  assumes "unat d + 8 * length regs < 2 ^ 16" "unat al \<le> length b"
  shows "\<exists>b'. read_keys_loop regs al d (Some b) = (d + of_nat (8 * length regs), Some b') \<and> length b' = length b \<and>
     take (unat d) b' = take (unat d) b \<and>
     (\<forall>i < length regs. unat d + 8 * i + 8 \<le> unat al \<longrightarrow> take 8 (drop (unat d + 8 * i) b') = be_bytes 8 (rg_key (regs ! i)))"
  using assms
proof (induction regs arbitrary: d b)
  case Nil
  then show ?case by simp
next
  case (Cons reg regs)
  have d8: "unat (d + 8) = unat d + 8"
    using Cons.prems(1) by (subst unat_plus_simple [THEN iffD1]) (auto simp: no_olen_add_nat)
  have pre: "unat (d + 8) + 8 * length regs < 2 ^ 16" using Cons.prems(1) d8 by simp
  have cnt: "d + 8 + of_nat (8 * length regs) = d + of_nat (8 * length (reg # regs))" by (simp add: algebra_simps)
  show ?case
  proof (cases "unat d + 8 > unat al")
    case True
    from Cons.IH [OF pre Cons.prems(2)] obtain b' where
      b': "read_keys_loop regs al (d + 8) (Some b) = (d + 8 + of_nat (8 * length regs), Some b')" "length b' = length b"
        "take (unat (d + 8)) b' = take (unat (d + 8)) b" by blast
    have "take (unat d) b' = take (unat d) b"
      using arg_cong [OF b'(3), of "take (unat d)"] by (simp add: d8 min_def)
    with True b'(1,2) show ?thesis by (intro exI [of _ b']) (auto simp: cnt)
  next
    case False
    with Cons.prems(2) put_Some [of "unat d" "be_bytes 8 (rg_key reg)" b] obtain c where
      c: "put b (unat d) (be_bytes 8 (rg_key reg)) = Some c" "length c = length b" "take (unat d) c = take (unat d) b"
        "take 8 (drop (unat d) c) = be_bytes 8 (rg_key reg)" by auto
    from Cons.IH [OF pre, of c] c(2) Cons.prems(2) obtain b' where
      b': "read_keys_loop regs al (d + 8) (Some c) = (d + 8 + of_nat (8 * length regs), Some b')" "length b' = length c"
        "take (unat d + 8) b' = take (unat d + 8) c"
        "\<forall>i < length regs. unat d + 8 + 8 * i + 8 \<le> unat al \<longrightarrow>
           take 8 (drop (unat d + 8 + 8 * i) b') = be_bytes 8 (rg_key (regs ! i))" by (auto simp: d8)
    have p: "take (unat d) b' = take (unat d) b"
      using arg_cong [OF b'(3), of "take (unat d)"] c(3) by (simp add: min_def)
    have k: "take 8 (drop (unat d) b') = be_bytes 8 (rg_key reg)"
      using arg_cong [OF b'(3), of "drop (unat d)"] c(4) by (simp add: drop_take)
    have "\<forall>i < length (reg # regs). unat d + 8 * i + 8 \<le> unat al \<longrightarrow>
        take 8 (drop (unat d + 8 * i) b') = be_bytes 8 (rg_key ((reg # regs) ! i))"
    proof (intro allI impI)
      fix i assume "i < length (reg # regs)" "unat d + 8 * i + 8 \<le> unat al"
      then show "take 8 (drop (unat d + 8 * i) b') = be_bytes 8 (rg_key ((reg # regs) ! i))"
        using k b'(4) by (cases i) (auto simp: algebra_simps)
    qed
    moreover have "read_keys_loop (reg # regs) al d (Some b) = (d + of_nat (8 * length (reg # regs)), Some b')"
      using False c(1) b'(1) by (simp add: cnt [simplified])
    ultimately show ?thesis using b'(2) c(2) p by (intro exI [of _ b']) simp
  qed
qed


section \<open>The response buffer\<close>

text \<open>What the allocator promises: a buffer of the length asked for, when it succeeds.\<close>

definition allocates :: "(nat \<Rightarrow> u8 list option) \<Rightarrow> bool" where
  "allocates alloc \<longleftrightarrow> (\<forall>n. \<exists>b. alloc n = Some b \<and> length b = n)"

lemma allocate_buffer_ok:
  fixes al :: u16
  assumes "allocates alloc"
  shows "\<exists>b. ctio_allocate_buffer alloc ctio (ucast al) = ctio\<lparr>data_ptr := Some b, dxfer_len := ucast al\<rparr> \<and>
     unat al \<le> length b \<and> (init_int ctio \<noteq> TARGET_INT_ISCSI \<longrightarrow> length b = unat al)"
proof -
  let ?l = "ucast al :: u32"
  have lt: "unat al < 65536" using unsigned_less [of al] by simp
  note ul = unat_ucast16 [of al]
  have pad: "unat al \<le> unat (?l + (3 + 1 - (?l AND 3)))"
  proof -
    have "?l AND 3 \<le> 3" by (simp add: word_and_le1)
    then have "?l AND 3 \<le> 4" by (rule order_trans) simp
    from word_sub_le [OF this] have "3 + 1 - (?l AND 3) \<le> 4" by simp
    then have "unat (3 + 1 - (?l AND 3)) \<le> 4" by (simp add: word_le_nat_alt)
    then have "unat ?l + unat (3 + 1 - (?l AND 3)) < 4294967296" using ul lt by linarith
    then have "unat (?l + (3 + 1 - (?l AND 3))) = unat ?l + unat (3 + 1 - (?l AND 3))"
      by (intro unat_add_lem [THEN iffD1]) simp
    with ul show ?thesis by linarith
  qed
  define len where "len = (if init_int ctio = TARGET_INT_ISCSI \<and> ?l AND 3 \<noteq> 0 then ?l + (3 + 1 - (?l AND 3)) else ?l)"
  obtain b where b: "alloc (unat len) = Some b" "length b = unat len" using assms unfolding allocates_def by blast
  have "ctio_allocate_buffer alloc ctio ?l = ctio\<lparr>data_ptr := Some b, dxfer_len := ?l\<rparr>"
    using b(1) by (auto simp: ctio_allocate_buffer_def Let_def len_def)
  moreover have "unat al \<le> length b" "init_int ctio \<noteq> TARGET_INT_ISCSI \<longrightarrow> length b = unat al"
    using b(2) pad ul by (auto simp: len_def split: if_splits)
  ultimately show ?thesis by blast
qed


section \<open>READ KEYS\<close>

text \<open>
  C31. READ KEYS stays inside its buffer for every allocation length of at least eight and any
  number of registrations the 16-bit length can count, and the client reads back the
  generation, the full length, and in order the key of every registration that fits.
\<close>

theorem read_keys_response:
  assumes "allocates alloc" "8 \<le> al" "length (registration_list r) < 8191"
    "n = length (registration_list r)"
  shows "\<exists>ctio' b. persistent_reservation_read_keys alloc ctio al r = In_ok ctio' \<and> data_ptr ctio' = Some b \<and>
     be_read b 0 4 = ucast (generation r) \<and> be_read b 4 4 = of_nat (8 * n) \<and>
     (\<forall>i < n. 16 + 8 * i \<le> unat al \<longrightarrow> be_read b (8 + 8 * i) 8 = rg_key (registration_list r ! i)) \<and>
     unat (dxfer_len ctio') = min (8 + 8 * n) (unat al)"
proof -
  obtain buf where buf: "ctio_allocate_buffer alloc ctio (ucast al) = ctio\<lparr>data_ptr := Some buf, dxfer_len := ucast al\<rparr>"
    "unat al \<le> length buf" using allocate_buffer_ok [OF assms(1)] by blast
  have al8: "8 \<le> unat al" using assms(2) by (simp add: word_le_nat_alt)
  obtain b0 where b0: "put buf 0 (be_bytes 4 (ucast (generation r))) = Some b0" "length b0 = length buf"
    "take 4 b0 = be_bytes 4 (ucast (generation r))"
    using put_Some [of 0 "be_bytes 4 (ucast (generation r))" buf] al8 buf(2) by auto
  obtain b1 where b1: "read_keys_loop (registration_list r) al 8 (Some b0) = (8 + of_nat (8 * n), Some b1)" "length b1 = length b0"
    "take 8 b1 = take 8 b0"
    "\<forall>i < n. 8 + 8 * i + 8 \<le> unat al \<longrightarrow> take 8 (drop (8 + 8 * i) b1) = be_bytes 8 (rg_key (registration_list r ! i))"
    using read_keys_loop_ok [of 8 "registration_list r" al b0] assms(3,4) buf(2) b0(2) by auto
  let ?len = "be_bytes 4 (ucast (8 + of_nat (8 * n) - 8 :: u16))"
  obtain b where b: "put b1 4 ?len = Some b" "take 4 b = take 4 b1" "take 4 (drop 4 b) = ?len" "drop 8 b = drop 8 b1"
    using put_Some [of 4 ?len b1] al8 buf(2) b0(2) b1(2) by auto
  have dn: "unat (8 + of_nat (8 * n) :: u16) = 8 + 8 * n" "unat (of_nat (8 * n) :: u16) = 8 * n"
  proof -
    have "8 + 8 * n < 2 ^ 16" using assms(3,4) by simp
    then have "unat (of_nat (8 + 8 * n) :: u16) = 8 + 8 * n" "unat (of_nat (8 * n) :: u16) = 8 * n"
      by (simp_all add: unsigned_of_nat take_bit_nat_eq_self del: of_nat_add of_nat_mult)
    then show "unat (8 + of_nat (8 * n) :: u16) = 8 + 8 * n" "unat (of_nat (8 * n) :: u16) = 8 * n" by simp_all
  qed
  have gen: "be_read b 0 4 = ucast (generation r)"
  proof -
    have "take 4 b1 = take 4 b0" using arg_cong [OF b1(3), of "take 4"] by simp
    with b(2) b0(3) have "take 4 (drop 0 b) = be_bytes 4 (ucast (generation r))" by simp
    from be_read_be_bytes [OF this] show ?thesis by (simp add: take_bit_ucast32)
  qed
  have len: "be_read b 4 4 = of_nat (8 * n)"
  proof -
    have "be_read b 4 4 = take_bit 32 (ucast (of_nat (8 * n) :: u16))" using be_read_be_bytes [OF b(3)] by simp
    also have "\<dots> = ucast (of_nat (8 * n) :: u16)" by (simp add: take_bit_ucast16)
    also have "\<dots> = (of_nat (unat (of_nat (8 * n) :: u16)) :: u64)" by simp
    finally show ?thesis by (simp only: dn(2))
  qed
  have keys: "be_read b (8 + 8 * i) 8 = rg_key (registration_list r ! i)" if "i < n" "16 + 8 * i \<le> unat al" for i
  proof -
    have "drop (8 + 8 * i) b = drop (8 + 8 * i) b1" using arg_cong [OF b(4), of "drop (8 * i)"] by (simp add: add.commute)
    with b1(4) that have "take 8 (drop (8 + 8 * i) b) = be_bytes 8 (rg_key (registration_list r ! i))" by auto
    from be_read_be_bytes [OF this] show ?thesis by (simp add: take_bit_word_eq_self)
  qed
  let ?d = "if 8 + of_nat (8 * n) < al then ucast (8 + of_nat (8 * n) :: u16) else ucast al :: u32"
  have "persistent_reservation_read_keys alloc ctio al r =
      In_ok (ctio\<lparr>data_ptr := Some b, dxfer_len := ?d\<rparr>)"
    using b(1) b0(1) b1(1) by (simp add: persistent_reservation_read_keys_def buf(1) Let_def respond_def)
  moreover have "unat ?d = min (8 + 8 * n) (unat al)"
    using dn(1) by (simp add: word_less_nat_alt min_def unat_ucast16)
  ultimately show ?thesis using gen len keys by auto
qed


definition zero_alloc :: "nat \<Rightarrow> u8 list option" where
  "zero_alloc n = Some (replicate n 0)"

lemma zero_alloc_allocates: "allocates zero_alloc"
  by (simp add: allocates_def zero_alloc_def)

definition sample_registration :: "u8 \<Rightarrow> u8 list \<Rightarrow> registration" where
  "sample_registration ii name =
     \<lparr>rg_key = 0x1122334455667788, rg_i_prt = (1, 0), rg_t_prt = (0, 0), rg_r_prt = 0, rg_init_int = ii, rg_init_name = name\<rparr>"

definition sample_reservation :: "registration list \<Rightarrow> reservation" where
  "sample_reservation l = \<lparr>generation = 7, is_reserved = True, rv_type = RESERVATION_TYPE_PERSISTENT, persistent_type = 1,
     rv_init_int = 0, rv_r_prt = 0, rv_i_prt = (1, 0), rv_t_prt = (0, 0), persistent_key = 0x1122334455667788, registration_list = l\<rparr>"

definition sample_in :: "u8 \<Rightarrow> qsio_scsiio" where
  "sample_in ii = \<lparr>cdb = replicate 16 0, scsi_status = 0, task_attr = 0x20, queued = False, init_int = ii, r_prt = 0, pglist_cnt = 0,
     data_ptr = None, dxfer_len = 0, task_tag = 0, i_prt = (1, 0), t_prt = (0, 0), ccb_flags = 0, ccb_tdisk = 0, sense_data = None,
     sense_len = 0, init_name = []\<rparr>"

theorem read_keys_response_witness:
  "\<exists>ctio' b. persistent_reservation_read_keys zero_alloc (sample_in 0) 16 (sample_reservation [sample_registration 0 []]) = In_ok ctio' \<and>
     data_ptr ctio' = Some b \<and> be_read b 8 8 = 0x1122334455667788 \<and> unat (dxfer_len ctio') = 16"
  using read_keys_response [OF zero_alloc_allocates, of 16 "sample_reservation [sample_registration 0 []]" 1 "sample_in 0"]
  by (auto simp: sample_reservation_def sample_registration_def)

section \<open>READ RESERVATION\<close>

lemma put_None: "length b < off + length bytes \<Longrightarrow> put b off bytes = None"
  by (simp add: put_def)



section \<open>READ FULL STATUS\<close>

text \<open>
  READ FULL STATUS overruns its buffer by the terminating zero of an iSCSI name: when the
  allocation length is exactly that of the response for one iSCSI registration, the string
  copy writes one byte past the end.
\<close>

lemma read_full_overrun:
  assumes "allocates alloc" "init_int ctio \<noteq> TARGET_INT_ISCSI" "registration_list r = [reg]"
    "rg_init_int reg = TARGET_INT_ISCSI" "length (rg_init_name reg) \<le> 255" "unat al = 36 + length (rg_init_name reg)"
  shows "persistent_reservation_read_full alloc ctio al r = In_overrun"
proof -
  obtain buf where buf: "ctio_allocate_buffer alloc ctio (ucast al) = ctio\<lparr>data_ptr := Some buf, dxfer_len := ucast al\<rparr>"
    "length buf = unat al" using allocate_buffer_ok [OF assms(1), of ctio al] assms(2) by blast
  obtain b0 where b0: "put buf 0 (be_bytes 4 (ucast (generation r))) = Some b0" "length b0 = unat al"
    using put_Some [of 0 "be_bytes 4 (ucast (generation r))" buf] assms(6) buf(2) by auto
  have ts: "unat (24 + transport_size reg) = 28 + length (rg_init_name reg)"
  proof -
    have "24 + transport_size reg = of_nat (28 + length (rg_init_name reg))" using assms(4) by (simp add: transport_size_def)
    then show ?thesis using assms(5) by (simp add: unsigned_of_nat take_bit_nat_eq_self del: of_nat_add)
  qed
  have len: "length (pfull_data r reg) = 24" "length (transport_id reg) = 5 + length (rg_init_name reg)"
    using assms(4) by (simp_all add: pfull_data_def transport_id_def Let_def)
  obtain b1 where b1: "put b0 8 (pfull_data r reg) = Some b1" "length b1 = unat al"
    using put_Some [of 8 "pfull_data r reg" b0] len(1) b0(2) assms(6) by auto
  have "put b1 32 (transport_id reg) = None" by (rule put_None) (use len(2) b1(2) assms(6) in simp)
  with b0(1) b1(1) buf(1) ts assms(3,6) show ?thesis
    by (simp add: persistent_reservation_read_full_def Let_def respond_def)
qed

lemma read_full_overrun_witness:
  "persistent_reservation_read_full zero_alloc (sample_in 0) 39 (sample_reservation [sample_registration TARGET_INT_ISCSI [0x69, 0x71, 0x6e]]) = In_overrun"
  using read_full_overrun [OF zero_alloc_allocates, of "sample_in 0" _ "sample_registration TARGET_INT_ISCSI [0x69, 0x71, 0x6e]" 39]
  by (simp add: sample_in_def sample_reservation_def sample_registration_def)

end
