(* ===== verification/DiskInfoProps.thy ===== *)
theory DiskInfoProps
  imports DiskInfo ReserveInProps
begin

text \<open>
  What a client of the informational commands can rely on: INQUIRY stays inside its buffer and reports the
  serial number, READ CAPACITY reports the size of the disk, and exactly which requests make
  MODE SENSE and READ CAPACITY (16) leave their buffers.
\<close>

unbundle bit_operations_syntax

section \<open>Buffers\<close>

definition padded :: "qsio_scsiio \<Rightarrow> nat \<Rightarrow> nat" where
  "padded ctio n = (if init_int ctio = TARGET_INT_ISCSI then (n + 3) div 4 * 4 else n)"

lemma and_3_mod: "unat (x AND 3) = unat x mod 4" for x :: u32
proof -
  have "x AND 3 = take_bit 2 x" by (simp add: take_bit_eq_mask mask_eq_exp_minus_1)
  then show ?thesis by (simp only: unat_take_bit) simp
qed

lemma pad_4: "n mod 4 \<noteq> 0 \<Longrightarrow> n + (4 - n mod 4) = (n + 3) div 4 * 4" for n :: nat
proof -
  assume a: "n mod 4 \<noteq> 0"
  define q r where "q = n div 4" and "r = n mod 4"
  have n: "n = 4 * q + r" "r < 4" "0 < r" using a by (simp_all add: q_def r_def)
  have "(n + 3) div 4 = q + 1" by (rule div_nat_eqI) (use n in simp_all)
  then show ?thesis using n by (simp add: r_def [symmetric])
qed

lemma pad_0: "n mod 4 = 0 \<Longrightarrow> (n + 3) div 4 * 4 = n" for n :: nat
  by (auto elim!: dvdE simp: mod_eq_0_iff_dvd)

lemma padded_ge: "n \<le> padded ctio n"
proof -
  have "n \<le> (n + 3) div 4 * 4" using pad_4 [of n] pad_0 [of n] by (metis le_add1 order_refl)
  then show ?thesis by (simp add: padded_def)
qed

lemma allocate_exact:
  assumes "allocates alloc" "n < 65536"
  shows "\<exists>b. ctio_allocate_buffer alloc ctio (of_nat n) = ctio\<lparr>data_ptr := Some b, dxfer_len := of_nat n\<rparr> \<and>
     length b = padded ctio n"
proof -
  let ?l = "of_nat n :: u32"
  have n: "unat ?l = n" using assms(2) by (simp add: unsigned_of_nat take_bit_nat_eq_self)
  define len where "len = (if init_int ctio = TARGET_INT_ISCSI \<and> ?l AND 3 \<noteq> 0 then ?l + (3 + 1 - (?l AND 3)) else ?l)"
  have m: "unat (?l AND 3) = n mod 4" by (simp only: and_3_mod n)
  then have z: "?l AND 3 = 0 \<longleftrightarrow> n mod 4 = 0" by (metis unat_eq_zero)
  have "n mod 4 < 4" by simp
  then have d: "unat (3 + 1 - (?l AND 3)) = 4 - n mod 4"
    using m by (simp add: unat_sub word_le_nat_alt del: word_and_le1)
  have "unat (?l + (3 + 1 - (?l AND 3))) = n + (4 - n mod 4)"
    using assms(2) by (subst unat_add_lem [THEN iffD1]) (simp_all only: n d, simp_all)
  then have len: "unat len = padded ctio n"
    using n z pad_4 [of n] pad_0 [of n] unfolding len_def padded_def by (cases "n mod 4 = 0") auto
  obtain b where b: "alloc (unat len) = Some b" "length b = unat len" using assms(1) unfolding allocates_def by blast
  then show ?thesis using len by (intro exI [of _ b]) (auto simp: ctio_allocate_buffer_def Let_def len_def)
qed

lemma put_length: "put b off bytes = Some b' \<Longrightarrow> length b' = length b"
  by (auto simp: put_def split: if_splits)

section \<open>INQUIRY\<close>

definition disk_wf :: "disk \<Rightarrow> bool" where
  "disk_wf d \<longleftrightarrow> length (vendor_id (unit_identifier d)) = 8 \<and> length (product_id (unit_identifier d)) = 16 \<and>
     length (serial_number (unit_identifier d)) = 40 \<and> length (naa_id (naa_identifier d)) = 16 \<and>
     unat (identifier_length (unit_identifier d)) \<le> 63 \<and> naa_identifier_length (naa_identifier d) = 16"

lemma tdisk_initialize_wf:
  assumes "tdisk_initialize d0 sn = Some d" "length (serial_number (unit_identifier d0)) = 40"
  shows "disk_wf d"
proof -
  have l: "length sn + 1 \<le> 40" using assms(1) by (auto simp: tdisk_initialize_def split: if_splits)
  then have "unat (24 + of_nat (length sn) :: u8) = 24 + length sn"
    by (simp add: unat_word_ariths unsigned_of_nat take_bit_nat_eq_self)
  then show ?thesis using assms l
    by (auto simp: disk_wf_def tdisk_initialize_def Let_def device_init_unit_identifier_def device_init_naa_identifier_def
        VENDOR_ID_QUADSTOR_def PRODUCT_ID_QUADSTOR_SAN_def convert_serialnumber_to_hash_def split: if_splits)
qed

lemmas vpd_page_defs = tdisk_serial_number_def tdisk_copy_vital_product_page_info_def tdisk_copy_block_limits_vpd_page_def
  tdisk_copy_block_device_characteristics_vpd_page_def tdisk_copy_logical_block_provisioning_vpd_page_def
  tdisk_copy_extended_inquiry_vpd_page_def tdisk_copy_third_party_copy_vpd_page_def Let_def

lemma vpd_bodies [simp]:
  "length (tdisk_init_block_limits_page d) = 64" "length (tdisk_init_logical_block_provisioning_page d) = 8"
  "length (rod_token_limits_descriptor d) = 36" "length supported_third_party_commands_descriptor = 16"
  "length rod_token_features_descriptor = 96" "length supported_rod_types_descriptor = 200"
  "length generic_copy_operations_descriptor = 34" "length tdisk_init_inquiry_data = 96"
  by (simp_all add: tdisk_init_block_limits_page_def Let_def tdisk_init_logical_block_provisioning_page_def
      rod_token_limits_descriptor_def supported_third_party_commands_descriptor_def rod_token_features_descriptor_def
      supported_rod_types_descriptor_def generic_copy_operations_descriptor_def tdisk_init_inquiry_data_def
      VENDOR_ID_QUADSTOR_def PRODUCT_ID_QUADSTOR_SAN_def)

lemma device_identification_ok:
  assumes "disk_wf d" "1024 \<le> length b"
  shows "\<exists>b'. tdisk_device_identification d b n = (Some b', min n (unat (identifier_length (unit_identifier d)) + 28)) \<and>
     length b' = length b \<and>
     take (unat (identifier_length (unit_identifier d)) + 4) (drop 4 b') =
       take (unat (identifier_length (unit_identifier d)) + 4) (unit_identifier_bytes (unit_identifier d))"
proof -
  define L U N where "L = unat (identifier_length (unit_identifier d))"
    and "U = take (L + 4) (unit_identifier_bytes (unit_identifier d))"
    and "N = take 20 (naa_identifier_bytes (naa_identifier d))"
  have l: "L \<le> 63" "length U = L + 4" "length N = 20" "unat (naa_identifier_length (naa_identifier d)) = 16"
    using assms(1) by (auto simp: disk_wf_def L_def U_def N_def unit_identifier_bytes_def naa_identifier_bytes_def)
  define hdr :: "u8 list" where "hdr = [0, 0x83, 0, of_nat (L + 4 + 20)]"
  have h: "length hdr = 4" by (simp add: hdr_def)
  define b1 where "b1 = take 0 b @ hdr @ drop (0 + length hdr) b"
  define b2 where "b2 = take 4 b1 @ U @ drop (L + 8) b1"
  define b3 where "b3 = take (L + 8) b2 @ N @ drop (L + 28) b2"
  have len: "length b1 = length b" "length b2 = length b" "length b3 = length b"
    using assms(2) l h by (simp_all add: b1_def b2_def b3_def)
  have "put b 0 hdr = Some b1" using assms(2) h unfolding put_def b1_def by simp
  moreover have "put b1 4 U = Some b2" using assms(2) l len by (simp add: put_def b2_def add.commute)
  moreover have "put b2 (L + 8) N = Some b3" using assms(2) l len by (simp add: put_def b3_def add.commute)
  ultimately have "tdisk_device_identification d b n = (Some b3, min n (L + 28))"
    by (simp add: tdisk_device_identification_def Let_def l(4) L_def [symmetric] U_def [symmetric] N_def [symmetric]
        hdr_def ac_simps)
  moreover have "take (L + 4) (drop 4 b3) = U"
    using assms(2) l len h by (simp add: b3_def b2_def b1_def)
  ultimately show ?thesis using len(3) by (intro exI [of _ b3]) (simp add: L_def [symmetric] U_def [symmetric])
qed

lemma evpd_page_ok:
  assumes "disk_wf d" "1024 \<le> length b" "evpd_page d pc b n = Some (x, r)"
  shows "\<exists>b'. x = Some b' \<and> length b' = length b \<and> r \<le> n"
  using assms device_identification_ok [OF assms(1,2), of n] unfolding evpd_page_def
  by (auto simp: vpd_page_defs put_def le_bytes_def split: if_splits)

lemma evpd_inquiry_ok:
  assumes "disk_wf d" "allocates alloc" "al \<noteq> 0"
  shows "\<exists>ctio'. tdisk_evpd_inquiry_data alloc d ctio pc al = In_ok ctio' \<and> unat (dxfer_len ctio') \<le> unat al \<and>
     (dxfer_len ctio' \<noteq> 0 \<longrightarrow> (\<exists>b. data_ptr ctio' = Some b \<and> unat (dxfer_len ctio') \<le> length b \<and> 0 < length b)) \<and>
     init_int ctio' = init_int ctio \<and>
     (pc = 0x83 \<longrightarrow> (\<exists>b b'. 1024 \<le> length b \<and> tdisk_device_identification d b (unat al) = (Some b', unat (dxfer_len ctio')) \<and>
        data_ptr ctio' = Some b'))"
proof -
  let ?m = "max 1024 (unat al)"
  have m: "?m < 65536" using unat_less_16 [of al] by simp
  from allocate_exact [OF assms(2) m, of ctio] obtain b
    where b: "ctio_allocate_buffer alloc ctio (of_nat ?m) = ctio\<lparr>data_ptr := Some b, dxfer_len := of_nat ?m\<rparr>"
      "length b = padded ctio ?m" by blast
  then have len: "?m \<le> length b" using padded_ge [of ?m ctio] by simp
  obtain z where z: "put b 0 (replicate ?m 0) = Some z" "length z = length b"
    using put_Some [of 0 "replicate ?m 0" b] len by auto
  show ?thesis
  proof (cases "evpd_page d pc z (unat al)")
    case None
    then have "pc \<noteq> 0x83" by (auto simp: evpd_page_def split: if_splits)
    then show ?thesis using None z b(1)
      by (simp add: tdisk_evpd_inquiry_data_def Let_def ctio_construct_sense_def ctio_allocate_sense_def ctio_free_data_def)
  next
    case (Some p)
    obtain x r where p: "p = (x, r)" by fastforce
    with evpd_page_ok [OF assms(1), of z pc "unat al" x r] Some z(2) len obtain b'
      where b': "x = Some b'" "length b' = length z" "r \<le> unat al" by auto
    then have "r < 65536" using unat_less_16 [of al] by linarith
    then have "r < 2 ^ 32" by simp
    then have r: "unat (of_nat r :: u32) = r" by (simp add: unsigned_of_nat take_bit_nat_eq_self)
    have "tdisk_evpd_inquiry_data alloc d ctio pc al = In_ok (ctio\<lparr>data_ptr := Some b', dxfer_len := of_nat r\<rparr>)"
      using Some p b'(1) z(1) b(1) by (simp add: tdisk_evpd_inquiry_data_def Let_def respond_def)
    moreover have "pc = 0x83 \<Longrightarrow> \<exists>b. 1024 \<le> length b \<and> tdisk_device_identification d b (unat al) = (Some b', r)"
      using Some p b'(1) z(2) len by (intro exI [of _ z]) (simp add: evpd_page_def)
    ultimately show ?thesis using b'(2,3) r len z(2) by auto
  qed
qed

lemma standard_inquiry_ok:
  assumes "allocates alloc" "al \<noteq> 0"
  shows "\<exists>ctio' b. tdisk_standard_inquiry_data alloc ctio al = In_ok ctio' \<and> data_ptr ctio' = Some b \<and> 0 < length b \<and>
     unat (dxfer_len ctio') \<le> unat al \<and> unat (dxfer_len ctio') \<le> length b \<and> init_int ctio' = init_int ctio"
proof -
  let ?m = "min al 96"
  have u: "ucast ?m = (of_nat (unat ?m) :: u32)" by simp
  have m: "unat ?m < 65536" by simp
  from allocate_exact [OF assms(1) m, of ctio] obtain b
    where b: "ctio_allocate_buffer alloc ctio (ucast ?m) = ctio\<lparr>data_ptr := Some b, dxfer_len := ucast ?m\<rparr>"
      "length b = padded ctio (unat ?m)" unfolding u by blast
  then have len: "unat ?m \<le> length b" using padded_ge [of "unat ?m" ctio] by simp
  have "unat ?m = min (unat al) 96" by (simp add: min_def word_le_nat_alt)
  then have le: "unat ?m \<le> 96" "unat ?m \<le> unat al" by simp_all
  have pos: "0 < unat ?m" using assms(2) by (simp add: min_def unat_gt_0)
  from le(1) len obtain b' where b': "put b 0 (take (unat ?m) tdisk_init_inquiry_data) = Some b'" "length b' = length b"
    using put_Some [of 0 "take (unat ?m) tdisk_init_inquiry_data" b] by auto
  have "tdisk_standard_inquiry_data alloc ctio al =
      In_ok (ctio\<lparr>scsi_status := SCSI_STATUS_OK, data_ptr := Some b', dxfer_len := ucast ?m\<rparr>)"
    using b(1) b'(1) by (simp add: tdisk_standard_inquiry_data_def Let_def respond_def)
  then show ?thesis using b'(2) len le(2) pos by (auto simp: unat_ucast16)
qed

lemma identification_serial:
  assumes "tdisk_initialize d0 sn = Some d" "length (serial_number (unit_identifier d0)) = 40"
    and "1024 \<le> length b" "tdisk_device_identification d b n = (Some b', r)" "32 + length sn \<le> n"
  shows "32 + length sn \<le> r \<and> take (length sn) (drop 32 b') = sn"
proof -
  have l: "length sn + 1 \<le> 40" using assms(1) by (auto simp: tdisk_initialize_def split: if_splits)
  then have u: "unat (24 + of_nat (length sn) :: u8) = 24 + length sn"
    by (simp add: unat_word_ariths unsigned_of_nat take_bit_nat_eq_self)
  define p where "p = [2, 1, 0, 24 + of_nat (length sn)] @ VENDOR_ID_QUADSTOR @ PRODUCT_ID_QUADSTOR_SAN"
  define t where "t = 0 # drop (length sn + 1) (serial_number (unit_identifier d0))"
  have d: "identifier_length (unit_identifier d) = 24 + of_nat (length sn)"
      and pt: "unit_identifier_bytes (unit_identifier d) = p @ sn @ t"
    using assms(1) by (auto simp: tdisk_initialize_def Let_def device_init_unit_identifier_def unit_identifier_bytes_def
        p_def t_def split: if_splits)
  have p: "length p = 28" by (simp add: p_def VENDOR_ID_QUADSTOR_def PRODUCT_ID_QUADSTOR_SAN_def)
  from device_identification_ok [OF tdisk_initialize_wf [OF assms(1,2)] assms(3), of n] assms(4)
  have e: "r = min n (24 + length sn + 28)" "take (28 + length sn) (drop 4 b') = p @ sn"
    using pt p by (auto simp: d u)
  have "take (length sn) (drop 32 b') = drop 28 (take (28 + length sn) (drop 4 b'))"
    by (simp add: drop_take)
  with e p assms(5) show ?thesis by simp
qed

text \<open>
  C37. INQUIRY on an initialised disk is answered inside its buffer for every CDB, standard data and every vital
  product data page alike, with at most the allocation length; the device identification page of
  a sufficiently long response contains the serial number of the disk.
\<close>

theorem inquiry_bounded:
  assumes "tdisk_initialize d0 sn = Some d" "length (serial_number (unit_identifier d0)) = 40" "allocates alloc"
    and "dxfer_len ctio = 0"
  shows "\<exists>ctio'. tdisk_cmd_inquiry alloc d target_lun ctio = In_ok ctio' \<and> unat (dxfer_len ctio') \<le> unat (cdb16 ctio 3) \<and>
     (dxfer_len ctio' \<noteq> 0 \<longrightarrow> (\<exists>b. data_ptr ctio' = Some b \<and> unat (dxfer_len ctio') \<le> length b)) \<and>
     (bit (cdb8 ctio 1) 0 \<and> cdb8 ctio 2 = 0x83 \<and> 32 + length sn \<le> unat (cdb16 ctio 3) \<and>
        (init_int ctio \<noteq> TARGET_INT_ISCSI \<or> target_lun = 0) \<longrightarrow>
        (\<exists>b. data_ptr ctio' = Some b \<and> 32 + length sn \<le> unat (dxfer_len ctio') \<and> take (length sn) (drop 32 b) = sn))"
proof -
  have wf: "disk_wf d" by (rule tdisk_initialize_wf [OF assms(1,2)])
  define al where "al = cdb16 ctio 3"
  show ?thesis
  proof (cases "(\<not> bit (cdb8 ctio 1) 0 \<and> cdb8 ctio 2 \<noteq> 0) \<or> al = 0")
    case True
    then show ?thesis using assms(4)
      by (auto simp: tdisk_cmd_inquiry_def Let_def al_def ctio_construct_sense_def ctio_allocate_sense_def)
  next
    case False
    then have nz: "al \<noteq> 0" by simp
    define R where "R = (if \<not> bit (cdb8 ctio 1) 0 then tdisk_standard_inquiry_data alloc ctio al
        else tdisk_evpd_inquiry_data alloc d ctio (cdb8 ctio 2) al)"
    have "\<exists>c. R = In_ok c \<and> unat (dxfer_len c) \<le> unat al \<and>
       (dxfer_len c \<noteq> 0 \<longrightarrow> (\<exists>b. data_ptr c = Some b \<and> unat (dxfer_len c) \<le> length b \<and> 0 < length b)) \<and>
       (bit (cdb8 ctio 1) 0 \<and> cdb8 ctio 2 = 0x83 \<longrightarrow> (\<exists>b b'. 1024 \<le> length b \<and>
          tdisk_device_identification d b (unat al) = (Some b', unat (dxfer_len c)) \<and> data_ptr c = Some b'))"
      using standard_inquiry_ok [OF assms(3) nz, of ctio] evpd_inquiry_ok [OF wf assms(3) nz, of ctio "cdb8 ctio 2"]
      unfolding R_def by (cases "bit (cdb8 ctio 1) 0") fastforce+
    then obtain c where c: "R = In_ok c" "unat (dxfer_len c) \<le> unat al"
        "dxfer_len c \<noteq> 0 \<longrightarrow> (\<exists>b. data_ptr c = Some b \<and> unat (dxfer_len c) \<le> length b \<and> 0 < length b)"
        "bit (cdb8 ctio 1) 0 \<and> cdb8 ctio 2 = 0x83 \<longrightarrow> (\<exists>b b'. 1024 \<le> length b \<and>
          tdisk_device_identification d b (unat al) = (Some b', unat (dxfer_len c)) \<and> data_ptr c = Some b')" by blast
    have i: "tdisk_cmd_inquiry alloc d target_lun ctio =
       (if dxfer_len c \<noteq> 0 \<and> init_int ctio = TARGET_INT_ISCSI \<and> target_lun \<noteq> 0
        then respond c (Option.bind (data_ptr c) (\<lambda>b. put b 0 [0x7F])) 1 else In_ok c)"
      using False c(1) unfolding tdisk_cmd_inquiry_def Let_def al_def [symmetric] R_def [symmetric] by auto
    have s: "\<exists>b. data_ptr c = Some b \<and> 32 + length sn \<le> unat (dxfer_len c) \<and> take (length sn) (drop 32 b) = sn"
      if "bit (cdb8 ctio 1) 0" "cdb8 ctio 2 = 0x83" "32 + length sn \<le> unat al"
      using c(4) that identification_serial [OF assms(1,2)] by fastforce
    show ?thesis
    proof (cases "dxfer_len c \<noteq> 0 \<and> init_int ctio = TARGET_INT_ISCSI \<and> target_lun \<noteq> 0")
      case True
      with c(3) obtain b where b: "data_ptr c = Some b" "1 \<le> length b" by (auto simp: Suc_le_eq)
      have "unat al \<noteq> 0" using nz by (simp only: unat_eq_0 not_False_eq_True)
      then show ?thesis using True b i by (auto simp: put_def respond_def al_def [symmetric])
    next
      case no: False
      then show ?thesis using c(2,3) s i by (auto simp: al_def [symmetric])
    qed
  qed
qed

section \<open>MODE SENSE\<close>

text \<open>What the steps after the header keep: the buffer's size, and an offset within the allocation length.\<close>

definition mode_acc :: "nat \<Rightarrow> nat \<Rightarrow> bool \<Rightarrow> nat \<times> nat \<times> u8 list option \<Rightarrow> bool" where
  "mode_acc al P ok acc \<longleftrightarrow> (case acc of (avail, offset, b) \<Rightarrow> offset \<le> al \<and> (b \<noteq> None \<longleftrightarrow> ok) \<and> (\<forall>x. b = Some x \<longrightarrow> length x = P))"

lemma add_mode_page_acc:
  assumes "mode_acc al P ok acc" "al \<le> P"
  shows "mode_acc al P ok (add_mode_page wanted page al acc)"
proof -
  obtain avail offset b where acc: "acc = (avail, offset, b)" by (cases acc)
  define m where "m = min (length page) (al - offset)"
  have "offset + m \<le> al" "length (take m page) = m" using assms(1) by (auto simp: mode_acc_def acc m_def)
  moreover have "\<exists>y. put x offset (take m page) = Some y \<and> length y = P" if "b = Some x" for x
    using put_Some [of offset "take m page" x] assms calculation that by (auto simp: mode_acc_def acc)
  ultimately show ?thesis using assms(1)
    by (cases b) (auto simp: mode_acc_def acc add_mode_page_def Let_def m_def [symmetric])
qed

lemma current_values_acc:
  assumes "off \<le> al" "al \<le> P" "b \<noteq> None \<longleftrightarrow> ok" "\<forall>x. b = Some x \<longrightarrow> length x = P"
  shows "mode_acc al P ok (mode_sense_current_values d b al pc off)"
proof -
  have "mode_acc al P ok (0, off, b)" using assms by (simp add: mode_acc_def)
  then show ?thesis unfolding mode_sense_current_values_def Let_def by (intro add_mode_page_acc assms(2))
qed

lemma mode_sense_body_overrun:
  assumes "allocates alloc" "al < 65536" "0 < al" "hdr = 4 \<and> fld = 1 \<or> hdr = 8 \<and> fld = 2"
    and P_def: "P = padded ctio al"
  shows "(mode_sense_body alloc d ctio al hdr fld = In_overrun \<longleftrightarrow>
       P < hdr \<or> \<not> bit (cdb8 ctio 1) 3 \<and> hdr < al \<and> P < hdr + 8) \<and>
     (mode_sense_body alloc d ctio al hdr fld \<noteq> In_overrun \<longrightarrow>
       (\<exists>ctio'. mode_sense_body alloc d ctio al hdr fld = In_ok ctio' \<and> unat (dxfer_len ctio') \<le> al))"
proof -
  obtain b where b: "ctio_allocate_buffer alloc ctio (of_nat al) = ctio\<lparr>data_ptr := Some b, dxfer_len := of_nat al\<rparr>" "length b = P"
    using allocate_exact [OF assms(1,2), of ctio] unfolding P_def by blast
  have dp: "data_ptr (ctio\<lparr>data_ptr := Some b, dxfer_len := of_nat al\<rparr>) = Some b" by simp
  have P: "al \<le> P" unfolding P_def by (rule padded_ge)
  obtain z where z: "put b 0 (replicate al 0) = Some z" "length z = P" using put_Some [of 0 "replicate al 0" b] P b(2) by auto
  define dbd where "dbd = bit (cdb8 ctio 1) 3"
  define off0 where "off0 = min al hdr"
  define blk where "blk = (if \<not> dbd then mode_sense_block_descriptor d (Some z) al off0 else (off0, Some z))"
  obtain off1 b1 where blk1: "blk = (off1, b1)" by fastforce
  have B1: "off1 \<le> al" "b1 \<noteq> None \<longleftrightarrow> \<not> (\<not> dbd \<and> hdr < al \<and> P < hdr + 8)" "\<forall>x. b1 = Some x \<longrightarrow> length x = P"
    using blk1 z(2) by (auto simp: blk_def mode_sense_block_descriptor_def Let_def off0_def put_def split: if_splits)
  define b2 where "b2 = Option.bind b1 (\<lambda>b. put b (hdr - fld) (be_bytes fld (if \<not> dbd then 8 else 0)))"
  have B2: "b2 \<noteq> None \<longleftrightarrow> b1 \<noteq> None \<and> hdr \<le> P" "\<forall>x. b2 = Some x \<longrightarrow> length x = P"
    using B1(3) assms(4) by (auto simp: b2_def put_def split: bind_splits if_splits)
  define vals where "vals = (if drop_bit 6 (cdb8 ctio 2) = 1 then (0, off1, b2)
      else mode_sense_current_values d b2 al (cdb8 ctio 2 AND 0x3F) off1)"
  have "mode_acc al P (b2 \<noteq> None) vals"
    using current_values_acc [OF B1(1) P refl B2(2)] B1(1) B2(2) by (auto simp: vals_def mode_acc_def)
  moreover obtain more off3 b3 where v: "vals = (more, off3, b3)" by (cases vals)
  ultimately have B3: "off3 \<le> al" "b3 \<noteq> None \<longleftrightarrow> b2 \<noteq> None" "\<forall>x. b3 = Some x \<longrightarrow> length x = P" by (auto simp: mode_acc_def)
  define b4 where "b4 = Option.bind b3 (\<lambda>b. put b 0 (be_bytes fld (of_nat ((if \<not> dbd then hdr + 8 else hdr) + more - fld))))"
  have B4: "b4 \<noteq> None \<longleftrightarrow> b3 \<noteq> None"
    using B2(1) B3(2,3) assms(4) by (cases b3) (auto simp: b4_def put_def)
  have "mode_sense_body alloc d ctio al hdr fld = respond (ctio\<lparr>data_ptr := Some b, dxfer_len := of_nat al\<rparr>) b4 (of_nat off3)"
    unfolding mode_sense_body_def Let_def b(1) dp option.case z(1) off0_def [symmetric] dbd_def [symmetric] blk_def [symmetric] blk1
      prod.case b2_def [symmetric] vals_def [symmetric] v b4_def [symmetric] by (rule refl)
  moreover have "unat (of_nat off3 :: u32) = off3" using B3(1) assms(2) by (simp add: unsigned_of_nat take_bit_nat_eq_self)
  ultimately show ?thesis using B1(2) B2(1) B3(1,2) B4 unfolding dbd_def [symmetric]
    by (cases b4) (auto simp: respond_def)
qed

lemma unat_cdb16: "unat (cdb16 ctio k) < 65536" by simp

text \<open>
  C39. Exactly which MODE SENSE commands write past their response buffer: those whose buffer is shorter than the
  mode parameter header, and those that ask for the block descriptor with an allocation length that
  cuts it off, unless the padding of an iSCSI buffer leaves room for it. Every other one is answered with at most
  the allocation length.
\<close>

theorem mode_sense_overrun:
  assumes "allocates alloc"
    and "al = unat (cdb8 ctio 4) \<and> hdr = 4 \<and> 3 \<le> al \<and> res = tdisk_cmd_mode_sense6 alloc d ctio \<or>
         al = unat (cdb16 ctio 7) \<and> hdr = 8 \<and> 6 \<le> al \<and> res = tdisk_cmd_mode_sense10 alloc d ctio"
  shows "(res = In_overrun \<longleftrightarrow> padded ctio al < hdr \<or> \<not> bit (cdb8 ctio 1) 3 \<and> hdr < al \<and> padded ctio al < hdr + 8) \<and>
     (res \<noteq> In_overrun \<longrightarrow> (\<exists>ctio'. res = In_ok ctio' \<and> unat (dxfer_len ctio') \<le> al))"
  using assms(2)
proof (elim disjE conjE)
  assume a: "al = unat (cdb8 ctio 4)" "hdr = 4" "3 \<le> al" "res = tdisk_cmd_mode_sense6 alloc d ctio"
  then have "res = mode_sense_body alloc d ctio al 4 1" by (simp add: tdisk_cmd_mode_sense6_def Let_def)
  moreover have "al < 65536" using a(1) unat_less_8 [of "cdb8 ctio 4"] by linarith
  ultimately show ?thesis using mode_sense_body_overrun [OF assms(1), of al hdr 1 _ ctio d, OF _ _ _ refl] a(2,3) by simp
next
  assume a: "al = unat (cdb16 ctio 7)" "hdr = 8" "6 \<le> al" "res = tdisk_cmd_mode_sense10 alloc d ctio"
  then have "res = mode_sense_body alloc d ctio al 8 2" by (simp add: tdisk_cmd_mode_sense10_def Let_def)
  moreover have "al < 65536" unfolding a(1) by (rule unat_less_16)
  ultimately show ?thesis using mode_sense_body_overrun [OF assms(1), of al hdr 2 _ ctio d, OF _ _ _ refl] a(2,3) by simp
qed

section \<open>READ CAPACITY\<close>

lemma put_whole: "length bytes = length b \<Longrightarrow> put b 0 bytes = Some bytes"
  by (simp add: put_def)

lemma block_count32_fits:
  assumes "0 < end_lba d"
  shows "take_bit 32 (block_count32 d) = block_count32 d"
proof (rule take_bit_unat_less)
  have "end_lba d - 1 \<le> end_lba d" using inc_le [OF assms] by (intro word_sub_le) simp
  then show "unat (block_count32 d) < 2 ^ 32"
    by (auto simp: block_count32_def word_le_nat_alt word_less_nat_alt)
qed

text \<open>
  C38. READ CAPACITY (10) and (16) report the address of the last block, the short form saturated, and the block
  size. The long form announces as many bytes as the client's allocation length although its
  buffer has 32: for a larger allocation length the client receives memory beyond the response.
\<close>

theorem read_capacity_reports:
  assumes "allocates alloc" "0 < end_lba d" "lba_shift d < 32"
    and "cdb64 c16 2 = 0" "cdb8 c16 1 AND 0x1F = 0x10" "0 < cdb32 c16 10" "cdb32 c10 2 = 0"
  shows "\<exists>r16 b16 r10 b10. tdisk_cmd_service_action_in alloc d c16 = In_ok r16 \<and> data_ptr r16 = Some b16 \<and>
     tdisk_cmd_read_capacity alloc d c10 = In_ok r10 \<and> data_ptr r10 = Some b10 \<and>
     be_read b16 0 8 = end_lba d - 1 \<and> be_read b16 8 4 = 2 ^ lba_shift d \<and>
     be_read b10 0 4 = (if end_lba d > 0xFFFFFFFF then 0xFFFFFFFF else end_lba d - 1) \<and> be_read b10 4 4 = 2 ^ lba_shift d \<and>
     length b16 = 32 \<and> dxfer_len r16 = cdb32 c16 10 \<and> length b10 = 8 \<and> dxfer_len r10 = 8"
proof -
  let ?w16 = "be_bytes 8 (end_lba d - 1) @ be_bytes 4 (push_bit (lba_shift d) 1) @ [0, 0, 0x80 OR 0x40, 0] @ replicate 16 0"
  let ?w10 = "be_bytes 4 (block_count32 d) @ be_bytes 4 (push_bit (lba_shift d) 1)"
  obtain a where a: "ctio_allocate_buffer alloc c16 32 = c16\<lparr>data_ptr := Some a, dxfer_len := 32\<rparr>" "length a = 32"
    using allocate_exact [OF assms(1), of 32 c16] by (auto simp: padded_def)
  obtain b where b: "ctio_allocate_buffer alloc c10 8 = c10\<lparr>data_ptr := Some b, dxfer_len := 8\<rparr>" "length b = 8"
    using allocate_exact [OF assms(1), of 8 c10] by (auto simp: padded_def)
  have "tdisk_cmd_service_action_in alloc d c16 = In_ok (c16\<lparr>data_ptr := Some ?w16, dxfer_len := cdb32 c16 10\<rparr>)"
    using a assms(4-6) by (simp add: tdisk_cmd_service_action_in_def Let_def put_whole respond_def)
  moreover have "tdisk_cmd_read_capacity alloc d c10 = In_ok (c10\<lparr>data_ptr := Some ?w10, dxfer_len := 8\<rparr>)"
    using b assms(7) by (simp add: tdisk_cmd_read_capacity_def Let_def put_whole respond_def)
  moreover have "be_read ?w16 0 8 = end_lba d - 1"
    by (subst be_read_be_bytes [of 8 0 _ "end_lba d - 1"]) (simp_all add: take_bit_word_eq_self)
  moreover have s: "take_bit 32 (2 ^ lba_shift d :: u64) = 2 ^ lba_shift d"
    using assms(3) by (intro bit_word_eqI) (auto simp: bit_simps bit_exp_iff)
  moreover have "be_read ?w16 8 4 = 2 ^ lba_shift d"
    by (subst be_read_be_bytes [of 4 8 _ "push_bit (lba_shift d) 1"]) (simp_all add: s)
  moreover have "be_read ?w10 4 4 = 2 ^ lba_shift d"
    by (subst be_read_be_bytes [of 4 4 _ "push_bit (lba_shift d) 1"]) (simp_all add: s)
  moreover have "be_read ?w10 0 4 = block_count32 d"
    by (subst be_read_be_bytes [of 4 0 _ "block_count32 d"]) (simp_all add: block_count32_fits [OF assms(2)])
  ultimately show ?thesis by (simp add: block_count32_def)
qed

section \<open>Witnesses\<close>

definition sample_unit :: disk where
  "sample_unit = \<lparr>lba_shift = 12, end_lba = 1000, threshold = 0,
     unit_identifier = \<lparr>code_set = 0, identifier_type = 0, identifier_length = 0, vendor_id = [], product_id = [], serial_number = replicate 40 0\<rparr>,
     naa_identifier = \<lparr>naa_code_set = 0, naa_identifier_type = 0, naa_identifier_length = 0, naa_id = []\<rparr>\<rparr>"

theorem inquiry_bounded_witness:
  "\<exists>d ctio' b. tdisk_initialize sample_unit (replicate 32 0x31) = Some d \<and>
     tdisk_cmd_inquiry zero_alloc d 0 ((sample_in 0)\<lparr>cdb := [INQUIRY, 1, 0x83, 0, 255, 0]\<rparr>) = In_ok ctio' \<and>
     data_ptr ctio' = Some b \<and> take 32 (drop 32 b) = replicate 32 0x31"
proof -
  obtain d where d: "tdisk_initialize sample_unit (replicate 32 0x31) = Some d" by (simp add: tdisk_initialize_def Let_def)
  have "unat (be_read [INQUIRY, 1, 0x83, 0, 255, 0] 3 2) = 255" by code_simp
  then have "unat (cdb16 ((sample_in 0)\<lparr>cdb := [INQUIRY, 1, 0x83, 0, 255, 0]\<rparr>) 3) = 255" by (simp add: unat_ucast_mod)
  with inquiry_bounded [OF d _ zero_alloc_allocates, of "(sample_in 0)\<lparr>cdb := [INQUIRY, 1, 0x83, 0, 255, 0]\<rparr>" 0]
  show ?thesis using d by (auto simp: sample_unit_def sample_in_def)
qed

theorem mode_sense_overrun_witness:
  "tdisk_cmd_mode_sense6 zero_alloc sample_unit ((sample_in 0)\<lparr>cdb := [MODE_SENSE_6, 0, 0x3F, 0, 8, 0]\<rparr>) = In_overrun"
  using mode_sense_overrun [OF zero_alloc_allocates, of 8 "(sample_in 0)\<lparr>cdb := [MODE_SENSE_6, 0, 0x3F, 0, 8, 0]\<rparr>" 4 _ sample_unit]
  by (simp add: padded_def sample_in_def)

theorem read_capacity_reports_witness:
  "\<exists>r16 b16. tdisk_cmd_service_action_in zero_alloc sample_unit
       ((sample_in 0)\<lparr>cdb := [SERVICE_ACTION_IN, 0x10, 0, 0, 0, 0, 0, 0, 0, 0, 0, 0, 0x10, 0, 0, 0]\<rparr>) = In_ok r16 \<and>
     data_ptr r16 = Some b16 \<and> length b16 = 32 \<and> dxfer_len r16 = 4096 \<and> be_read b16 0 8 = 999"
proof -
  let ?c = "(sample_in 0)\<lparr>cdb := [SERVICE_ACTION_IN, 0x10, 0, 0, 0, 0, 0, 0, 0, 0, 0, 0, 0x10, 0, 0, 0]\<rparr>"
  have "be_read [SERVICE_ACTION_IN, 0x10, 0, 0, 0, 0, 0, 0, 0, 0, 0, 0, 0x10, 0, 0, 0] 2 8 = 0"
    "be_read [SERVICE_ACTION_IN, 0x10, 0, 0, 0, 0, 0, 0, 0, 0, 0, 0, 0x10, 0, 0, 0] 10 4 = 4096"
    "be_read (replicate 16 0) 2 4 = 0" by code_simp+
  with read_capacity_reports [OF zero_alloc_allocates, of sample_unit ?c "sample_in 0"]
  show ?thesis by (auto simp: sample_unit_def sample_in_def)
qed

end
