(* ===== verification/DataCmdProps.thy ===== *)
theory DataCmdProps
  imports DataCmd LbaLockProps DiskInfoProps
begin

text \<open>
  Which sectors UNMAP and WRITE SAME erase: exactly those the command names on a disk with 4096-byte sectors, provided
  the loop of WRITE SAME ends, and the wrong ones for a short unaligned range on a disk with
  512-byte sectors.
\<close>

unbundle bit_operations_syntax

section \<open>Ranges\<close>

lemma reached_eom_bound:
  assumes "\<not> reached_eom d lba n" "unat (end_lba d) < 9223372036854775808"
  shows "unat lba + unat n \<le> unat (end_lba d)"
proof -
  have l: "unat lba < unat (end_lba d)" and s: "unat (lba + ucast n) \<le> unat (end_lba d)"
    using assms(1) by (auto simp: reached_eom_def word_less_nat_alt word_le_nat_alt split: if_splits)
  have "unat n < 4294967296" by (rule unat_less_32)
  then have "unat lba + unat n < 18446744073709551616" using l assms(2) by linarith
  then have "unat (lba + ucast n) = unat lba + unat n" by (subst unat_add_lem [THEN iffD1]) simp_all
  with s show ?thesis by simp
qed

lemma reached_eomI:
  assumes "unat lba < unat (end_lba d)" "unat lba + unat n \<le> unat (end_lba d)"
  shows "\<not> reached_eom d lba n"
proof -
  have "unat (end_lba d) < 18446744073709551616" by (rule unat_less_64)
  then have "unat lba + unat n < 18446744073709551616" using assms(2) by linarith
  then have "unat (lba + ucast n) = unat lba + unat n" by (subst unat_add_lem [THEN iffD1]) simp_all
  with assms show ?thesis by (simp add: reached_eom_def word_less_nat_alt word_le_nat_alt)
qed

lemma reached_eom_iff:
  assumes "unat (end_lba d) < 9223372036854775808"
  shows "reached_eom d lba n \<longleftrightarrow> unat (end_lba d) \<le> unat lba \<or> unat (end_lba d) < unat lba + unat n"
proof (cases "reached_eom d lba n")
  case True
  with reached_eomI [of lba d n] show ?thesis by linarith
next
  case False
  then have "unat lba < unat (end_lba d)" by (auto simp: reached_eom_def word_less_nat_alt word_le_nat_alt split: if_splits)
  with False reached_eom_bound [OF False assms] show ?thesis by simp
qed

lemma align_size_8:
  assumes "unat lba < 9223372036854775808"
  shows "unat (align_size lba 8) = 8 * ((unat lba + 7) div 8)"
proof -
  have "align_size lba 8 = (lba + 7) AND - 8" by (simp add: align_size_def)
  moreover have "unat (lba + 7) = unat lba + 7" using assms by (subst unat_add_lem [THEN iffD1]) simp_all
  ultimately show ?thesis by (simp add: unat_and_minus_8)
qed

text \<open>The sectors a list of zeroing writes covers, in order.\<close>

definition zeroed :: "zero_write list \<Rightarrow> nat list" where
  "zeroed ws = concat (map (\<lambda>(lba, n, pages). [unat lba..<unat lba + unat n]) ws)"

lemma zeroed_simps [simp]:
  "zeroed [] = []" "zeroed (ws @ [(lba, n, pages)]) = zeroed ws @ [unat lba..<unat lba + unat n]"
  by (simp_all add: zeroed_def)

section \<open>WRITE SAME\<close>

lemma write_same_loop_done:
  "unat nb < 4294967296 \<Longrightarrow> unat lba + unat nb \<le> unat (end_lba d) \<Longrightarrow> unat (end_lba d) < 9223372036854775808 \<Longrightarrow>
   \<exists>ws. write_same_loop (\<lambda>_. True) (\<lambda>_ _. True) d lba nb done = Some (Same_done, ws) \<and>
     zeroed ws = zeroed done @ [unat lba..<unat lba + unat nb]"
proof (induction "unat nb" arbitrary: lba nb "done" rule: less_induct)
  case less
  show ?case
  proof (cases "nb = 0")
    case True
    then show ?thesis by (subst write_same_loop.simps) simp
  next
    case False
    define mb :: u32 where "mb = (if lba_shift d = LBA_SHIFT then 512 else 4096)"
    define todo where "todo = min (ucast nb) mb"
    define item where "item = (lba, todo, transfer_length_to_pglist_cnt (lba_shift d) todo)"
    have c: "unat (ucast nb :: u32) = unat nb" using less.prems(1) by (simp add: unat_ucast_mod)
    have "unat nb \<noteq> 0" using False by (simp add: unat_eq_zero)
    moreover have "unat todo = min (unat nb) (unat mb)" using c by (simp add: todo_def min_def word_le_nat_alt)
    moreover have "0 < unat mb" by (simp add: mb_def)
    ultimately have t: "0 < unat todo" "unat todo \<le> unat nb" by auto
    have nb: "unat (nb - ucast todo) = unat nb - unat todo" using t(2) by (simp add: unat_sub word_le_nat_alt)
    have "unat lba + unat (ucast todo :: u64) < 2 ^ 64" using t(2) less.prems(2,3) by simp
    then have lba: "unat (lba + ucast todo) = unat lba + unat todo" by (subst unat_add_lem [THEN iffD1]) simp_all
    have e: "\<not> reached_eom d lba todo"
      by (rule reached_eomI) (use t less.prems in linarith)+
    have "\<exists>ws. write_same_loop (\<lambda>_. True) (\<lambda>_ _. True) d (lba + ucast todo) (nb - ucast todo) (done @ [item]) = Some (Same_done, ws) \<and>
        zeroed ws = zeroed (done @ [item]) @ [unat (lba + ucast todo)..<unat (lba + ucast todo) + unat (nb - ucast todo)]"
      by (rule less.hyps) (use t nb lba less.prems in simp_all)
    moreover have "[unat lba..<unat lba + unat todo] @ [unat lba + unat todo..<unat lba + unat todo + (unat nb - unat todo)] =
        [unat lba..<unat lba + unat nb]" using t(2) upt_add_eq_append [of "unat lba" "unat lba + unat todo" "unat nb - unat todo"] by simp
    moreover have "write_same_loop (\<lambda>_. True) (\<lambda>_ _. True) d lba nb done =
        write_same_loop (\<lambda>_. True) (\<lambda>_ _. True) d (lba + ucast todo) (nb - ucast todo) (done @ [item])"
      using False e by (subst write_same_loop.simps) (simp add: Let_def mb_def todo_def item_def)
    ultimately show ?thesis using nb lba by (simp add: item_def)
  qed
qed

lemma borrow_32:
  fixes nb :: u64
  assumes "todo \<le> (ucast nb :: u32)" "unat (nb - ucast todo) < 4294967296"
  shows "unat nb < 4294967296"
proof -
  have t: "unat todo \<le> unat nb mod 4294967296" using assms(1) by (simp add: word_le_nat_alt unat_ucast_mod)
  then have "unat todo \<le> unat nb" using mod_less_eq_dividend order_trans by blast
  then have "unat (nb - ucast todo) = unat nb - unat todo" by (simp add: unat_sub word_le_nat_alt)
  with assms(2) have "unat nb - unat todo < 4294967296" by simp
  moreover have "unat nb = 4294967296 * (unat nb div 4294967296) + unat nb mod 4294967296" by simp
  ultimately have "4294967296 * (unat nb div 4294967296) < 4294967296" using t by linarith
  then have "unat nb div 4294967296 = 0" by simp
  then show ?thesis by (simp add: div_eq_0_iff)
qed

text \<open>On a range that lies on the disk the loop ends only when the count fits into 32 bits.\<close>

definition loop_bounded :: "(u32 \<Rightarrow> bool) \<Rightarrow> (u64 \<Rightarrow> u32 \<Rightarrow> bool) \<Rightarrow> disk \<Rightarrow> u64 \<Rightarrow> u64 \<Rightarrow> bool" where
  "loop_bounded pages_ok write_ok d lba nb \<longleftrightarrow>
     ((\<forall>n. pages_ok n) \<longrightarrow> (\<forall>l n. write_ok l n) \<longrightarrow> unat lba + unat nb \<le> unat (end_lba d) \<longrightarrow>
      unat nb < 4294967296)"

lemma loop_bounded_step:
  assumes ih: "\<And>pages_ok write_ok d lba nb done r. f pages_ok write_ok d lba nb done = Some r \<Longrightarrow> loop_bounded pages_ok write_ok d lba nb"
    and step: "(if nb = 0 then Some (Same_done, done)
        else let min_blocks = if lba_shift d = 12 then 512 else 4096; todo = min (ucast nb) min_blocks;
          pglist_cnt = transfer_length_to_pglist_cnt (lba_shift d) todo
          in if \<not> pages_ok pglist_cnt then Some (Same_nomem, done)
             else if reached_eom d lba todo then Some (Same_failed, done)
             else if \<not> write_ok lba todo then Some (Same_failed, done @ [(lba, todo, pglist_cnt)])
             else f pages_ok write_ok d (lba + ucast todo) (nb - ucast todo) (done @ [(lba, todo, pglist_cnt)])) = Some r"
  shows "loop_bounded pages_ok write_ok d lba (nb :: u64)"
proof -
  define mb :: u32 where "mb = (if lba_shift d = 12 then 512 else 4096)"
  define todo where "todo = min (ucast nb) mb"
  show ?thesis unfolding loop_bounded_def
  proof (intro impI)
    assume ok: "\<forall>n. pages_ok n" "\<forall>l n. write_ok l n" and range: "unat lba + unat nb \<le> unat (end_lba d)"
    show "unat nb < 4294967296"
    proof (cases "nb = 0")
      case False
      have t: "todo \<le> ucast nb" by (simp add: todo_def)
      then have "unat todo \<le> unat nb mod 4294967296" by (simp add: word_le_nat_alt unat_ucast_mod)
      then have u: "unat todo \<le> unat nb" using mod_less_eq_dividend order_trans by blast
      have "0 < unat nb" using False by (simp add: unat_gt_0)
      then have e: "\<not> reached_eom d lba todo" by (intro reached_eomI) (use u range in linarith)+
      have "unat (end_lba d) < 18446744073709551616" by (rule unat_less_64)
      then have "unat lba + unat todo < 18446744073709551616" using u range by linarith
      then have "unat (lba + ucast todo) = unat lba + unat todo" by (subst unat_add_lem [THEN iffD1]) simp_all
      moreover have "unat (nb - ucast todo) = unat nb - unat todo" using u by (simp add: unat_sub word_le_nat_alt)
      ultimately have r: "unat (lba + ucast todo) + unat (nb - ucast todo) \<le> unat (end_lba d)" using u range by simp
      obtain a where "f pages_ok write_ok d (lba + ucast todo) (nb - ucast todo) a = Some r"
        using step ok e False unfolding Let_def mb_def [symmetric] todo_def [symmetric] by auto
      then have "unat (nb - ucast todo) < 4294967296" using ih ok r unfolding loop_bounded_def by blast
      then show ?thesis by (rule borrow_32 [OF t])
    qed simp
  qed
qed

lemma write_same_loop_small:
  assumes "write_same_loop pages_ok write_ok d lba nb done = Some r"
  shows "loop_bounded pages_ok write_ok d lba nb"
  using assms
proof (rule write_same_loop.raw_induct [where P = "\<lambda>pages_ok write_ok d lba nb done r. loop_bounded pages_ok write_ok d lba nb", rotated])
qed (rule loop_bounded_step)

text \<open>A count that runs past the end of the disk: every whole chunk up to the end is written first.\<close>

lemma write_same_loop_overrun:
  "nb \<noteq> 0 \<Longrightarrow> unat nb < 4294967296 \<Longrightarrow> unat (end_lba d) < unat lba + unat nb \<Longrightarrow> unat (end_lba d) < 9223372036854775808 \<Longrightarrow>
   lba_shift d \<noteq> LBA_SHIFT \<Longrightarrow>
   \<exists>ws. write_same_loop (\<lambda>_. True) (\<lambda>_ _. True) d lba nb done = Some (Same_failed, ws) \<and>
     zeroed ws = zeroed done @ [unat lba..<unat lba + 4096 * ((unat (end_lba d) - unat lba) div 4096)]"
proof (induction "unat nb" arbitrary: lba nb "done" rule: less_induct)
  case less
  define todo where "todo = min (ucast nb) (4096 :: u32)"
  define item where "item = (lba, todo, transfer_length_to_pglist_cnt (lba_shift d) todo)"
  have c: "unat (ucast nb :: u32) = unat nb" using less.prems(2) by (simp add: unat_ucast_mod)
  have t: "unat todo = min (unat nb) 4096" using c by (simp add: todo_def min_def word_le_nat_alt)
  show ?case
  proof (cases "reached_eom d lba todo")
    case True
    then have "unat (end_lba d) - unat lba < 4096" using t less.prems unfolding reached_eom_iff [OF less.prems(4)] by linarith
    then have "(unat (end_lba d) - unat lba) div 4096 = 0" by simp
    moreover have "write_same_loop (\<lambda>_. True) (\<lambda>_ _. True) d lba nb done = Some (Same_failed, done)"
      using True less.prems(1,5) by (subst write_same_loop.simps) (simp add: Let_def todo_def)
    ultimately show ?thesis by simp
  next
    case False
    then have l: "unat lba + unat todo \<le> unat (end_lba d)" unfolding reached_eom_iff [OF less.prems(4)] by linarith
    then have t': "unat todo = 4096" "4096 < unat nb" using t less.prems(3) by linarith+
    have nb: "unat (nb - ucast todo) = unat nb - 4096" using t' by (simp add: unat_sub word_le_nat_alt)
    have "unat lba + unat (ucast todo :: u64) < 2 ^ 64" using l less.prems(4) by simp
    then have lba: "unat (lba + ucast todo) = unat lba + 4096" using t' by (subst unat_add_lem [THEN iffD1]) simp_all
    define q where "q = unat (end_lba d) - (unat lba + 4096)"
    define m where "m = q div 4096"
    have "unat (end_lba d) - unat lba = q + 4096" using l t' by (simp add: q_def)
    then have m: "(unat (end_lba d) - unat lba) div 4096 = m + 1" by (simp add: m_def)
    have "unat (nb - ucast todo) \<noteq> 0" using nb t' by linarith
    then have "nb - ucast todo \<noteq> 0" by (simp add: unat_eq_zero)
    then have "\<exists>ws. write_same_loop (\<lambda>_. True) (\<lambda>_ _. True) d (lba + ucast todo) (nb - ucast todo) (done @ [item]) = Some (Same_failed, ws) \<and>
        zeroed ws = zeroed (done @ [item]) @ [unat (lba + ucast todo)..<unat (lba + ucast todo) + 4096 * ((unat (end_lba d) - unat (lba + ucast todo)) div 4096)]"
      by (intro less.hyps) (use t' nb lba less.prems in simp_all)
    then have "\<exists>ws. write_same_loop (\<lambda>_. True) (\<lambda>_ _. True) d (lba + ucast todo) (nb - ucast todo) (done @ [item]) = Some (Same_failed, ws) \<and>
        zeroed ws = zeroed done @ [unat lba..<unat lba + 4096] @ [unat lba + 4096..<unat lba + 4096 + 4096 * m]"
      unfolding lba q_def [symmetric] m_def [symmetric] by (simp add: item_def t')
    moreover have "[unat lba..<unat lba + 4096] @ [unat lba + 4096..<unat lba + 4096 + 4096 * m] = [unat lba..<unat lba + 4096 * (m + 1)]"
      using upt_add_eq_append [of "unat lba" "unat lba + 4096" "4096 * m"] by (simp add: algebra_simps)
    moreover have "write_same_loop (\<lambda>_. True) (\<lambda>_ _. True) d lba nb done =
        write_same_loop (\<lambda>_. True) (\<lambda>_ _. True) d (lba + ucast todo) (nb - ucast todo) (done @ [item])"
      using False less.prems(1,5) by (subst write_same_loop.simps) (simp add: Let_def todo_def item_def)
    ultimately show ?thesis unfolding m by simp
  qed
qed

lemma short_range:
  assumes "lba_shift d = 9" "unat lba < 9223372036854775808"
    and "unat n < 8 * ((unat lba + 7) div 8) - unat lba"
  shows "unmap_range d lba n = (align_size lba 8, 0xFFFFFFF8, 0xFFFFF)"
    "write_same_range d lba (ucast n) = (align_size lba 8, 0xFFFFFFF8)"
proof -
  define df where "df = align_size lba 8 - lba"
  have a: "unat (align_size lba 8) = 8 * ((unat lba + 7) div 8)" using assms(2) by (rule align_size_8)
  then have "lba \<le> align_size lba 8" using assms(3) by (simp add: word_le_nat_alt)
  then have df: "unat df = 8 * ((unat lba + 7) div 8) - unat lba" by (simp add: df_def unat_sub a)
  then have s: "unat n < unat df" "unat df < 8" using assms(3) by linarith+
  define k where "k = df - ucast n"
  have k: "unat k = unat df - unat n" using s by (simp add: k_def unat_sub word_le_nat_alt)
  have "k \<in> {1, 2, 3, 4, 5, 6, 7}" by (rule small_word_cases) (use k s in simp_all)
  moreover have "ucast n - df = - k" by (simp add: k_def)
  ultimately have "(ucast n - df) AND 0xFFFFFFF8 = 0xFFFFFFF8" by auto
  then show "write_same_range d lba (ucast n) = (align_size lba 8, 0xFFFFFFF8)"
    using assms(1) by (simp add: write_same_range_def Let_def df_def)
  define j where "j = ucast df - n"
  have "unat (ucast df :: u32) = unat df" using s(2) by (simp add: unat_ucast_mod)
  then have j: "unat j = unat df - unat n" using s by (simp add: j_def unat_sub word_le_nat_alt)
  have "j \<in> {1, 2, 3, 4, 5, 6, 7}" by (rule small_word_cases) (use j s in simp_all)
  moreover have "n - ucast df = - j" by (simp add: j_def)
  ultimately have "(n - ucast df) AND - 8 = 0xFFFFFFF8" by auto
  moreover have "transfer_length_to_pglist_cnt 9 0xFFFFFFF8 = 0xFFFFF" by (simp add: transfer_length_to_pglist_cnt_def)
  ultimately show "unmap_range d lba n = (align_size lba 8, 0xFFFFFFF8, 0xFFFFF)"
    using assms(1) by (simp add: unmap_range_def Let_def df_def)
qed

lemma write_same_cdb_loop:
  assumes "\<not> reached_eom d lba n" "\<not> (bit (cdb8 ctio 1) 1 \<and> bit (cdb8 ctio 1) 2)"
    and "lba_shift d = LBA_SHIFT \<or>
      \<not> bit (cdb8 ctio 1) 1 \<and> \<not> bit (cdb8 ctio 1) 2 \<and> take (2 ^ lba_shift d) page = replicate (2 ^ lba_shift d) 0"
    and "nb = (if n = 0 then end_lba d - lba else ucast n)" "nb \<noteq> 0" "write_same_range d lba nb = (l, m)"
  shows "write_same_cdb (\<lambda>_. True) (\<lambda>_ _. True) d ctio page lba n =
    map_option (same_completion (ctio\<lparr>data_ptr := None, dxfer_len := 0, pglist_cnt := 0\<rparr>))
      (write_same_loop (\<lambda>_. True) (\<lambda>_ _. True) d l m [])"
proof -
  have "ucast n = (0 :: u64) \<longleftrightarrow> n = 0" by (simp flip: unat_eq_zero)
  then have nb: "(if ucast n = (0 :: u64) then end_lba d - lba else ucast n) = nb" by (simp add: assms(4))
  from assms(1-3,5,6) show ?thesis
    unfolding write_same_cdb_def tdisk_cmd_write_same_int_def Let_def nb by auto
qed

text \<open>
  C8. WRITE SAME(16) on a disk with 4096-byte sectors, given a range that lies on the disk, memory for every chunk and
  writes that succeed: when the command covers fewer than \<open>2 ^ 32\<close> blocks (a count of zero stands for the
  rest of the disk) it ends, completes the command, and the writes it issued cover exactly the requested blocks,
  in order and each once. When it covers more, the loop never ends: the chunk size is computed
  in 32 bits and becomes zero.
\<close>

theorem write_same_terminates:
  assumes "lba_shift d = LBA_SHIFT" "unat (end_lba d) < 9223372036854775808"
    and "\<not> reached_eom d (cdb64 ctio 2) (cdb32 ctio 10)" "\<not> (bit (cdb8 ctio 1) 1 \<and> bit (cdb8 ctio 1) 2)"
    and "first = unat (cdb64 ctio 2)"
    and "n = (if cdb32 ctio 10 = 0 then unat (end_lba d) - first else unat (cdb32 ctio 10))"
  shows "if n < 2 ^ 32
     then \<exists>ws. tdisk_cmd_write_same16 (\<lambda>_. True) (\<lambda>_ _. True) d ctio page =
              Some (Some (ctio\<lparr>data_ptr := None, dxfer_len := 0, pglist_cnt := 0\<rparr>), ws) \<and>
            zeroed ws = [first..<first + n]
     else tdisk_cmd_write_same16 (\<lambda>_. True) (\<lambda>_ _. True) d ctio page = None"
proof -
  define lba where "lba = cdb64 ctio 2"
  define nb where "nb = (if cdb32 ctio 10 = 0 then end_lba d - lba else ucast (cdb32 ctio 10))"
  have l: "unat lba < unat (end_lba d)" "unat lba + unat (cdb32 ctio 10) \<le> unat (end_lba d)"
    using assms(3) unfolding lba_def reached_eom_iff [OF assms(2)] by simp_all
  have nb: "unat nb = n" using l(1) by (simp add: nb_def assms(5,6) lba_def [symmetric] unat_sub word_le_nat_alt)
  have r: "unat lba + unat nb \<le> unat (end_lba d)" using l unfolding nb by (simp add: assms(5,6) lba_def [symmetric])
  have "0 < n" using l(1) by (simp add: assms(5,6) lba_def [symmetric] unat_gt_0)
  then have "nb \<noteq> 0" using nb by (auto simp: unat_eq_zero)
  then have cmd: "tdisk_cmd_write_same16 (\<lambda>_. True) (\<lambda>_ _. True) d ctio page =
      map_option (same_completion (ctio\<lparr>data_ptr := None, dxfer_len := 0, pglist_cnt := 0\<rparr>))
        (write_same_loop (\<lambda>_. True) (\<lambda>_ _. True) d lba nb [])"
    unfolding tdisk_cmd_write_same16_def lba_def
    by (intro write_same_cdb_loop) (use assms(1,3,4) in \<open>simp_all add: nb_def lba_def write_same_range_def\<close>)
  show ?thesis
  proof (cases "n < 2 ^ 32")
    case True
    then have "unat nb < 4294967296" by (simp add: nb)
    from write_same_loop_done [OF this r assms(2), of "[]"] show ?thesis
      using True nb by (auto simp: cmd assms(5) lba_def [symmetric])
  next
    case False
    then have "\<not> loop_bounded (\<lambda>_. True) (\<lambda>_ _. True) d lba nb" using r by (simp add: loop_bounded_def nb)
    then have "write_same_loop (\<lambda>_. True) (\<lambda>_ _. True) d lba nb [] = None" using write_same_loop_small by (metis option.exhaust)
    with False show ?thesis by (simp add: cmd)
  qed
qed

text \<open>
  C35. WRITE SAME(16) of a few zero sectors on a disk with 512-byte sectors, when the range ends before the first
  4096-byte boundary in it: the count underflows, so that instead of nothing every whole chunk of 4096 sectors from that
  boundary to the end of the disk is zeroed, none of which the command names, before the
  command fails. UNMAP turns such a range into a write of \<open>2 ^ 32 - 8\<close> sectors in the same way.
\<close>

theorem write_same_short_erases:
  assumes "lba_shift d = 9" "unat (end_lba d) < 2 ^ 32 - 8"
    and "\<not> reached_eom d (cdb64 ctio 2) (cdb32 ctio 10)" "\<not> bit (cdb8 ctio 1) 1" "\<not> bit (cdb8 ctio 1) 2"
    and "take 512 page = replicate 512 0" "first = unat (cdb64 ctio 2)" "n = unat (cdb32 ctio 10)"
    and "0 < n" "boundary = 8 * ((first + 7) div 8)" "first + n < boundary"
  shows "(\<exists>ws. tdisk_cmd_write_same16 (\<lambda>_. True) (\<lambda>_ _. True) d ctio page = Some (None, ws) \<and>
      zeroed ws = [boundary..<boundary + 4096 * ((unat (end_lba d) - boundary) div 4096)]) \<and>
    unmap_range d (cdb64 ctio 2) (cdb32 ctio 10) = (align_size (cdb64 ctio 2) 8, 2 ^ 32 - 8, 2 ^ 20 - 1)"
proof (intro conjI)
  have e: "unat (end_lba d) < 9223372036854775808" using assms(2) by simp
  then have l: "first < 9223372036854775808" using assms(3) unfolding reached_eom_iff [OF e] assms(7) by linarith
  note sr = short_range [OF assms(1) l [unfolded assms(7)], of "cdb32 ctio 10"]
  have short: "unat (cdb32 ctio 10) < 8 * ((unat (cdb64 ctio 2) + 7) div 8) - unat (cdb64 ctio 2)"
    using assms(8,10,11) unfolding assms(7) by linarith
  show "unmap_range d (cdb64 ctio 2) (cdb32 ctio 10) = (align_size (cdb64 ctio 2) 8, 2 ^ 32 - 8, 2 ^ 20 - 1)"
    using sr(1) [OF short] by simp
  have b: "unat (align_size (cdb64 ctio 2) 8) = boundary" using align_size_8 l assms(7,10) by simp
  have "cdb32 ctio 10 \<noteq> 0" using assms(8,9) by (auto simp: unat_eq_zero)
  then have cmd: "tdisk_cmd_write_same16 (\<lambda>_. True) (\<lambda>_ _. True) d ctio page =
      map_option (same_completion (ctio\<lparr>data_ptr := None, dxfer_len := 0, pglist_cnt := 0\<rparr>))
        (write_same_loop (\<lambda>_. True) (\<lambda>_ _. True) d (align_size (cdb64 ctio 2) 8) 0xFFFFFFF8 [])"
    unfolding tdisk_cmd_write_same16_def
    by (intro write_same_cdb_loop [where nb = "ucast (cdb32 ctio 10)"])
      (use assms(1,3,4,5,6) sr(2) [OF short] in \<open>simp_all add: unat_eq_zero [symmetric]\<close>)
  have "\<exists>ws. write_same_loop (\<lambda>_. True) (\<lambda>_ _. True) d (align_size (cdb64 ctio 2) 8) 0xFFFFFFF8 [] = Some (Same_failed, ws) \<and>
      zeroed ws = zeroed [] @ [boundary..<boundary + 4096 * ((unat (end_lba d) - boundary) div 4096)]"
    unfolding b [symmetric] by (rule write_same_loop_overrun) (use assms(1,2) e in simp_all)
  then show "\<exists>ws. tdisk_cmd_write_same16 (\<lambda>_. True) (\<lambda>_ _. True) d ctio page = Some (None, ws) \<and>
      zeroed ws = [boundary..<boundary + 4096 * ((unat (end_lba d) - boundary) div 4096)]"
    by (auto simp: cmd)
qed

section \<open>UNMAP\<close>

text \<open>The descriptors of a parameter list, and the ones a disk with 4096-byte sectors accepts.\<close>

definition unmap_descriptors :: "u8 list \<Rightarrow> nat \<Rightarrow> (u64 \<times> u32) list" where
  "unmap_descriptors buffer k = map (\<lambda>i. (be_read (drop (16 * i) buffer) 0 8, ucast (be_read (drop (16 * i) buffer) 8 4))) [0..<k]"

definition unmap_accepted :: "disk \<Rightarrow> u64 \<times> u32 \<Rightarrow> bool" where
  "unmap_accepted d e \<longleftrightarrow> snd e \<le> 512 \<and> \<not> reached_eom d (fst e) (snd e)"

lemma unmap_descriptors_Suc:
  "unmap_descriptors buffer (Suc k) = (be_read buffer 0 8, ucast (be_read buffer 8 4)) # unmap_descriptors (drop 16 buffer) k"
  unfolding unmap_descriptors_def upt_conv_Cons [OF zero_less_Suc] list.map map_Suc_upt [symmetric]
  by (simp add: add.commute)

lemma unmap_loop_result:
  assumes "lba_shift d = LBA_SHIFT"
  shows "unmap_loop (\<lambda>_. True) (\<lambda>_ _. True) d ctio buffer len done =
    (let ds = unmap_descriptors buffer (len div 16)
     in (Some (case find (\<lambda>e. \<not> unmap_accepted d e) ds of None \<Rightarrow> ctio
          | Some e \<Rightarrow> ctio_construct_sense ctio SSD_CURRENT_ERROR SSD_KEY_ILLEGAL_REQUEST 0
              (if snd e > 512 then INVALID_FIELD_IN_PARAMETER_LIST else LOGICAL_BLOCK_ADDRESS_OUT_OF_RANGE)),
         done @ map (\<lambda>(l, n). (l, n, n)) (filter (\<lambda>(l, n). n \<noteq> 0) (takeWhile (unmap_accepted d) ds))))"
proof (induction len arbitrary: buffer "done" rule: less_induct)
  case (less len)
  show ?case
  proof (cases "len < 16")
    case True
    then show ?thesis by (subst unmap_loop.simps) (simp add: unmap_descriptors_def)
  next
    case False
    then obtain k where k: "len div 16 = Suc k" "(len - 16) div 16 = k" by (cases "len div 16") (auto simp: div_eq_0_iff le_div_geq)
    have "len - 16 < len" using False by simp
    note IH = less.IH [OF this]
    define e :: "u64 \<times> u32" where "e = (be_read buffer 0 8, ucast (be_read buffer 8 4))"
    have u: "unmap_range d (fst e) (snd e) = (fst e, snd e, snd e)" using assms by (simp add: unmap_range_def)
    have "unmap_loop (\<lambda>_. True) (\<lambda>_ _. True) d ctio buffer len done =
      (if snd e > 512 then (Some (ctio_construct_sense ctio SSD_CURRENT_ERROR SSD_KEY_ILLEGAL_REQUEST 0 INVALID_FIELD_IN_PARAMETER_LIST), done)
       else if reached_eom d (fst e) (snd e) then (Some (ctio_construct_sense ctio SSD_CURRENT_ERROR SSD_KEY_ILLEGAL_REQUEST 0 LOGICAL_BLOCK_ADDRESS_OUT_OF_RANGE), done)
       else unmap_loop (\<lambda>_. True) (\<lambda>_ _. True) d ctio (drop 16 buffer) (len - 16) (if snd e = 0 then done else done @ [(fst e, snd e, snd e)]))"
      using False u assms by (subst unmap_loop.simps) (simp add: Let_def e_def)
    moreover have "unmap_descriptors buffer (len div 16) = e # unmap_descriptors (drop 16 buffer) k"
      unfolding k e_def by (rule unmap_descriptors_Suc)
    ultimately show ?thesis unfolding IH k(2) Let_def by (cases "unmap_accepted d e") (auto simp: unmap_accepted_def not_le case_prod_beta dest: leD)
  qed
qed

text \<open>
  C14. UNMAP on a disk with 4096-byte sectors, for a parameter list whose lengths agree with the transfer, with memory and
  writes that succeed. The descriptors are served in order up to the first one that names more than 512 blocks
  or blocks past the end of the disk: each of them that is not empty becomes one zeroing write of exactly its blocks,
  all of which lie on the disk. The command ends with good status when every descriptor was served,
  otherwise with the sense data for the offending one.
\<close>

theorem unmap_serves_descriptors:
  assumes "lba_shift d = LBA_SHIFT" "unat (end_lba d) < 9223372036854775808"
    and "4 < cdb16 ctio 7" "data_ptr ctio = Some buffer" "0 < len" "unat (be_read buffer 2 2) = len"
    and "unat (dxfer_len ctio) = len + 8" "unat (be_read buffer 0 2) + 2 = len + 8"
    and "ds = unmap_descriptors (drop 8 buffer) (len div 16)"
    and "served = filter (\<lambda>(l, n). n \<noteq> 0) (takeWhile (\<lambda>(l, n). n \<le> 512 \<and> \<not> reached_eom d l n) ds)"
  shows "tdisk_cmd_unmap (\<lambda>_. True) (\<lambda>_ _. True) d ctio =
      (Some (case find (\<lambda>(l, n). n > 512 \<or> reached_eom d l n) ds of
           None \<Rightarrow> ctio\<lparr>data_ptr := None, dxfer_len := 0\<rparr>
         | Some (l, n) \<Rightarrow> ctio_construct_sense (ctio\<lparr>data_ptr := None, dxfer_len := 0\<rparr>) SSD_CURRENT_ERROR SSD_KEY_ILLEGAL_REQUEST 0
             (if n > 512 then INVALID_FIELD_IN_PARAMETER_LIST else LOGICAL_BLOCK_ADDRESS_OUT_OF_RANGE)),
       map (\<lambda>(l, n). (l, n, n)) served) \<and>
     list_all (\<lambda>(l, n). unat l + unat n \<le> unat (end_lba d)) served"
proof (intro conjI)
  have a: "unmap_accepted d = (\<lambda>(l, n). n \<le> 512 \<and> \<not> reached_eom d l n)"
    "(\<lambda>e. \<not> unmap_accepted d e) = (\<lambda>(l, n). n > 512 \<or> reached_eom d l n)"
    by (auto simp: fun_eq_iff unmap_accepted_def)
  show "list_all (\<lambda>(l, n). unat l + unat n \<le> unat (end_lba d)) served"
    using reached_eom_bound [OF _ assms(2)] by (auto simp: assms(10) list_all_iff dest!: set_takeWhileD)
  have "tdisk_cmd_unmap (\<lambda>_. True) (\<lambda>_ _. True) d ctio =
      unmap_loop (\<lambda>_. True) (\<lambda>_ _. True) d (ctio\<lparr>data_ptr := None, dxfer_len := 0\<rparr>) (drop 8 buffer) len []"
    using assms(3-8) unfolding tdisk_cmd_unmap_def Let_def by (auto dest: leD)
  then show "tdisk_cmd_unmap (\<lambda>_. True) (\<lambda>_ _. True) d ctio =
      (Some (case find (\<lambda>(l, n). n > 512 \<or> reached_eom d l n) ds of
           None \<Rightarrow> ctio\<lparr>data_ptr := None, dxfer_len := 0\<rparr>
         | Some (l, n) \<Rightarrow> ctio_construct_sense (ctio\<lparr>data_ptr := None, dxfer_len := 0\<rparr>) SSD_CURRENT_ERROR SSD_KEY_ILLEGAL_REQUEST 0
             (if n > 512 then INVALID_FIELD_IN_PARAMETER_LIST else LOGICAL_BLOCK_ADDRESS_OUT_OF_RANGE)),
       map (\<lambda>(l, n). (l, n, n)) served)"
    unfolding unmap_loop_result [OF assms(1)] a(2) unfolding a(1) assms(9) [symmetric] Let_def assms(10) by (simp split: option.split)
qed

section \<open>Examples\<close>

abbreviation (input) same16 :: "u8 \<Rightarrow> u8 \<Rightarrow> qsio_scsiio" where
  "same16 lba n \<equiv> (sample_in 0)\<lparr>cdb := [0x93, 0, 0, 0, 0, 0, 0, 0, 0, lba, 0, 0, 0, n, 0, 0]\<rparr>"

theorem write_same_terminates_witness:
  "(\<exists>ctio' ws. tdisk_cmd_write_same16 (\<lambda>_. True) (\<lambda>_ _. True) (sample_unit\<lparr>end_lba := 0x200000000\<rparr>) (same16 5 3) [] =
      Some (Some ctio', ws) \<and> zeroed ws = [5, 6, 7]) \<and>
   tdisk_cmd_write_same16 (\<lambda>_. True) (\<lambda>_ _. True) (sample_unit\<lparr>end_lba := 0x200000000\<rparr>) (same16 5 0) [] = None"
proof -
  let ?d = "sample_unit\<lparr>end_lba := 0x200000000\<rparr>"
  have d: "lba_shift ?d = LBA_SHIFT" "end_lba ?d = 0x200000000" "unat (end_lba ?d) < 9223372036854775808" by (simp_all add: sample_unit_def)
  have 1: "be_read (cdb (same16 5 3)) 2 8 = 5" "be_read (cdb (same16 5 3)) 10 4 = 3"
      "be_read (cdb (same16 5 0)) 2 8 = 5" "be_read (cdb (same16 5 0)) 10 4 = 0"
    by (simp_all add: sample_in_def) code_simp+
  have "\<not> reached_eom ?d 5 3" "\<not> reached_eom ?d 5 0" by (simp_all add: reached_eom_iff d)
  with write_same_terminates [OF d(1,3), of "same16 5 3" 5 3 "[]"] write_same_terminates [OF d(1,3), of "same16 5 0" 5 "2 ^ 33 - 5" "[]"] 1
  show ?thesis by (auto simp: d(2) sample_in_def)
qed

theorem write_same_short_erases_witness:
  "\<exists>ws. tdisk_cmd_write_same16 (\<lambda>_. True) (\<lambda>_ _. True) (sample_unit\<lparr>lba_shift := 9, end_lba := 20000\<rparr>) (same16 1 2) (replicate 512 0) =
      Some (None, ws) \<and> zeroed ws = [8..<16392]"
proof -
  let ?d = "sample_unit\<lparr>lba_shift := 9, end_lba := 20000\<rparr>"
  have d: "lba_shift ?d = 9" "end_lba ?d = 20000" "unat (end_lba ?d) < 2 ^ 32 - 8" "unat (end_lba ?d) < 9223372036854775808" by (simp_all add: sample_unit_def)
  have 1: "be_read (cdb (same16 1 2)) 2 8 = 1" "be_read (cdb (same16 1 2)) 10 4 = 2"
    by (simp_all add: sample_in_def) code_simp+
  have "\<not> reached_eom ?d 1 2" by (simp add: reached_eom_iff [OF d(4)] d(2))
  moreover have "take 512 (replicate 512 (0 :: u8)) = replicate 512 0" unfolding take_replicate by (simp only: min.idem)
  moreover have e: "8 + 4096 * ((unat (end_lba ?d) - 8) div 4096) = 16392" by (simp add: d(2))
  ultimately show ?thesis using write_same_short_erases [OF d(1,3) _ _ _ _ refl refl, of "same16 1 2" "replicate 512 0" 8] 1
    unfolding e by (simp add: sample_in_def del: upt_rec_numeral)
qed

definition sample_unmap :: "u8 list" where
  "sample_unmap = [0, 38, 0, 32, 0, 0, 0, 0,
     0, 0, 0, 0, 0, 0, 0, 9, 0, 0, 0, 4, 0, 0, 0, 0,
     0, 0, 0, 0, 0, 0, 3, 0xE7, 0, 0, 0, 4, 0, 0, 0, 0]"

theorem unmap_serves_descriptors_witness:
  "\<exists>ctio'. tdisk_cmd_unmap (\<lambda>_. True) (\<lambda>_ _. True) sample_unit
      ((sample_in 0)\<lparr>cdb := [0x42, 0, 0, 0, 0, 0, 0, 0, 40, 0], data_ptr := Some sample_unmap, dxfer_len := 40\<rparr>) = (Some ctio', [(9, 4, 4)])"
proof -
  let ?c = "(sample_in 0)\<lparr>cdb := [0x42, 0, 0, 0, 0, 0, 0, 0, 40, 0], data_ptr := Some sample_unmap, dxfer_len := 40\<rparr>"
  have d: "lba_shift sample_unit = LBA_SHIFT" "end_lba sample_unit = 1000" "unat (end_lba sample_unit) < 9223372036854775808" by (simp_all add: sample_unit_def)
  have 1: "be_read (cdb ?c) 7 2 = 40" by (simp add: sample_in_def) code_simp
  have 2: "unmap_descriptors (drop 8 sample_unmap) 2 = [(9, 4), (999, 4)]" "be_read sample_unmap 2 2 = 32" "be_read sample_unmap 0 2 = 38" by code_simp+
  have "\<not> reached_eom sample_unit 9 4" "reached_eom sample_unit 999 4" by (simp_all add: reached_eom_iff [OF d(3)] d(2))
  with unmap_serves_descriptors [OF d(1,3), of ?c sample_unmap 32 "[(9, 4), (999, 4)]" "[(9, 4)]"] 1 2
  show ?thesis by simp
qed

end
