(* ===== verification/CopyMgrProps.thy ===== *)
theory CopyMgrProps
  imports CopyMgr DataCmdProps
begin

text \<open>
  The copy manager: references to tokens stay exact when commands interleave, and WRITE USING TOKEN copies
  the blocks the token stands for to the blocks the command names.
\<close>

unbundle bit_operations_syntax

section \<open>References to tokens\<close>

text \<open>
  The table and the commands that hold a token, by the token's address. The sections under the lock of the table are the steps:
  a new token, taking one, marking it for deletion and working on it while it is held, and giving it back.
\<close>

record rod_state =
  rs_mgr :: copy_mgr
  rs_users :: "nat list"

abbreviation token_addrs :: "copy_mgr \<Rightarrow> nat set" where
  "token_addrs m \<equiv> fst ` set (rod_token_list m)"

inductive rod_step :: "rod_state \<Rightarrow> rod_state \<Rightarrow> bool" where
  populate: "tdisk_cmd_populate_token ref_ok disks now a src (rs_mgr s) ctio = Token_sent c m \<Longrightarrow>
     a \<notin> token_addrs (rs_mgr s) \<Longrightarrow> a \<notin> set (rs_users s) \<Longrightarrow> rod_step s (s\<lparr>rs_mgr := m\<rparr>)"
| find_list: "rod_token_find_for_list_identifier now ctio l (rs_mgr s) = Some (a, m) \<Longrightarrow> rod_step s \<lparr>rs_mgr = m, rs_users = a # rs_users s\<rparr>"
| find_rod: "rod_token_find now i (rs_mgr s) = Some (a, m) \<Longrightarrow> rod_step s \<lparr>rs_mgr = m, rs_users = a # rs_users s\<rparr>"
| mark: "a \<in> set (rs_users s) \<Longrightarrow> rod_step s (s\<lparr>rs_mgr := on_token a (\<lambda>t. t\<lparr>del_token := True\<rparr>) (rs_mgr s)\<rparr>)"
| work: "a \<in> set (rs_users s) \<Longrightarrow>
     rod_step s (s\<lparr>rs_mgr := on_token a (\<lambda>t. t\<lparr>rt_list_identifier := l, rt_cmd_type := k, copy_operation_status := st, write_transfer_count := n\<rparr>) (rs_mgr s)\<rparr>)"
| put_back: "a \<in> set (rs_users s) \<Longrightarrow> rod_step s \<lparr>rs_mgr = rod_token_put a (rs_mgr s), rs_users = remove1 a (rs_users s)\<rparr>"

definition rod_idle :: rod_state where
  "rod_idle = \<lparr>rs_mgr = \<lparr>rod_token_list = [], rod_identifier = 0\<rparr>, rs_users = []\<rparr>"

definition token_ok :: "nat list \<Rightarrow> nat \<Rightarrow> rod_token_spec \<Rightarrow> bool" where
  "token_ok us a t \<longleftrightarrow> rt_refs t = 1 + int (count_list us a) \<and> (del_token t \<longrightarrow> a \<in> set us)"

definition rod_inv :: "rod_state \<Rightarrow> bool" where
  "rod_inv s \<longleftrightarrow> distinct (map fst (rod_token_list (rs_mgr s))) \<and> set (rs_users s) \<subseteq> token_addrs (rs_mgr s) \<and>
     (\<forall>a t. (a, t) \<in> set (rod_token_list (rs_mgr s)) \<longrightarrow> token_ok (rs_users s) a t)"

lemma rod_invI:
  assumes "distinct (map fst (rod_token_list m))" "\<And>a. a \<in> set us \<Longrightarrow> a \<in> token_addrs m"
    and "\<And>a t. (a, t) \<in> set (rod_token_list m) \<Longrightarrow> token_ok us a t"
  shows "rod_inv \<lparr>rs_mgr = m, rs_users = us\<rparr>"
  using assms by (simp add: rod_inv_def subset_iff)

lemma rod_invD:
  assumes "rod_inv \<lparr>rs_mgr = m, rs_users = us\<rparr>"
  shows "distinct (map fst (rod_token_list m))" "a \<in> set us \<Longrightarrow> a \<in> token_addrs m"
    and "(a, t) \<in> set (rod_token_list m) \<Longrightarrow> token_ok us a t"
  using assms by (auto simp: rod_inv_def)

lemma on_token_addrs [simp]: "map fst (rod_token_list (on_token a f m)) = map fst (rod_token_list m)"
  by (simp add: on_token_def split_def comp_def)

lemma on_token_fst [simp]: "token_addrs (on_token a f m) = token_addrs m"
  by (simp add: on_token_def image_image split_def)

lemma on_token_mem:
  assumes "(b, t) \<in> set (rod_token_list (on_token a f m))"
  obtains u where "(b, u) \<in> set (rod_token_list m)" "t = (if b = a then f u else u)"
  using assms by (auto simp: on_token_def)

text \<open>A change of a token that keeps its reference count, and its mark unless the token is held.\<close>

lemma rod_inv_on_token:
  assumes inv: "rod_inv \<lparr>rs_mgr = m, rs_users = us\<rparr>"
    and f: "\<And>t. rt_refs (f t) = rt_refs t" "\<And>t. del_token (f t) \<Longrightarrow> del_token t \<or> a \<in> set us"
  shows "rod_inv \<lparr>rs_mgr = on_token a f m, rs_users = us\<rparr>"
proof (rule rod_invI)
  show "token_ok us b t" if "(b, t) \<in> set (rod_token_list (on_token a f m))" for b t
    using that
  proof (rule on_token_mem)
    fix u
    assume "(b, u) \<in> set (rod_token_list m)" "t = (if b = a then f u else u)"
    then show ?thesis using rod_invD(3) [OF inv, of b u] f [of u] by (auto simp: token_ok_def)
  qed
qed (use rod_invD [OF inv] in simp_all)

lemma rod_inv_get:
  assumes inv: "rod_inv \<lparr>rs_mgr = m, rs_users = us\<rparr>" and get: "token_get P now m = Some (a, m')"
  shows "rod_inv \<lparr>rs_mgr = m', rs_users = a # us\<rparr>"
proof -
  from get obtain t where t: "find (\<lambda>(a, t). P t) (rod_token_list m) = Some (a, t)"
    and m: "m' = on_token a (\<lambda>t. t\<lparr>rt_timestamp := now, rt_refs := rt_refs t + 1\<rparr>) m"
    by (auto simp: token_get_def split: option.splits)
  then have "(a, t) \<in> set (rod_token_list m)" by (metis find_Some_iff nth_mem)
  then have a: "a \<in> token_addrs m" by force
  show ?thesis unfolding m
  proof (rule rod_invI)
    show "token_ok (a # us) b u" if "(b, u) \<in> set (rod_token_list (on_token a (\<lambda>t. t\<lparr>rt_timestamp := now, rt_refs := rt_refs t + 1\<rparr>) m))" for b u
      using that by (rule on_token_mem) (use rod_invD(3) [OF inv] in \<open>auto simp: token_ok_def\<close>)
  qed (use rod_invD(1,2) [OF inv] a in auto)
qed

lemma count_remove1: "a \<in> set l \<Longrightarrow> int (count_list (remove1 a l) b) = int (count_list l b) - (if a = b then 1 else 0)"
  by (induction l) auto

lemma rod_inv_put:
  assumes inv: "rod_inv \<lparr>rs_mgr = m, rs_users = us\<rparr>" and a: "a \<in> set us"
  shows "rod_inv \<lparr>rs_mgr = rod_token_put a m, rs_users = remove1 a us\<rparr>"
proof -
  let ?m = "on_token a (\<lambda>t. t\<lparr>rt_refs := rt_refs t - 1\<rparr>) m" and ?us = "remove1 a us"
  have d: "distinct (map fst (rod_token_list ?m))" using rod_invD(1) [OF inv] by simp
  have ok: "rt_refs t = 1 + int (count_list ?us b) \<and> (del_token t \<longrightarrow> b \<in> set us)" if "(b, t) \<in> set (rod_token_list ?m)" for b t
    unfolding count_remove1 [OF a] using that
    by (rule on_token_mem) (use rod_invD(3) [OF inv] in \<open>auto simp: token_ok_def\<close>)
  have "a \<in> token_addrs ?m" using rod_invD(2) [OF inv a] by simp
  then obtain t where t: "(a, t) \<in> set (rod_token_list ?m)" by force
  have mt: "map_of (rod_token_list ?m) a = Some t" using d t by (rule map_of_is_SomeI)
  have us: "b \<in> set ?us \<Longrightarrow> b \<in> set us" "b \<in> set us \<Longrightarrow> b \<noteq> a \<Longrightarrow> b \<in> set ?us" for b
    using notin_set_remove1 [of b us a] by auto
  have put: "rod_token_put a m = (if del_token t \<and> a \<notin> set ?us then ?m\<lparr>rod_token_list := filter (\<lambda>(b, t). b \<noteq> a) (rod_token_list ?m)\<rparr> else ?m)"
  proof -
    have "rt_refs t > 1 \<longleftrightarrow> a \<in> set ?us" using ok [OF t] count_list_0_iff [of ?us a] by linarith
    then show ?thesis by (auto simp: rod_token_put_def Let_def mt)
  qed
  show ?thesis
  proof (cases "del_token t \<and> a \<notin> set ?us")
    case True
    have m': "rod_token_put a m = ?m\<lparr>rod_token_list := filter (\<lambda>(b, t). b \<noteq> a) (rod_token_list ?m)\<rparr>" unfolding put using True by (rule if_P)
    show ?thesis unfolding m'
    proof (rule rod_invI)
      show "distinct (map fst (rod_token_list (?m\<lparr>rod_token_list := filter (\<lambda>(b, t). b \<noteq> a) (rod_token_list ?m)\<rparr>)))"
        using d by (simp add: distinct_map_filter)
      show "b \<in> token_addrs (?m\<lparr>rod_token_list := filter (\<lambda>(b, t). b \<noteq> a) (rod_token_list ?m)\<rparr>)" if "b \<in> set ?us" for b
      proof -
        have "b \<noteq> a" using True that by blast
        moreover have "b \<in> token_addrs ?m" using rod_invD(2) [OF inv us(1) [OF that]] by simp
        ultimately show ?thesis by force
      qed
      show "token_ok ?us b u" if "(b, u) \<in> set (rod_token_list (?m\<lparr>rod_token_list := filter (\<lambda>(b, t). b \<noteq> a) (rod_token_list ?m)\<rparr>))" for b u
        using that ok [of b u] us(2) [of b] by (simp add: token_ok_def)
    qed
  next
    case False
    then have m': "rod_token_put a m = ?m" unfolding put by (rule if_not_P)
    show ?thesis unfolding m'
    proof (rule rod_invI)
      show "token_ok ?us b u" if "(b, u) \<in> set (rod_token_list ?m)" for b u
      proof (cases "b = a")
        case True
        then have "u = t" using map_of_is_SomeI [OF d that] mt by simp
        then show ?thesis using ok [OF that] False True by (auto simp: token_ok_def)
      next
        case nb: False
        then show ?thesis using ok [OF that] us(2) by (simp add: token_ok_def)
      qed
    qed (use d rod_invD(2) [OF inv] us(1) in \<open>simp_all\<close>)
  qed
qed

lemma rod_inv_populate:
  assumes inv: "rod_inv \<lparr>rs_mgr = m, rs_users = us\<rparr>" and a: "a \<notin> token_addrs m" "a \<notin> set us"
    and p: "tdisk_cmd_populate_token ref_ok disks now a src m ctio = Token_sent c m'"
  shows "rod_inv \<lparr>rs_mgr = m', rs_users = us\<rparr>"
proof -
  have gen: "rt_refs t = rt_refs t0 \<and> del_token t = del_token t0" if "add_descriptors ref_ok d ctio descs t0 = Inr t" for d descs t0 t
    using that by (induction descs arbitrary: t0)
      (auto simp: rod_token_add_descriptor_def Let_def split: sum.splits option.splits)
  have new: "rod_inv \<lparr>rs_mgr = m\<lparr>rod_token_list := rod_token_list m @ [(a, t)], rod_identifier := i\<rparr>, rs_users = us\<rparr>"
    if "rt_refs t = 1" "\<not> del_token t" for t i
    by (rule rod_invI) (use rod_invD [OF inv] a that in \<open>auto simp: token_ok_def\<close>)
  show ?thesis
    using p inv by (auto simp: tdisk_cmd_populate_token_def Let_def rod_token_generate_def dest!: gen
        split: sum.splits prod.splits option.splits intro!: new)
qed

lemma rod_step_inv:
  assumes "rod_step s s'" "rod_inv s"
  shows "rod_inv s'"
proof -
  obtain m us where s: "s = \<lparr>rs_mgr = m, rs_users = us\<rparr>" by (cases s)
  from assms(1) show ?thesis
  proof cases
    case (populate ref_ok disks now a src ctio c m)
    then show ?thesis using rod_inv_populate assms(2) by (simp add: s)
  next
    case (find_list now ctio l a m)
    then show ?thesis using rod_inv_get assms(2) by (simp add: s rod_token_find_for_list_identifier_def)
  next
    case (find_rod now i a m)
    then show ?thesis using rod_inv_get assms(2) by (simp add: s rod_token_find_def)
  next
    case (mark a)
    then show ?thesis using rod_inv_on_token assms(2) by (simp add: s)
  next
    case (work a)
    then show ?thesis using rod_inv_on_token assms(2) by (simp add: s)
  next
    case (put_back a)
    then show ?thesis using rod_inv_put assms(2) by (simp add: s)
  qed
qed

lemma rod_reach_inv: "rod_step\<^sup>*\<^sup>* rod_idle s \<Longrightarrow> rod_inv s"
proof (induction rule: rtranclp_induct)
  case base
  show ?case by (simp add: rod_idle_def rod_inv_def)
next
  case (step s s')
  from rod_step_inv [OF step.hyps(2) step.IH] show ?case .
qed

lemma map_of_on_token: "map_of (map (\<lambda>(b, t). (b, if b = a then f t else t)) l) a = map_option f (map_of l a)"
  by (induction l) auto

lemma on_token_lookup: "map_of (rod_token_list (on_token a f m)) a = map_option f (map_of (rod_token_list m) a)"
  by (simp add: on_token_def map_of_on_token)

lemma map_of_filter_token:
  "distinct (map fst l) \<Longrightarrow> map_of l a = Some t \<Longrightarrow> map_of (filter (\<lambda>(b, t). Q t) l) a = (if Q t then Some t else None)"
proof (induction l)
  case (Cons x l)
  have "map_of (filter P l) (fst x) = None" for P using Cons.prems(1) by (auto simp: map_of_eq_None_iff)
  with Cons show ?case by (cases x) (auto split: if_splits)
qed simp

text \<open>
  C10. However the commands of several initiators interleave, a token that a command holds stays in the table, the reference
  count of every token is one more than the number of commands that hold it, and a token marked for deletion is held: it leaves
  the table with its last user. The time-out breaks this: it removes a token that was not looked up
  for its inactivity time-out whether it is held or not.
\<close>

theorem rod_token_references:
  assumes "rod_step\<^sup>*\<^sup>* rod_idle s" "a \<in> set (rs_users s)"
  shows "\<exists>t. map_of (rod_token_list (rs_mgr s)) a = Some t \<and> rt_refs t = 1 + int (count_list (rs_users s) a) \<and>
    list_all (\<lambda>(b, u). del_token u \<longrightarrow> b \<in> set (rs_users s)) (rod_token_list (rs_mgr s)) \<and>
    (del_token t \<longrightarrow> (map_of (rod_token_list (rod_token_put a (rs_mgr s))) a = None \<longleftrightarrow> count_list (rs_users s) a = 1)) \<and>
    (map_of (rod_token_list (copy_mgr_free_timedout_tokens ticks_to_msecs now (rs_mgr s))) a = None \<longleftrightarrow>
       unat (rt_timeout t * 1000) \<le> ticks_to_msecs (get_elapsed now (rt_timestamp t)))"
proof -
  obtain m us where s: "s = \<lparr>rs_mgr = m, rs_users = us\<rparr>" by (cases s)
  have inv: "rod_inv \<lparr>rs_mgr = m, rs_users = us\<rparr>" using rod_reach_inv [OF assms(1)] by (simp add: s)
  have a: "a \<in> set us" using assms(2) by (simp add: s)
  obtain t where t: "(a, t) \<in> set (rod_token_list m)" using rod_invD(2) [OF inv a] by force
  have d: "distinct (map fst (rod_token_list m))" by (rule rod_invD(1) [OF inv])
  have mt: "map_of (rod_token_list m) a = Some t" using d t by (rule map_of_is_SomeI)
  have refs: "rt_refs t = 1 + int (count_list us a)" using rod_invD(3) [OF inv t] by (simp add: token_ok_def)
  have ot: "map_of (rod_token_list (on_token a f m)) a = Some (f t)" for f by (simp add: on_token_lookup mt)
  have gone: "map_of (filter (\<lambda>(b, t). b \<noteq> a) l) a = None" for l :: "(nat \<times> rod_token_spec) list" by (induction l) auto
  have put: "map_of (rod_token_list (rod_token_put a m)) a = None \<longleftrightarrow> count_list us a = 1" if "del_token t"
    using that refs a count_list_0_iff [of us a] by (auto simp: rod_token_put_def Let_def ot gone)
  have "map_of (rod_token_list (copy_mgr_free_timedout_tokens ticks_to_msecs now m)) a = None \<longleftrightarrow>
      unat (rt_timeout t * 1000) \<le> ticks_to_msecs (get_elapsed now (rt_timestamp t))"
    by (simp add: copy_mgr_free_timedout_tokens_def map_of_filter_token [OF d mt] not_less)
  moreover have "list_all (\<lambda>(b, u). del_token u \<longrightarrow> b \<in> set us) (rod_token_list m)"
    using rod_invD(3) [OF inv] by (auto simp: list_all_iff token_ok_def)
  ultimately show ?thesis using mt refs put by (simp add: s)
qed

section \<open>What WRITE USING TOKEN copies\<close>

text \<open>The blocks of a token in order, and the pairs of destination and source block of a list of copies.\<close>

definition rod_blocks :: "rod_entry list \<Rightarrow> nat list" where
  "rod_blocks entries = concat (map (\<lambda>e. [unat (en_lba e)..<unat (en_lba e) + unat (en_num_blocks e)]) entries)"

definition copied_blocks :: "block_copy list \<Rightarrow> (nat \<times> nat) list" where
  "copied_blocks cs = concat (map (\<lambda>(d, n, s, k). zip [unat d..<unat d + unat n] [unat s..<unat s + unat k]) cs)"

lemma unat_push_bit_12: "unat x \<le> 1024 \<Longrightarrow> unat (push_bit 12 x) = 4096 * unat x" for x :: u32
  by (simp add: push_bit_eq_mult mult.commute unat_mult_lem [THEN iffD1])

lemma min_blocks_12:
  fixes x y :: u32
  assumes "unat x \<le> 1024" "unat y \<le> 1024"
  shows "drop_bit 12 (min (push_bit 12 x) (push_bit 12 y)) = min x y"
proof -
  have u: "unat (push_bit 12 x) = 4096 * unat x" "unat (push_bit 12 y) = 4096 * unat y" using assms by (simp_all add: unat_push_bit_12)
  have d: "drop_bit 12 (push_bit 12 z) = z" if "unat z \<le> 1024" for z :: u32
  proof -
    have "unat (drop_bit 12 (push_bit 12 z)) = unat z" unfolding unat_drop_bit_div by (simp add: unat_push_bit_12 [OF that])
    then show ?thesis by (rule word_unat_eq_iff [THEN iffD2])
  qed
  show ?thesis using assms u by (simp add: min_def word_le_nat_alt d)
qed

lemma copy_to_dest_range_ok:
  assumes "\<And>e i n. \<not> amap_modified env e i n" "\<And>c. mirror_check env c = None" "\<And>l n. ce_ref_ok env l n" "\<And>l n. ce_write_ok env l n"
    and "lba_shift src = 12" "en_lba_diff e = 0" "\<not> reached_eom src sl n" "\<not> reached_eom dest dl n"
  shows "copy_to_dest_range env dest src ctio dl n sl n e i k = Copied (ctio\<lparr>data_ptr := None, dxfer_len := 0, pglist_cnt := 0\<rparr>)"
  using assms by (simp add: copy_to_dest_range_def is_unaligned_extended_copy_def tdisk_cmd_ref_int_def Let_def)

definition entry_ok :: "disk \<Rightarrow> rod_entry \<Rightarrow> bool" where
  "entry_ok d e \<longleftrightarrow> en_lba_diff e = 0 \<and> 0 < unat (en_num_blocks e) \<and> unat (en_num_blocks e) \<le> 1024 \<and>
     unat (en_lba e) + unat (en_num_blocks e) \<le> unat (end_lba d)"

lemma zip_split_front:
  assumes "k \<le> n" "length xs = k \<or> k = n \<and> n \<le> length xs"
  shows "zip [d..<d + n] (xs @ ys) = zip [d..<d + k] xs @ zip [d + k..<d + n] ys"
proof -
  have s: "[d..<d + n] = [d..<d + k] @ [d + k..<d + n]" using assms(1) upt_add_eq_append [of d "d + k" "n - k"] by simp
  show ?thesis
  proof (cases "length xs = k")
    case True
    then show ?thesis unfolding s by (subst zip_append) simp_all
  next
    case False
    then have "k = n" "n \<le> length xs" using assms(2) by auto
    then show ?thesis by (simp add: zip_append2)
  qed
qed

text \<open>A node on which copies succeed.\<close>

definition copies_ok :: "copy_env \<Rightarrow> bool" where
  "copies_ok env \<longleftrightarrow> (\<forall>e i n. \<not> amap_modified env e i n) \<and> (\<forall>c. mirror_check env c = None) \<and>
     (\<forall>l n. ce_ref_ok env l n) \<and> (\<forall>l n. ce_write_ok env l n)"

lemma rod_copy_loop_exact:
  assumes ok: "copies_ok env" and shift: "lba_shift src = 12" "lba_shift dest = 12"
    and small: "unat (end_lba src) < 9223372036854775808" "unat (end_lba dest) < 9223372036854775808"
    and c: "data_ptr ctio = None" "dxfer_len ctio = 0" "pglist_cnt ctio = 0"
  shows "list_all (entry_ok src) entries \<Longrightarrow> (\<And>e es. entries = e # es \<Longrightarrow> unat sb < unat (en_num_blocks e)) \<Longrightarrow>
    unat dn \<le> 1024 \<Longrightarrow> unat dl + unat dn \<le> unat (end_lba dest) \<Longrightarrow>
    \<exists>cs. rod_copy_loop env dest src ctio entries sb dl dn done = Some (Copied ctio, done @ cs) \<and>
      copied_blocks cs = zip [unat dl..<unat dl + unat dn] (drop (unat sb) (rod_blocks entries))"
proof (induction "length entries + unat dn" arbitrary: entries sb dl dn "done" rule: less_induct)
  case less
  show ?case
  proof (cases "entries = [] \<or> dn = 0")
    case True
    then show ?thesis by (subst rod_copy_loop.simps) (auto simp: copied_blocks_def rod_blocks_def split: list.split)
  next
    case False
    then obtain e es where e: "entries = e # es" by (cases entries) auto
    have dn: "0 < unat dn" using False by (simp add: unat_gt_0)
    have eo: "en_lba_diff e = 0" "0 < unat (en_num_blocks e)" "unat (en_num_blocks e) \<le> 1024"
      "unat (en_lba e) + unat (en_num_blocks e) \<le> unat (end_lba src)" using less.prems(1) by (simp_all add: e entry_ok_def)
    have sb: "unat sb < unat (en_num_blocks e)" by (rule less.prems(2) [OF e])
    define sn where "sn = en_num_blocks e - sb"
    define k where "k = min sn dn"
    define sl where "sl = en_lba e + ucast sb"
    have sn: "unat sn = unat (en_num_blocks e) - unat sb" using sb by (simp add: sn_def unat_sub word_le_nat_alt)
    have k: "unat k = min (unat sn) (unat dn)" by (simp add: k_def min_def word_le_nat_alt)
    have min: "drop_bit 12 (min (push_bit 12 sn) (push_bit 12 dn)) = k"
      unfolding k_def by (rule min_blocks_12) (use sn eo(3) less.prems(3) in linarith)+
    have sl: "unat sl = unat (en_lba e) + unat sb" unfolding sl_def by (rule unat_add_ucast_32) (use sb eo(4) small(1) in linarith)
    have dl: "unat (dl + ucast k) = unat dl + unat k" by (rule unat_add_ucast_32) (use k less.prems(4) small(2) in linarith)
    have dn': "unat (dn - k) = unat dn - unat k" using k by (simp add: unat_sub word_le_nat_alt)
    have sbk: "unat (sb + k) = unat sb + unat k" using k sn sb eo(3) by (subst unat_add_lem [THEN iffD1]) simp_all
    have eom: "\<not> reached_eom src sl k" "\<not> reached_eom dest dl k"
      unfolding reached_eom_iff [OF small(1)] reached_eom_iff [OF small(2)] sl using k sn sb dn eo(2,4) less.prems(4) by linarith+
    have copy: "copy_to_dest_range env dest src ctio dl k sl k e i j = Copied ctio" for i j
      using copy_to_dest_range_ok [OF _ _ _ _ shift(1) eo(1) eom] ok c by (simp add: copies_ok_def)
    have sn0: "sn \<noteq> 0" using sn sb by (auto simp: unat_eq_zero)
    define en where "en = (if sb + k = en_num_blocks e then es else entries)"
    define sb' where "sb' = (if sb + k = en_num_blocks e then 0 else sb + k)"
    have "rod_copy_loop env dest src ctio entries sb dl dn done =
        rod_copy_loop env dest src ctio en sb' (dl + ucast k) (dn - k) (done @ [(dl, k, sl, k)])"
      using False sn0 min copy by (subst rod_copy_loop.simps) (simp add: e Let_def shift sn_def [symmetric] sl_def [symmetric] en_def sb'_def)
    moreover have "\<exists>cs. rod_copy_loop env dest src ctio en sb' (dl + ucast k) (dn - k) (done @ [(dl, k, sl, k)]) = Some (Copied ctio, (done @ [(dl, k, sl, k)]) @ cs) \<and>
      copied_blocks cs = zip [unat (dl + ucast k)..<unat (dl + ucast k) + unat (dn - k)] (drop (unat sb') (rod_blocks en))"
    proof (rule less.hyps)
      show "length en + unat (dn - k) < length entries + unat dn" using dn' k sn sb dn by (auto simp: en_def e)
      show "list_all (entry_ok src) en" using less.prems(1) by (simp add: en_def e)
      show "unat sb' < unat (en_num_blocks e')" if "en = e' # es'" for e' es'
      proof (cases "sb + k = en_num_blocks e")
        case True
        then have "es = e' # es'" "sb' = 0" using that by (simp_all add: en_def sb'_def)
        then show ?thesis using less.prems(1) by (simp add: e entry_ok_def)
      next
        case nc: False
        then have "e' = e" "sb' = sb + k" using that by (simp_all add: en_def sb'_def e)
        moreover have "unat (sb + k) \<noteq> unat (en_num_blocks e)" using nc by (simp add: word_unat_eq_iff)
        ultimately show ?thesis using sbk k sn sb by simp
      qed
      show "unat (dn - k) \<le> 1024" using dn' less.prems(3) by simp
      show "unat (dl + ucast k) + unat (dn - k) \<le> unat (end_lba dest)" using dl dn' k less.prems(4) by simp
    qed
    moreover have "zip [unat dl..<unat dl + unat dn] (drop (unat sb) (rod_blocks entries)) =
        zip [unat dl..<unat dl + unat k] [unat sl..<unat sl + unat k] @ zip [unat dl + unat k..<unat dl + unat dn] (drop (unat sb') (rod_blocks en))"
    proof -
      let ?xs = "[unat sl..<unat sl + unat sn]"
      have "unat (en_lba e) + unat (en_num_blocks e) = unat sl + unat sn" using sl sn sb by simp
      then have rb: "drop (unat sb) (rod_blocks entries) = ?xs @ rod_blocks es" using sb sl by (simp add: rod_blocks_def e add.assoc)
      show ?thesis
      proof (cases "sb + k = en_num_blocks e")
        case True
        then have "unat sb + unat k = unat (en_num_blocks e)" using sbk by simp
        then have "unat k = unat sn" using sn sb by simp
        then show ?thesis unfolding rb using True k zip_split_front [of "unat k" "unat dn" ?xs "unat dl" "rod_blocks es"]
          by (simp add: en_def sb'_def)
      next
        case nc: False
        have "unat (sb + k) \<noteq> unat (en_num_blocks e)" using nc by (simp add: word_unat_eq_iff)
        then have kd: "unat k = unat dn" "unat dn \<le> unat sn" using sbk k sn sb by linarith+
        have "?xs = [unat sl..<unat sl + unat k] @ [unat sl + unat k..<unat sl + unat sn]"
          using kd upt_add_eq_append [of "unat sl" "unat sl + unat k" "unat sn - unat k"] by simp
        then show ?thesis unfolding rb using kd by (simp add: zip_append2)
      qed
    qed
    ultimately show ?thesis using dl dn' k by (auto simp: copied_blocks_def)
  qed
qed

lemma rod_entry_locate_result:
  "list_all (entry_ok d) entries \<Longrightarrow> unat dn \<le> unat off \<Longrightarrow>
   (rod_entry_locate entries dn off = None \<and> length (rod_blocks entries) \<le> unat off - unat dn) \<or>
   (\<exists>e es sb. rod_entry_locate entries dn off = Some (e # es, sb) \<and> list_all (entry_ok d) (e # es) \<and> unat sb < unat (en_num_blocks e) \<and>
      unat off - unat dn < length (rod_blocks entries) \<and>
      drop (unat off - unat dn) (rod_blocks entries) = drop (unat sb) (rod_blocks (e # es)))"
proof (induction entries dn off rule: rod_entry_locate.induct)
  case (1 dn off)
  then show ?case by (simp add: rod_blocks_def)
next
  case (2 e rest dn off)
  have "unat (en_num_blocks e) < 4294967296" "unat off < 4294967296" by (rule unat_less_32)+
  then have s: "unat (dn + ucast (en_num_blocks e)) = unat dn + unat (en_num_blocks e)"
    by (intro unat_add_ucast_32) (use 2(3) in linarith)
  have c: "ucast (en_num_blocks e) + dn \<le> ucast off \<longleftrightarrow> unat dn + unat (en_num_blocks e) \<le> unat off"
    unfolding word_le_nat_alt add.commute [of "ucast (en_num_blocks e)"] s by simp
  have rb: "rod_blocks (e # rest) = [unat (en_lba e)..<unat (en_lba e) + unat (en_num_blocks e)] @ rod_blocks rest" by (simp add: rod_blocks_def)
  show ?case
  proof (cases "unat dn + unat (en_num_blocks e) \<le> unat off")
    case True
    have l: "rod_entry_locate (e # rest) dn off = rod_entry_locate rest (dn + ucast (en_num_blocks e)) off" using True by (simp add: c)
    have "unat off - unat dn = unat (en_num_blocks e) + (unat off - unat (dn + ucast (en_num_blocks e)))" using True s by simp
    moreover have "unat (en_num_blocks e) + n \<le> unat off - unat dn \<longleftrightarrow> n \<le> unat off - (unat dn + unat (en_num_blocks e))"
        "unat off - unat dn < unat (en_num_blocks e) + n \<longleftrightarrow> unat off - (unat dn + unat (en_num_blocks e)) < n" for n
      using True by linarith+
    ultimately show ?thesis using 2(1) True 2(2) unfolding l rb c by (simp add: s)
  next
    case False
    have "unat dn < 4294967296" using 2(3) \<open>unat off < 4294967296\<close> by linarith
    then have "unat (ucast dn :: u32) = unat dn" by (simp add: unat_ucast_mod)
    then have "unat (off - ucast dn) = unat off - unat dn" using 2(3) by (simp add: unat_sub word_le_nat_alt)
    moreover have "rod_entry_locate (e # rest) dn off = Some (e # rest, off - ucast dn)" using False by (simp add: c)
    ultimately show ?thesis using False 2(2,3) by (auto simp: rb)
  qed
qed

lemma offset_blocks_12:
  fixes off :: u64
  shows "unat (drop_bit 12 (ucast (push_bit 12 off) :: u32)) = unat off mod 1048576"
proof -
  have "unat (push_bit 12 off) = unat off * 4096 mod 18446744073709551616"
    by (simp add: push_bit_eq_mult unat_word_ariths)
  then have "unat (ucast (push_bit 12 off) :: u32) = unat off * 4096 mod 18446744073709551616 mod 4294967296"
    by (simp add: unat_ucast_mod)
  also have "\<dots> = unat off * 4096 mod (1048576 * 4096)" by (simp add: mod_mod_cancel)
  also have "\<dots> = unat off mod 1048576 * 4096" by (rule mult_mod_left [symmetric])
  finally show ?thesis unfolding unat_drop_bit_div by simp
qed

lemma scast_blocks_12:
  fixes n :: u32
  assumes "push_bit 12 (scast n :: u64) \<le> 0x400000"
  shows "unat n \<le> 1024"
proof -
  have b: "- 2147483648 \<le> sint n" "sint n < 2147483648" using sint_ge [of n] sint_lt [of n] by simp_all
  have w: "push_bit 12 (scast n :: u64) = word_of_int (sint n * 4096)" by (simp add: push_bit_eq_mult)
  have u: "uint (push_bit 12 (scast n :: u64)) = (sint n * 4096) mod 18446744073709551616" unfolding w uint_word_of_int by simp
  have "(sint n * 4096) mod 18446744073709551616 \<le> 4194304" using assms unfolding word_le_def u by simp
  moreover have "(sint n * 4096) mod 18446744073709551616 = sint n * 4096 + 18446744073709551616" if "sint n < 0"
    using that b mod_pos_pos_trivial [of "sint n * 4096 + 18446744073709551616" 18446744073709551616] by simp
  ultimately have "0 \<le> sint n" using b by linarith
  then have "(sint n * 4096) mod 18446744073709551616 = sint n * 4096" using b by simp
  with \<open>(sint n * 4096) mod 18446744073709551616 \<le> 4194304\<close> have "sint n \<le> 1024" by simp
  moreover have "uint n = sint n" using \<open>0 \<le> sint n\<close> b uint_sint [of n] by (simp add: take_bit_int_eq_self)
  ultimately show ?thesis by (simp add: unat_eq_nat_uint)
qed

lemma token_ranges_one:
  assumes "token_ranges d ctio b off dl = Inr (descs, ts)" "16 \<le> unat dl" "lba_shift d = 12"
  shows "\<exists>desc. descs = [desc] \<and> \<not> reached_eom d (bd_lba desc) (bd_num_blocks desc) \<and> unat (bd_num_blocks desc) \<le> 1024 \<and> bd_num_blocks desc \<noteq> 0"
proof -
  define n where "n = unat dl div 16"
  have "1 \<le> n" using assms(2) div_le_mono [of 16 "unat dl" 16] by (simp add: n_def)
  moreover have "n \<le> 1" using assms(1) unfolding token_ranges_def Let_def n_def [symmetric] by (simp split: if_splits)
  ultimately have n: "n = 1" by simp
  define desc where "desc = range_descriptor b off"
  have one: "[0..<1] = [0 :: nat]" "map (\<lambda>i. range_descriptor b (off + 16 * i)) [0] = [desc]" by (simp_all add: upt_rec desc_def)
  have r: "(case descriptors_size d ctio [desc] [0] 0 of Inl c \<Rightarrow> Inl c
      | Inr transfer_size \<Rightarrow> if push_bit (lba_shift d) transfer_size > 0x400000
          then Inl (list_error ctio INVALID_FIELD_IN_PARAMETER_LIST) else Inr ([desc], transfer_size)) = Inr (descs, ts)"
    using assms(1) unfolding token_ranges_def Let_def n_def [symmetric] n one by simp
  then have "descs = [desc]" "ts = scast (bd_num_blocks desc)" "\<not> reached_eom d (bd_lba desc) (bd_num_blocks desc)" "push_bit 12 ts \<le> 0x400000" "bd_num_blocks desc \<noteq> 0"
    using assms(3) by (auto simp: descriptor_valid_def Let_def not_less split: if_splits)
  then show ?thesis using scast_blocks_12 by blast
qed

lemma write_token_params_one:
  assumes "write_token_params d ctio = Inr (del, identifier, off, descs, ts)" "lba_shift d = 12"
  shows "\<exists>desc. descs = [desc] \<and> \<not> reached_eom d (bd_lba desc) (bd_num_blocks desc) \<and> unat (bd_num_blocks desc) \<le> 1024 \<and> bd_num_blocks desc \<noteq> 0"
proof -
  define dl where "dl = (ucast (be_read (the (data_ptr ctio)) 534 2) :: u16)"
  have t: "token_ranges d ctio (the (data_ptr ctio)) 536 dl = Inr (descs, ts)"
    and l: "\<not> be_read (the (data_ptr ctio)) 0 2 < 550" "be_read (the (data_ptr ctio)) 0 2 = 534 + ucast dl"
    using assms(1) unfolding write_token_params_def Let_def dl_def [symmetric] by (auto split: if_splits sum.splits)
  have "unat (534 + ucast dl :: u64) = 534 + unat dl"
  proof -
    have "unat dl < 65536" by (rule unat_less_16)
    then have "534 + unat dl < 18446744073709551616" by linarith
    then show ?thesis by (subst unat_add_lem [THEN iffD1]) simp_all
  qed
  then have "16 \<le> unat dl" using l by (simp add: word_less_nat_alt)
  then show ?thesis by (rule token_ranges_one [OF t _ assms(2)])
qed

text \<open>The token a command finds, as it is when the copies begin.\<close>

lemma write_using_token_found:
  assumes "write_token_params (disks dst) ctio = Inr (del, identifier, off, descs, ts)"
    and "find (\<lambda>(a, t). rt_identifier t = identifier) (rod_token_list m) = Some (a, t)" "distinct (map fst (rod_token_list m))"
  shows "\<exists>m2 t2. tdisk_cmd_write_using_token env disks now dst m ctio = write_with_token env disks (disks dst) ctio off descs ts a m2 \<and>
    map_of (rod_token_list m2) a = Some t2 \<and> rt_src_tdisk t2 = rt_src_tdisk t \<and> rod_entry_list t2 = rod_entry_list t"
proof -
  define g :: "rod_token_spec \<Rightarrow> rod_token_spec" where "g = (\<lambda>t. t\<lparr>rt_timestamp := now, rt_refs := rt_refs t + 1\<rparr>)"
  have find: "rod_token_find now identifier m = Some (a, on_token a g m)" using assms(2) by (simp add: rod_token_find_def token_get_def g_def)
  define m2 where "m2 = (if del then on_token a (\<lambda>t. t\<lparr>del_token := True\<rparr>) (on_token a g m) else on_token a g m)"
  have "(a, t) \<in> set (rod_token_list m)" using assms(2) by (metis find_Some_iff nth_mem)
  then have mt: "map_of (rod_token_list m) a = Some t" using assms(3) by simp
  have "map_of (rod_token_list m2) a = Some (if del then (g t)\<lparr>del_token := True\<rparr> else g t)"
    by (simp add: m2_def mt on_token_lookup)
  moreover have "tdisk_cmd_write_using_token env disks now dst m ctio = write_with_token env disks (disks dst) ctio off descs ts a m2"
    by (simp add: tdisk_cmd_write_using_token_def assms(1) find m2_def)
  ultimately show ?thesis by (intro exI [of _ m2]) (simp add: g_def)
qed

text \<open>One descriptor between disks with 4096-byte sectors.\<close>

lemma process_exact:
  assumes "list_all (entry_ok src) (rod_entry_list t)" "lba_shift dest = 12" "lba_shift src = 12"
    and "unat (end_lba dest) < 9223372036854775808" "unat (end_lba src) < 9223372036854775808" "copies_ok env"
    and "\<not> reached_eom dest (bd_lba desc) (bd_num_blocks desc)" "unat (bd_num_blocks desc) \<le> 1024"
    and "data_ptr ctio = None" "dxfer_len ctio = 0" "pglist_cnt ctio = 0"
    and "o' = unat off mod 1048576" "blocks = rod_blocks (rod_entry_list t)"
  shows "\<exists>cs. rod_token_process_descriptor env dest src ctio t desc off =
    (if o' < length blocks then Some (Copied ctio, cs, t)
     else Some (Copy_failed (list_error ctio INVALID_FIELD_IN_PARAMETER_LIST), [], t)) \<and>
    (o' < length blocks \<longrightarrow>
       copied_blocks cs = zip [unat (bd_lba desc)..<unat (bd_lba desc) + unat (bd_num_blocks desc)] (drop o' blocks))"
proof -
  define ob where "ob = drop_bit 12 (ucast (push_bit 12 off) :: u32)"
  have ob: "unat ob = o'" unfolding ob_def offset_blocks_12 assms(12) ..
  have p: "rod_token_process_descriptor env dest src ctio t desc off =
      (case rod_entry_locate (rod_entry_list t) 0 ob of
         None \<Rightarrow> Some (Copy_failed (list_error ctio INVALID_FIELD_IN_PARAMETER_LIST), [], t)
       | Some (entries, sb) \<Rightarrow>
           map_option (\<lambda>(r, done). (r, done, case r of Copied c \<Rightarrow> t | _ \<Rightarrow> t\<lparr>copy_operation_status := COPY_OPERATION_ERROR\<rparr>))
             (rod_copy_loop env dest src ctio entries sb (bd_lba desc) (bd_num_blocks desc) []))"
    by (simp add: rod_token_process_descriptor_def Let_def assms(2,3) ob_def)
  from rod_entry_locate_result [OF assms(1), of 0 ob]
  have "rod_entry_locate (rod_entry_list t) 0 ob = None \<and> length blocks \<le> o' \<or>
     (\<exists>e es sb. rod_entry_locate (rod_entry_list t) 0 ob = Some (e # es, sb) \<and> list_all (entry_ok src) (e # es) \<and>
       unat sb < unat (en_num_blocks e) \<and> o' < length blocks \<and> drop o' blocks = drop (unat sb) (rod_blocks (e # es)))"
    unfolding ob assms(13) [symmetric] by simp
  then show ?thesis
  proof (elim disjE exE conjE)
    fix e es sb
    assume l: "rod_entry_locate (rod_entry_list t) 0 ob = Some (e # es, sb)" and eo: "list_all (entry_ok src) (e # es)"
      and sb: "unat sb < unat (en_num_blocks e)" and o': "o' < length blocks" "drop o' blocks = drop (unat sb) (rod_blocks (e # es))"
    have "\<exists>cs. rod_copy_loop env dest src ctio (e # es) sb (bd_lba desc) (bd_num_blocks desc) [] = Some (Copied ctio, [] @ cs) \<and>
      copied_blocks cs = zip [unat (bd_lba desc)..<unat (bd_lba desc) + unat (bd_num_blocks desc)] (drop (unat sb) (rod_blocks (e # es)))"
      by (rule rod_copy_loop_exact [OF assms(6,3,2,5,4,9,10,11) eo _ assms(8)])
        (use sb assms(7) in \<open>simp_all add: reached_eom_iff [OF assms(4)]\<close>)
    then show ?thesis unfolding p l using o' by auto
  next
    assume "rod_entry_locate (rod_entry_list t) 0 ob = None" "length blocks \<le> o'"
    then show ?thesis unfolding p by simp
  qed
qed



section \<open>Examples\<close>

definition sample_token :: rod_token_spec where
  "sample_token = \<lparr>rt_identifier = 1, rt_src_tdisk = 0, rod_entry_list = [\<lparr>en_lba = 100, en_lba_diff = 0, en_num_blocks = 4\<rparr>], rt_rod_type = 0,
     rt_timestamp = 0, rt_timeout = 35, rt_list_identifier = 7, rt_iid = ((1, 0), (0, 0), 3), rt_cmd_type = ROD_POPULATE_TOKEN_CMD,
     copy_operation_status = 1, read_transfer_count = 4, write_transfer_count = 0, del_token = False, rt_refs = 1\<rparr>"

definition sample_mgr :: copy_mgr where
  "sample_mgr = \<lparr>rod_token_list = [(5, sample_token)], rod_identifier = 1\<rparr>"

definition sample_copy_env :: copy_env where
  "sample_copy_env = \<lparr>amap_modified = (\<lambda>_ _ _. False), mirror_check = (\<lambda>_. None), ce_ref_ok = (\<lambda>_ _. True), ce_read_ok = (\<lambda>_ _. False),
     ce_remap_ok = True, ce_write_ok = (\<lambda>_ _. True)\<rparr>"

text \<open>WRITE USING TOKEN with the token number 1, at an offset into the token, to two blocks from block 20 on.\<close>

definition sample_wut :: "u8 \<Rightarrow> qsio_scsiio" where
  "sample_wut off = (sample_in 0)\<lparr>cdb := [0x83, 0x11, 0, 0, 0, 0, 0, 0, 0, 7, 0, 0, 2, 0x28, 0, 0],
     data_ptr := Some ([2, 0x26, 0, 0, 0, 0, 0, 0] @ be_bytes 8 (ucast off) @ replicate 8 0 @ be_bytes 8 1 @ replicate 496 0 @
       replicate 6 0 @ [0, 16] @ be_bytes 8 20 @ be_bytes 4 2 @ [0, 0, 0, 0])\<rparr>"

lemma sample_wut_params:
  "write_token_params sample_unit (sample_wut 1) = Inr (False, 1, 1, [\<lparr>bd_lba = 20, bd_num_blocks = 2\<rparr>], 2)"
  "write_token_params sample_unit (sample_wut 0) = Inr (False, 1, 0, [\<lparr>bd_lba = 20, bd_num_blocks = 2\<rparr>], 2)"
  by code_simp+

lemma sample_mgr_facts:
  "find (\<lambda>(a, t). rt_identifier t = 1) (rod_token_list sample_mgr) = Some (5, sample_token)" "distinct (map fst (rod_token_list sample_mgr))"
  "list_all (entry_ok sample_unit) (rod_entry_list sample_token)" "lba_shift sample_unit = 12" "unat (end_lba sample_unit) < 2 ^ 63"
  "rt_src_tdisk sample_token = 0" "rod_blocks (rod_entry_list sample_token) = [100, 101, 102, 103]"
  by (simp_all add: sample_mgr_def sample_token_def entry_ok_def sample_unit_def rod_blocks_def)



text \<open>A token is populated and taken by one command.\<close>

definition sample_populate :: qsio_scsiio where
  "sample_populate = (sample_in 0)\<lparr>cdb := [0x83, 0x10, 0, 0, 0, 0, 0, 0, 0, 7, 0, 0, 0, 32, 0, 0],
     data_ptr := Some ([0, 30, 0, 0, 0, 0, 0, 0, 0, 0, 0, 0, 0, 0, 0, 16] @ be_bytes 8 100 @ be_bytes 4 4 @ [0, 0, 0, 0])\<rparr>"

abbreviation (input) sample_populated :: copy_mgr where
  "sample_populated \<equiv> \<lparr>rod_token_list = [(5, sample_token\<lparr>rt_timestamp := 3, rt_iid := ctio_iid sample_populate, rt_rod_type := 0x800000\<rparr>)],
     rod_identifier = 1\<rparr>"

lemma sample_populated:
  "tdisk_cmd_populate_token (\<lambda>_ _. True) (\<lambda>_. sample_unit) 3 5 0 (rs_mgr rod_idle) sample_populate =
     Token_sent (ctio_free_data sample_populate) sample_populated"
  by code_simp

definition sample_taken :: copy_mgr where
  "sample_taken = on_token 5 (\<lambda>t. t\<lparr>rt_timestamp := 9, rt_refs := rt_refs t + 1\<rparr>) sample_populated"

lemma sample_taken_reached: "rod_step\<^sup>*\<^sup>* rod_idle \<lparr>rs_mgr = sample_taken, rs_users = [5]\<rparr>"
proof -
  have "rod_step rod_idle (rod_idle\<lparr>rs_mgr := sample_populated\<rparr>)"
    by (rule rod_step.populate [OF sample_populated]) (simp_all add: rod_idle_def)
  moreover have "rod_step (rod_idle\<lparr>rs_mgr := sample_populated\<rparr>) \<lparr>rs_mgr = sample_taken, rs_users = 5 # rs_users (rod_idle\<lparr>rs_mgr := sample_populated\<rparr>)\<rparr>"
    by (rule rod_step.find_rod [of 9 1])
      (simp add: rod_token_find_def token_get_def sample_taken_def sample_token_def)
  ultimately show ?thesis by (simp add: rod_idle_def)
qed

theorem rod_token_references_witness:
  "\<exists>t. map_of (rod_token_list sample_taken) 5 = Some t \<and> rt_refs t = 2 \<and>
     map_of (rod_token_list (copy_mgr_free_timedout_tokens unat 40009 sample_taken)) 5 = None"
  using rod_token_references [OF sample_taken_reached, of 5 unat 40009]
  by (auto simp: sample_taken_def on_token_def sample_token_def get_elapsed_def)

end
