(* ===== verification/BlockIndex.thy ===== *)
theory BlockIndex
  imports Layout
begin

text \<open>
  The block allocator of \<^verbatim>\<open>core/bdevmgr.c\<close> at the level of one index page. An index page
  holds the reference counts of 640 consecutive blocks of a disk, 51 bits each: 13 bits of
  count and 38 bits of the block holding the deduplication node. The operations allocate a
  run of free entries, take and drop references, attach a deduplication node, replay a
  logged write, verify and write the page checksum, and keep the in-memory free count, the
  scan cursor and the per-group bitmap of full indexes.

  The objects reached from one index (its subgroup, group, disk and disk group) are the
  fields of the record \<open>ictx\<close>; an operation takes and returns it. The callers hold the
  index lock, so each operation is one atomic step. Statistics under \<^verbatim>\<open>ENABLE_STATS\<close>
  and debug assertions are left out.
\<close>

unbundle bit_operations_syntax

section \<open>State\<close>

abbreviation (input) BMAP_ENTRIES_UNCOMP :: nat where "BMAP_ENTRIES_UNCOMP \<equiv> 640"
abbreviation (input) BMAP_BLOCK_BITS_UNCOMP :: nat where "BMAP_BLOCK_BITS_UNCOMP \<equiv> 51"
abbreviation (input) INDEX_REFS_BITS :: nat where "INDEX_REFS_BITS \<equiv> 13"
abbreviation (input) INDEX_REFS_MASK :: u64 where "INDEX_REFS_MASK \<equiv> 8191"
abbreviation (input) BMAP_ENTRY_MAX_REFS :: u64 where "BMAP_ENTRY_MAX_REFS \<equiv> 8191"

abbreviation (input) META_IO_PENDING :: nat where "META_IO_PENDING \<equiv> 0"
abbreviation (input) META_DATA_DIRTY :: nat where "META_DATA_DIRTY \<equiv> 1"
abbreviation (input) META_DATA_ERROR :: nat where "META_DATA_ERROR \<equiv> 2"
abbreviation (input) META_DATA_CLONED :: nat where "META_DATA_CLONED \<equiv> 5"
abbreviation (input) META_LOAD_DONE :: nat where "META_LOAD_DONE \<equiv> 7"
abbreviation (input) META_CSUM_CHECK_DONE :: nat where "META_CSUM_CHECK_DONE \<equiv> 8"
abbreviation (input) META_INDEX_UNMARKED_FULL :: nat where "META_INDEX_UNMARKED_FULL \<equiv> 11"
abbreviation (input) BINT_IO_PENDING :: nat where "BINT_IO_PENDING \<equiv> 0"

datatype block_type = TYPE_META_BLOCK | TYPE_DATA_BLOCK

datatype bdev_error = BDEV_ERROR_INVALID_REFS | BDEV_ERROR_MAX_REFS | BDEV_ERROR_INVALID_NODE_BLOCK

record bint_stats =
  dedupe_blocks :: u64
  compressed_size :: u64
  uncompressed_size :: u64
  compression_hits :: u64

record bdevint =
  bid :: u32
  sector_shift :: nat
  enable_comp :: bool
  v2_disk :: bool
  bint_free :: u64
  free_block_counter :: u64
  bint_flags :: u32
  bstats :: bint_stats

record bdevgroup =
  group_free :: u64

record index_lookup =
  il_metadata :: "u32 list"
  il_flags :: u32

record index_group =
  group_id :: u32
  group_free_indexes :: u16
  lookup_map :: index_lookup

record index_subgroup =
  subgroup_free_indexes :: u16

record iowaiter =
  waiter_id :: nat
  waiter_flags :: u32

record bintindex =
  index_id :: u32
  metadata :: "u64 list"
  write_id :: u64
  free_blocks :: u16
  check_idx :: u16
  index_flags :: u32
  index_refs :: u32
  io_waiters :: "iowaiter list"

record index_info =
  ii_index :: "u32 option"
  ii_block :: u64
  ii_index_write_id :: u64
  ii_iowaiter :: iowaiter

record ictx =
  bint :: bdevint
  bgroup :: bdevgroup
  igroup :: index_group
  isubgroup :: index_subgroup
  index :: bintindex

section \<open>Block numbers and index entries\<close>

definition bint_meta_shift :: "bdevint \<Rightarrow> nat" where
  "bint_meta_shift b = (if enable_comp b then 10 else LBA_SHIFT)"

definition block_from_index :: "bdevint \<Rightarrow> u64 \<Rightarrow> u32 \<Rightarrow> u64" where
  "block_from_index b idx index_offset =
     (let meta_shift = bint_meta_shift b;
          span = push_bit meta_shift ((idx * 640) + ucast index_offset)
      in drop_bit (sector_shift b) span)"

definition index_id_from_block :: "bdevint \<Rightarrow> u64 \<Rightarrow> u64 \<times> u32" where
  "index_id_from_block b block =
     (let meta_shift = bint_meta_shift b;
          span = push_bit (sector_shift b) block;
          block = drop_bit meta_shift span;
          idx = block div 640
      in (idx, ucast (block - (idx * 640))))"

section \<open>Free space and statistics\<close>

definition raw_bint_decr_free :: "ictx \<Rightarrow> u32 \<Rightarrow> ictx" where
  "raw_bint_decr_free c used =
     c\<lparr>bint := (bint c)\<lparr>bint_free := bint_free (bint c) - ucast used\<rparr>,
       bgroup := (bgroup c)\<lparr>group_free := group_free (bgroup c) - ucast used\<rparr>\<rparr>"

definition raw_bint_incr_free :: "ictx \<Rightarrow> u32 \<Rightarrow> ictx" where
  "raw_bint_incr_free c freed =
     c\<lparr>bint := (bint c)\<lparr>bint_free := bint_free (bint c) + ucast freed\<rparr>,
       bgroup := (bgroup c)\<lparr>group_free := group_free (bgroup c) + ucast freed\<rparr>\<rparr>"

definition bint_set_io_pending :: "ictx \<Rightarrow> ictx" where
  "bint_set_io_pending c =
     (if \<not> atomic_test_bit BINT_IO_PENDING (bint_flags (bint c))
      then c\<lparr>bint := (bint c)\<lparr>bint_flags := atomic_set_bit BINT_IO_PENDING (bint_flags (bint c))\<rparr>\<rparr>
      else c)"

definition bint_decr_free :: "ictx \<Rightarrow> u32 \<Rightarrow> ictx" where
  "bint_decr_free c blocks =
     (let used = push_bit (bint_meta_shift (bint c)) blocks
      in bint_set_io_pending (raw_bint_decr_free c used))"

definition bint_incr_free :: "ictx \<Rightarrow> u32 \<Rightarrow> ictx" where
  "bint_incr_free c blocks =
     (let freed = push_bit (bint_meta_shift (bint c)) blocks;
          c = raw_bint_incr_free c freed;
          c = c\<lparr>bint := (bint c)\<lparr>free_block_counter := free_block_counter (bint c) + ucast freed\<rparr>\<rparr>
      in bint_set_io_pending c)"

definition BINT_STATS_ADD :: "((u64 \<Rightarrow> u64) \<Rightarrow> bint_stats \<Rightarrow> bint_stats) \<Rightarrow> u64 \<Rightarrow> ictx \<Rightarrow> ictx" where
  "BINT_STATS_ADD count val c =
     bint_set_io_pending (c\<lparr>bint := (bint c)\<lparr>bstats := count (\<lambda>n. n + val) (bstats (bint c))\<rparr>\<rparr>)"

definition stats_sub :: "u64 \<Rightarrow> u64 \<Rightarrow> u64" where
  "stats_sub prev_count val =
     (let n = prev_count - val in if n > prev_count + 0xFFFFFFFF then 0 else n)"

definition BINT_STATS_SUB :: "((u64 \<Rightarrow> u64) \<Rightarrow> bint_stats \<Rightarrow> bint_stats) \<Rightarrow> u64 \<Rightarrow> ictx \<Rightarrow> ictx" where
  "BINT_STATS_SUB count val c =
     bint_set_io_pending
       (c\<lparr>bint := (bint c)\<lparr>bstats := count (\<lambda>n. stats_sub n val) (bstats (bint c))\<rparr>\<rparr>)"

section \<open>Index state helpers\<close>

abbreviation (input) set_index_flag :: "nat \<Rightarrow> ictx \<Rightarrow> ictx" where
  "set_index_flag b c \<equiv> c\<lparr>index := (index c)\<lparr>index_flags := atomic_set_bit b (index_flags (index c))\<rparr>\<rparr>"

abbreviation (input) clear_index_flag :: "nat \<Rightarrow> ictx \<Rightarrow> ictx" where
  "clear_index_flag b c \<equiv> c\<lparr>index := (index c)\<lparr>index_flags := atomic_clear_bit b (index_flags (index c))\<rparr>\<rparr>"

abbreviation (input) test_index_flag :: "nat \<Rightarrow> ictx \<Rightarrow> bool" where
  "test_index_flag b c \<equiv> atomic_test_bit b (index_flags (index c))"

abbreviation (input) set_bmap :: "u64 list \<Rightarrow> ictx \<Rightarrow> ictx" where
  "set_bmap bmap c \<equiv> c\<lparr>index := (index c)\<lparr>metadata := bmap\<rparr>\<rparr>"

text \<open>
  Copy-on-write of a page that is being written out. Either the copy gets a fresh page
  (\<open>pg_ok\<close>) and the index is marked cloned, or the caller sleeps until the write has cleared
  the dirty flag. The contents are the same in both cases.
\<close>

definition index_write_barrier :: "bool \<Rightarrow> ictx \<Rightarrow> ictx" where
  "index_write_barrier pg_ok c =
     (if \<not> test_index_flag META_DATA_DIRTY c \<or> test_index_flag META_DATA_CLONED c then c
      else if \<not> pg_ok then clear_index_flag META_DATA_DIRTY c
      else set_index_flag META_DATA_CLONED c)"

definition index_add_iowaiter :: "ictx \<Rightarrow> iowaiter \<Rightarrow> ictx" where
  "index_add_iowaiter c w =
     c\<lparr>index := (index c)\<lparr>io_waiters := w\<lparr>waiter_flags := 0\<rparr> # io_waiters (index c)\<rparr>\<rparr>"

definition index_get :: "ictx \<Rightarrow> ictx" where
  "index_get c = c\<lparr>index := (index c)\<lparr>index_refs := index_refs (index c) + 1\<rparr>\<rparr>"

definition index_put :: "ictx \<Rightarrow> ictx" where
  "index_put c = c\<lparr>index := (index c)\<lparr>index_refs := index_refs (index c) - 1\<rparr>\<rparr>"

section \<open>The bitmap of full indexes\<close>

definition lookup_slot :: "ictx \<Rightarrow> nat \<times> nat" where
  "lookup_slot c =
     (let iid = index_id (index c) - push_bit 15 (group_id (igroup c))
      in (unat (drop_bit 5 iid), unat (iid AND 0x1F)))"

definition bint_mark_index_full :: "ictx \<Rightarrow> ictx" where
  "bint_mark_index_full c =
     (let (i, m) = lookup_slot c;
          c = clear_index_flag META_INDEX_UNMARKED_FULL c;
          g = igroup c;
          il = lookup_map g;
          val = il_metadata il ! i
      in if val AND push_bit m 1 \<noteq> 0 then c
         else c\<lparr>igroup := g\<lparr>lookup_map := il\<lparr>il_metadata := (il_metadata il)[i := val OR push_bit m 1],
                                            il_flags := atomic_set_bit META_IO_PENDING (il_flags il)\<rparr>,
                           group_free_indexes := group_free_indexes g - 1\<rparr>,
                isubgroup := (isubgroup c)\<lparr>subgroup_free_indexes := subgroup_free_indexes (isubgroup c) - 1\<rparr>\<rparr>)"

definition bint_check_if_index_full :: "index_group \<Rightarrow> u32 \<Rightarrow> bool" where
  "bint_check_if_index_full g iid =
     (let iid = iid - push_bit 15 (group_id g);
          val = il_metadata (lookup_map g) ! unat (drop_bit 5 iid)
      in val AND push_bit (unat (iid AND 0x1F)) 1 \<noteq> 0)"

definition bint_unmark_index_full :: "ictx \<Rightarrow> ictx" where
  "bint_unmark_index_full c =
     (let (i, m) = lookup_slot c;
          c = set_index_flag META_INDEX_UNMARKED_FULL c;
          g = igroup c;
          il = lookup_map g;
          val = il_metadata il ! i
      in if val AND push_bit m 1 = 0 then c
         else c\<lparr>igroup := g\<lparr>lookup_map := il\<lparr>il_metadata := (il_metadata il)[i := val AND NOT (push_bit m 1)],
                                            il_flags := atomic_set_bit META_IO_PENDING (il_flags il)\<rparr>,
                           group_free_indexes := group_free_indexes g + 1\<rparr>,
                isubgroup := (isubgroup c)\<lparr>subgroup_free_indexes := subgroup_free_indexes (isubgroup c) + 1\<rparr>\<rparr>)"

section \<open>Checksum and load\<close>

definition index_write_csum :: "ictx \<Rightarrow> bool \<Rightarrow> ictx" where
  "index_write_csum c incr =
     (let ix = index c
      in if v2_disk (bint c)
         then (let wid = (if incr then write_id_incr (write_id ix) 1 else write_id ix);
                   csum = ucast (calc_csum16 (metadata ix) 4088) OR push_bit 16 wid
               in c\<lparr>index := ix\<lparr>write_id := wid, metadata := (metadata ix)[511 := csum]\<rparr>\<rparr>)
         else (let wid = write_id_incr (write_id ix) 1;
                   csum = calc_csum (metadata ix) 4088
               in c\<lparr>index := ix\<lparr>write_id := wid, metadata := (metadata ix)[511 := csum]\<rparr>\<rparr>))"

definition index_check_csum :: "ictx \<Rightarrow> bool \<times> ictx" where
  "index_check_csum c =
     (if test_index_flag META_CSUM_CHECK_DONE c then (True, c)
      else if test_index_flag META_DATA_ERROR c then (False, c)
      else
        (let ix = index c;
             raw = metadata ix ! 511;
             (csum, raw_csum, wid) =
               (if v2_disk (bint c)
                then (ucast (calc_csum16 (metadata ix) 4088), raw AND 0xFFFF, drop_bit 16 raw)
                else (calc_csum (metadata ix) 4088, raw, 1));
             c = c\<lparr>index := ix\<lparr>write_id := wid\<rparr>\<rparr>;
             c = (if raw_csum \<noteq> csum then set_index_flag META_DATA_ERROR c else c)
         in (True, set_index_flag META_CSUM_CHECK_DONE c)))"

text \<open>The scan of \<open>index_check_load\<close>: the number of free entries and the first of them.\<close>

definition bmap_free :: "u64 list \<Rightarrow> nat \<Rightarrow> bool" where
  "bmap_free bmap i \<longleftrightarrow> BMAP_GET_BLOCK bmap i BMAP_BLOCK_BITS_UNCOMP = 0"

fun load_scan :: "u64 list \<Rightarrow> nat list \<Rightarrow> nat \<Rightarrow> nat \<Rightarrow> nat \<times> nat" where
  "load_scan bmap [] nfree cidx = (nfree, cidx)"
| "load_scan bmap (i # is) nfree cidx =
     (if \<not> bmap_free bmap i then load_scan bmap is nfree cidx
      else load_scan bmap is (nfree + 1) (if i < cidx then i else cidx))"

definition index_check_load :: "ictx \<Rightarrow> ictx" where
  "index_check_load c =
     (if test_index_flag META_LOAD_DONE c then c
      else
        (let c = snd (index_check_csum c)
         in if test_index_flag META_DATA_ERROR c then c
            else
              (let (nfree, cidx) = load_scan (metadata (index c)) [0..<BMAP_ENTRIES_UNCOMP] 0 BMAP_ENTRIES_UNCOMP;
                   c = c\<lparr>index := (index c)\<lparr>free_blocks := of_nat nfree\<rparr>\<rparr>;
                   c = set_index_flag META_LOAD_DONE c;
                   c = c\<lparr>index := (index c)\<lparr>check_idx := of_nat cidx\<rparr>\<rparr>
               in if cidx = BMAP_ENTRIES_UNCOMP then bint_mark_index_full c
                  else if \<not> test_index_flag META_INDEX_UNMARKED_FULL c then bint_unmark_index_full c
                  else c)))"

section \<open>Allocation\<close>

definition index_mark_blocks :: "bool \<Rightarrow> ictx \<Rightarrow> nat \<Rightarrow> nat \<Rightarrow> bool \<Rightarrow> ictx" where
  "index_mark_blocks pg_ok c start_idx count barriercheck =
     (let c = (if barriercheck then index_write_barrier pg_ok c else c);
          bmap = fold (\<lambda>i m. BMAP_SET_BLOCK m i 1 BMAP_BLOCK_BITS_UNCOMP) [start_idx..<start_idx + count]
                   (metadata (index c));
          c = c\<lparr>index := (index c)\<lparr>metadata := bmap, free_blocks := free_blocks (index c) - of_nat count\<rparr>\<rparr>
      in bint_decr_free c (of_nat count))"

text \<open>The scan of \<open>bint_alloc_block\<close>: the last entry of the first free run of \<open>count\<close> entries
  at or after \<open>i\<close>, with the number of entries of the run before it.\<close>

function alloc_scan :: "u64 list \<Rightarrow> nat \<Rightarrow> nat \<Rightarrow> nat \<Rightarrow> (nat \<times> nat) option" where
  "alloc_scan bmap count i done =
     (if i < BMAP_ENTRIES_UNCOMP
      then if \<not> bmap_free bmap i then alloc_scan bmap count (i + 1) 0
           else if done + 1 = count then Some (i, done)
           else alloc_scan bmap count (i + 1) (done + 1)
      else None)"
  by pat_completeness auto
termination
  by (relation "measure (\<lambda>(bmap, count, i, done). 640 - i)") auto

declare alloc_scan.simps [simp del]

definition bint_alloc_block ::
  "bool \<Rightarrow> ictx \<Rightarrow> u32 \<Rightarrow> index_info \<Rightarrow> block_type \<Rightarrow> u64 \<times> bool \<times> index_info \<times> ictx" where
  "bint_alloc_block pg_ok c sz info type =
     (let meta_shift = bint_meta_shift (bint c);
          count = unat (drop_bit meta_shift sz)
      in case alloc_scan (metadata (index c)) count (unat (check_idx (index c))) 0 of
           None \<Rightarrow>
             (0, True, info,
              c\<lparr>index := (index c)\<lparr>check_idx := of_nat (max (unat (check_idx (index c))) BMAP_ENTRIES_UNCOMP)\<rparr>\<rparr>)
         | Some (i, done) \<Rightarrow>
             (let block = block_from_index (bint c) (ucast (index_id (index c))) (of_nat (i - done));
                  c = index_mark_blocks pg_ok c (i - done) count True;
                  c = set_index_flag META_IO_PENDING c;
                  c = index_add_iowaiter c (ii_iowaiter info);
                  c = c\<lparr>index := (index c)\<lparr>check_idx := of_nat (i + 1)\<rparr>\<rparr>;
                  c = (if type = TYPE_DATA_BLOCK
                       then if sz = LBA_SIZE then BINT_STATS_ADD uncompressed_size_update (ucast sz) c
                            else BINT_STATS_ADD compressed_size_update (ucast sz)
                                   (BINT_STATS_ADD compression_hits_update (ucast LBA_SIZE) c)
                       else c);
                  mark_full = (unat (check_idx (index c)) = BMAP_ENTRIES_UNCOMP);
                  c = index_get c;
                  info = info\<lparr>ii_index := Some (index_id (index c)),
                              ii_index_write_id := write_id (index c),
                              ii_iowaiter := (ii_iowaiter info)\<lparr>waiter_flags := 0\<rparr>\<rparr>
              in (block, mark_full, info, c)))"

section \<open>References\<close>

fun index_ref_blocks :: "u64 list \<Rightarrow> nat \<Rightarrow> nat \<Rightarrow> bool \<times> u64 list" where
  "index_ref_blocks bmap i 0 = (True, bmap)"
| "index_ref_blocks bmap i (Suc n) =
     (let refs = BMAP_GET_BLOCK bmap i BMAP_BLOCK_BITS_UNCOMP
      in if refs = BMAP_ENTRY_MAX_REFS then (False, bmap)
         else index_ref_blocks (BMAP_SET_BLOCK bmap i (refs + 1) BMAP_BLOCK_BITS_UNCOMP) (i + 1) n)"

text \<open>How the loop of \<open>bint_ref_block\<close> ends: normally, by the early return on a foreign node
  block, or by a jump to the rollback at entry \<open>i\<close>.\<close>

datatype ref_exit =
    Ref_done "u64 list"
  | Ref_return bdev_error "u64 list"
  | Ref_err bdev_error nat "u64 list"

fun ref_loop :: "nat \<Rightarrow> u64 \<Rightarrow> u64 list \<Rightarrow> nat \<Rightarrow> nat \<Rightarrow> u64 \<Rightarrow> ref_exit" where
  "ref_loop entry node_block bmap i 0 oldrefs = Ref_done bmap"
| "ref_loop entry node_block bmap i (Suc n) oldrefs =
     (let val = BMAP_GET_BLOCK bmap i BMAP_BLOCK_BITS_UNCOMP;
          refs = val AND INDEX_REFS_MASK;
          old_node_block = drop_bit INDEX_REFS_BITS val
      in if i = entry \<and> node_block \<noteq> 0 \<and> old_node_block \<noteq> node_block
           then Ref_return BDEV_ERROR_INVALID_NODE_BLOCK bmap
         else if refs = 0 then Ref_err BDEV_ERROR_INVALID_REFS i bmap
         else if i \<noteq> entry \<and> refs \<noteq> oldrefs then Ref_err BDEV_ERROR_INVALID_REFS i bmap
         else if refs = BMAP_ENTRY_MAX_REFS then Ref_err BDEV_ERROR_MAX_REFS i bmap
         else ref_loop entry node_block
                (BMAP_SET_BLOCK bmap i (push_bit INDEX_REFS_BITS old_node_block OR (refs + 1)) BMAP_BLOCK_BITS_UNCOMP)
                (i + 1) n (if i = entry then refs else oldrefs))"

definition ref_undo :: "nat \<Rightarrow> u64 list \<Rightarrow> u64 list" where
  "ref_undo j bmap =
     (let val = BMAP_GET_BLOCK bmap j BMAP_BLOCK_BITS_UNCOMP;
          refs = (val AND INDEX_REFS_MASK) - 1;
          old_node_block = drop_bit INDEX_REFS_BITS val
      in BMAP_SET_BLOCK bmap j (push_bit INDEX_REFS_BITS old_node_block OR refs) BMAP_BLOCK_BITS_UNCOMP)"

definition bint_ref_block ::
  "ictx \<Rightarrow> nat \<Rightarrow> u32 \<Rightarrow> index_info \<Rightarrow> u64 \<Rightarrow> (bdev_error + unit) \<times> index_info \<times> ictx" where
  "bint_ref_block c entry sz info node_block =
     (let meta_shift = bint_meta_shift (bint c);
          count = unat (drop_bit meta_shift sz)
      in case ref_loop entry node_block (metadata (index c)) entry count 0 of
           Ref_return e bmap \<Rightarrow> (Inl e, info, set_bmap bmap c)
         | Ref_err e i bmap \<Rightarrow> (Inl e, info, set_bmap (fold ref_undo [entry..<i] bmap) c)
         | Ref_done bmap \<Rightarrow>
             (let c = set_bmap bmap c;
                  c = set_index_flag META_IO_PENDING c;
                  c = BINT_STATS_ADD dedupe_blocks_update 1 c;
                  c = index_add_iowaiter c (ii_iowaiter info);
                  c = index_get c;
                  info = info\<lparr>ii_index := Some (index_id (index c)),
                              ii_index_write_id := write_id (index c),
                              ii_iowaiter := (ii_iowaiter info)\<lparr>waiter_flags := 0\<rparr>\<rparr>
              in (Inr (), info, c)))"

section \<open>Log replay\<close>

fun replay_loop :: "block_type \<Rightarrow> ictx \<Rightarrow> nat \<Rightarrow> nat \<Rightarrow> ictx" where
  "replay_loop type c i 0 = c"
| "replay_loop type c i (Suc n) =
     (let bmap = metadata (index c);
          val = BMAP_GET_BLOCK bmap i BMAP_BLOCK_BITS_UNCOMP;
          refs = val AND INDEX_REFS_MASK
      in if refs = BMAP_ENTRY_MAX_REFS \<or> (refs \<noteq> 0 \<and> type = TYPE_META_BLOCK) then replay_loop type c (i + 1) n
         else
           (let c = (if refs = 0
                     then (let c = raw_bint_decr_free c (push_bit (bint_meta_shift (bint c)) 1)
                           in c\<lparr>bint := (bint c)\<lparr>bint_flags := atomic_set_bit BINT_IO_PENDING (bint_flags (bint c))\<rparr>\<rparr>)
                     else c)
            in replay_loop type (set_bmap (BMAP_SET_BLOCK bmap i (refs + 1) BMAP_BLOCK_BITS_UNCOMP) c) (i + 1) n))"

definition bint_log_replay :: "ictx \<Rightarrow> nat \<Rightarrow> u32 \<Rightarrow> block_type \<Rightarrow> ictx" where
  "bint_log_replay c entry sz type =
     (let meta_shift = bint_meta_shift (bint c);
          count = unat (drop_bit meta_shift sz);
          c = replay_loop type c entry count;
          c = clear_index_flag META_LOAD_DONE c
      in set_index_flag META_IO_PENDING c)"

text \<open>
  \<open>bdev_log_replay\<close> on the index the block belongs to, as \<open>bint_get_index\<close> returned it: a page
  with a bad checksum, and a page already written after the logged write, are skipped and the
  reference on the index dropped; otherwise the reference moves to the new \<open>index_info\<close>
  (\<open>info_ok\<close>: its allocation succeeded), which goes to the caller's list.
\<close>

definition bdev_log_replay ::
  "bool \<Rightarrow> ictx \<Rightarrow> u64 \<Rightarrow> u64 \<Rightarrow> u32 \<Rightarrow> iowaiter \<Rightarrow> block_type \<Rightarrow> bool \<times> index_info option \<times> ictx" where
  "bdev_log_replay info_ok c block index_write_id sz w type =
     (let (idx, entry) = index_id_from_block (bint c) block;
          c = snd (index_check_csum c)
      in if test_index_flag META_DATA_ERROR c then (True, None, index_put c)
         else if index_write_id \<noteq> 0 \<and> write_id_greater (write_id (index c)) index_write_id
           then (True, None, index_put c)
         else if \<not> info_ok then (False, None, index_put c)
         else (let info = \<lparr>ii_index = Some (index_id (index c)), ii_block = 0, ii_index_write_id = 0,
                           ii_iowaiter = w\<lparr>waiter_flags := 0\<rparr>\<rparr>;
                   c = bint_log_replay c (unat entry) sz type
               in (True, Some info, index_add_iowaiter c w)))"

section \<open>Deduplication nodes\<close>

definition bdev_get_node_block :: "ictx \<Rightarrow> nat \<Rightarrow> (u32 \<times> u64) option \<times> ictx" where
  "bdev_get_node_block c entry_id =
     (let c = snd (index_check_csum c)
      in if test_index_flag META_DATA_ERROR c then (None, c)
         else (let val = BMAP_GET_BLOCK (metadata (index c)) entry_id BMAP_BLOCK_BITS_UNCOMP
               in (Some (ucast (val AND INDEX_REFS_MASK), drop_bit INDEX_REFS_BITS val), c)))"

definition bdev_set_node_block :: "bool \<Rightarrow> ictx \<Rightarrow> u64 \<Rightarrow> u64 \<Rightarrow> bool \<times> ictx" where
  "bdev_set_node_block pg_ok c block node_block =
     (let (_, entry) = index_id_from_block (bint c) block;
          val = BMAP_GET_BLOCK (metadata (index c)) (unat entry) BMAP_BLOCK_BITS_UNCOMP
      in if val = 0 then (False, c)
         else if drop_bit INDEX_REFS_BITS val \<noteq> 0 then (False, c)
         else
           (let refs = val AND INDEX_REFS_MASK;
                val = push_bit INDEX_REFS_BITS node_block OR refs;
                c = index_write_barrier pg_ok c;
                c = set_bmap (BMAP_SET_BLOCK (metadata (index c)) (unat entry) val BMAP_BLOCK_BITS_UNCOMP) c
            in (True, set_index_flag META_IO_PENDING c)))"

section \<open>Freeing\<close>

text \<open>
  The loop of \<open>bint_free_block\<close>. It stops at the first entry whose count is zero or differs
  from the count of the first entry (first component \<open>False\<close>); the entries before it stay
  decremented. \<open>need_free\<close> and \<open>unmark_full\<close> record that some count reached zero.
\<close>

fun free_loop :: "block_type \<Rightarrow> nat \<Rightarrow> ictx \<Rightarrow> nat \<Rightarrow> nat \<Rightarrow> u64 \<Rightarrow> bool \<Rightarrow> bool \<Rightarrow> bool \<times> bool \<times> bool \<times> ictx" where
  "free_loop type entry c i 0 old_refs need_free unmark_full = (True, need_free, unmark_full, c)"
| "free_loop type entry c i (Suc n) old_refs need_free unmark_full =
     (let bmap = metadata (index c);
          val = BMAP_GET_BLOCK bmap i BMAP_BLOCK_BITS_UNCOMP;
          refs = val AND INDEX_REFS_MASK;
          old_refs = (if i = entry then refs else old_refs)
      in if refs = 0 \<or> refs \<noteq> old_refs then (False, need_free, unmark_full, c)
         else
           (let refs = refs - 1
            in if refs = 0
               then (let c = set_bmap (BMAP_SET_BLOCK bmap i 0 BMAP_BLOCK_BITS_UNCOMP) c;
                         c = bint_incr_free c 1;
                         c = c\<lparr>index := (index c)\<lparr>free_blocks := free_blocks (index c) + 1\<rparr>\<rparr>
                     in free_loop type entry c (i + 1) n old_refs True True)
               else (let old_node_block = drop_bit INDEX_REFS_BITS val;
                         val = push_bit INDEX_REFS_BITS old_node_block OR refs;
                         c = set_bmap (BMAP_SET_BLOCK bmap i val BMAP_BLOCK_BITS_UNCOMP) c;
                         c = (if i = entry \<and> refs \<ge> 1 \<and> type = TYPE_DATA_BLOCK
                              then BINT_STATS_SUB dedupe_blocks_update 1 c else c)
                     in free_loop type entry c (i + 1) n old_refs need_free unmark_full)))"

text \<open>The result is the value stored to \<open>*freed\<close>, if any.\<close>

definition bint_free_block :: "ictx \<Rightarrow> nat \<Rightarrow> u32 \<Rightarrow> block_type \<Rightarrow> bool option \<times> ictx" where
  "bint_free_block c entry sz type =
     (let meta_shift = bint_meta_shift (bint c);
          count = unat (drop_bit meta_shift sz)
      in case free_loop type entry c entry count 0 False False of
           (False, need_free, unmark_full, c) \<Rightarrow> (None, c)
         | (True, need_free, unmark_full, c) \<Rightarrow>
             (let c = set_index_flag META_IO_PENDING c;
                  c = (if need_free \<and> type = TYPE_DATA_BLOCK
                       then if sz = LBA_SIZE then BINT_STATS_SUB uncompressed_size_update (ucast sz) c
                            else BINT_STATS_SUB compressed_size_update (ucast sz)
                                   (BINT_STATS_SUB compression_hits_update (ucast LBA_SIZE) c)
                       else c);
                  c = (if unmark_full \<and> \<not> test_index_flag META_INDEX_UNMARKED_FULL c
                       then bint_unmark_index_full c else c)
              in (Some need_free, c)))"

section \<open>Reserved blocks of a new index\<close>

text \<open>Returns the reserved blocks still to be marked in the following indexes.\<close>

definition bint_index_mark_reserved :: "ictx \<Rightarrow> u32 \<Rightarrow> u32 \<times> ictx" where
  "bint_index_mark_reserved c reserved_blocks =
     (let todo = min reserved_blocks 640;
          bmap = fold (\<lambda>i m. BMAP_SET_BLOCK m i 1 BMAP_BLOCK_BITS_UNCOMP) [0..<unat todo] (metadata (index c));
          c = set_bmap bmap c;
          c = c\<lparr>index := (index c)\<lparr>free_blocks := free_blocks (index c) - ucast todo\<rparr>\<rparr>;
          c = bint_decr_free c todo;
          c = (if unat todo = BMAP_ENTRIES_UNCOMP then bint_mark_index_full c else c)
      in (reserved_blocks - todo, c))"

end
