(* ===== verification/IndexEntries.thy ===== *)
theory IndexEntries
  imports BlockIndex
begin

text \<open>
  The algebra behind the index pages: an entry as a count and a node, ranges of entries
  rewritten by one loop, the loops of \<open>bint_ref_block\<close> and \<open>bint_alloc_block\<close> in terms of
  them, and the number of free entries of a page. \<open>IndexProps\<close> rests on these lemmas.
\<close>

unbundle bit_operations_syntax

section \<open>Entries\<close>

text \<open>An entry is a count in the low 13 bits and a node block above it.\<close>

definition ent_refs :: "u64 \<Rightarrow> u64" where "ent_refs v = v AND 8191"
definition ent_node :: "u64 \<Rightarrow> u64" where "ent_node v = drop_bit 13 v"
definition mk_ent :: "u64 \<Rightarrow> u64 \<Rightarrow> u64" where "mk_ent n r = push_bit 13 n OR r"

lemma refs_mask: "(8191 :: u64) = mask 13" by (simp add: mask_eq_exp_minus_1)

lemma ent_refs_take_bit: "ent_refs v = take_bit 13 v"
  by (simp add: ent_refs_def refs_mask take_bit_eq_mask)

lemma unat_ent_refs: "unat (ent_refs v) = unat v mod 8192"
  by (simp add: ent_refs_take_bit unat_mod take_bit_eq_mod)

lemma ent_refs_less: "unat (ent_refs v) < 8192"
  by (simp add: unat_ent_refs)

lemma mk_ent_collapse: "mk_ent (ent_node v) (ent_refs v) = v"
  by (rule bit_word_eqI) (auto simp: mk_ent_def ent_node_def ent_refs_take_bit bit_simps)

lemma ent_refs_mk_ent:
  assumes "unat r < 8192"
  shows "ent_refs (mk_ent n r) = r"
proof -
  have "take_bit 13 r = r" by (rule take_bit_unat_less) (use assms in simp)
  then have "bit r k \<Longrightarrow> k < 13" for k by (rule bit_less_width)
  then show ?thesis
    by (intro bit_word_eqI) (auto simp: mk_ent_def ent_refs_take_bit bit_simps)
qed

lemma ent_node_mk_ent:
  assumes "unat r < 8192" "take_bit 38 n = n"
  shows "ent_node (mk_ent n r) = n"
proof -
  have "take_bit 13 r = r" by (rule take_bit_unat_less) (use assms in simp)
  then have r: "bit r k \<Longrightarrow> k < 13" for k by (rule bit_less_width)
  have n: "bit n k \<Longrightarrow> k < 38" for k using assms(2) by (rule bit_less_width)
  show ?thesis
    by (intro bit_word_eqI) (auto simp: mk_ent_def ent_node_def bit_simps dest: r n)
qed

lemma mk_ent_fits:
  assumes "unat r < 8192" "take_bit 38 n = n"
  shows "take_bit 51 (mk_ent n r) = mk_ent n r"
proof -
  have "take_bit 13 r = r" by (rule take_bit_unat_less) (use assms in simp)
  then have r: "bit r k \<Longrightarrow> k < 13" for k by (rule bit_less_width)
  have n: "bit n k \<Longrightarrow> k < 38" for k using assms(2) by (rule bit_less_width)
  show ?thesis
    by (intro bit_word_eqI) (use r n in \<open>fastforce simp: mk_ent_def bit_simps\<close>)
qed

lemma ent_node_fits:
  assumes "take_bit 51 v = v"
  shows "take_bit 38 (ent_node v) = ent_node v"
proof -
  have "bit v k \<Longrightarrow> k < 51" for k using assms by (rule bit_less_width)
  then show ?thesis
    by (intro bit_word_eqI) (fastforce simp: ent_node_def bit_simps)
qed

lemma unat_incr_less: "unat r < 2 ^ 64 - 1 \<Longrightarrow> unat (r + 1 :: u64) = unat r + 1"
  by (simp add: unat_word_ariths)

text \<open>One more and one fewer reference on an entry.\<close>

definition inc_ent :: "u64 \<Rightarrow> u64" where "inc_ent v = mk_ent (ent_node v) (ent_refs v + 1)"
definition dec_ent :: "u64 \<Rightarrow> u64" where "dec_ent v = mk_ent (ent_node v) (ent_refs v - 1)"

lemma inc_ent_laws:
  assumes "take_bit 51 v = v" "ent_refs v \<noteq> 8191"
  shows "ent_refs (inc_ent v) = ent_refs v + 1" "ent_node (inc_ent v) = ent_node v"
    "take_bit 51 (inc_ent v) = inc_ent v" "dec_ent (inc_ent v) = v"
    "unat (ent_refs (inc_ent v)) = unat (ent_refs v) + 1"
proof -
  have "unat (ent_refs v) \<noteq> 8191" using assms(2) by (simp add: word_unat_eq_iff)
  then have "unat (ent_refs v) < 8191" using ent_refs_less [of v] by linarith
  then have u: "unat (ent_refs v + 1) = unat (ent_refs v) + 1" "unat (ent_refs v + 1) < 8192"
    by (simp_all add: unat_incr_less)
  note n = ent_node_fits [OF assms(1)]
  show r: "ent_refs (inc_ent v) = ent_refs v + 1" using u by (simp add: inc_ent_def ent_refs_mk_ent)
  show nn: "ent_node (inc_ent v) = ent_node v" using u n by (simp add: inc_ent_def ent_node_mk_ent)
  show "take_bit 51 (inc_ent v) = inc_ent v" using u n by (simp add: inc_ent_def mk_ent_fits)
  show "dec_ent (inc_ent v) = v" by (simp add: dec_ent_def r nn mk_ent_collapse)
  show "unat (ent_refs (inc_ent v)) = unat (ent_refs v) + 1" by (simp add: r u)
qed

lemma dec_ent_laws:
  assumes "take_bit 51 v = v" "ent_refs v \<noteq> 0"
  shows "ent_refs (dec_ent v) = ent_refs v - 1" "ent_node (dec_ent v) = ent_node v"
    "take_bit 51 (dec_ent v) = dec_ent v"
    "unat (ent_refs (dec_ent v)) = unat (ent_refs v) - 1"
proof -
  have u0: "unat (ent_refs v - 1) = unat (ent_refs v) - 1"
    using assms(2) by (simp add: unat_minus_one)
  then have u: "unat (ent_refs v - 1) < 8192" using ent_refs_less [of v] by linarith
  note n = ent_node_fits [OF assms(1)]
  show r: "ent_refs (dec_ent v) = ent_refs v - 1" using u by (simp add: dec_ent_def ent_refs_mk_ent)
  show nn: "ent_node (dec_ent v) = ent_node v" using u n by (simp add: dec_ent_def ent_node_mk_ent)
  show "take_bit 51 (dec_ent v) = dec_ent v" using u n by (simp add: dec_ent_def mk_ent_fits)
  show "unat (ent_refs (dec_ent v)) = unat (ent_refs v) - 1" by (simp add: r u0)
qed


section \<open>Ranges of a page\<close>

abbreviation (input) page_ok :: "u64 list \<Rightarrow> bool" where "page_ok p \<equiv> length p = 512"
abbreviation (input) ent :: "u64 list \<Rightarrow> nat \<Rightarrow> u64" where "ent p i \<equiv> BMAP_GET_BLOCK p i 51"

definition inc_range :: "nat \<Rightarrow> nat \<Rightarrow> u64 list \<Rightarrow> u64 list" where
  "inc_range a n p = fold (\<lambda>i q. BMAP_SET_BLOCK q i (inc_ent (ent q i)) 51) [a..<a + n] p"

definition dec_range :: "nat \<Rightarrow> nat \<Rightarrow> u64 list \<Rightarrow> u64 list" where
  "dec_range a n p = fold (\<lambda>i q. BMAP_SET_BLOCK q i (dec_ent (ent q i)) 51) [a..<a + n] p"

lemma inc_range_Suc_front:
  "inc_range a (Suc n) p = inc_range (Suc a) n (BMAP_SET_BLOCK p a (inc_ent (ent p a)) 51)"
  by (simp add: inc_range_def upt_conv_Cons del: upt_Suc)

lemma ref_undo_dec: "ref_undo j p = BMAP_SET_BLOCK p j (dec_ent (ent p j)) 51"
  by (simp add: ref_undo_def dec_ent_def mk_ent_def ent_node_def ent_refs_def Let_def)

lemma inc_range_laws:
  assumes "page_ok p" "a + n \<le> 640" "\<And>i. a \<le> i \<Longrightarrow> i < a + n \<Longrightarrow> ent_refs (ent p i) \<noteq> 8191"
  shows "page_ok (inc_range a n p)" "page_rest 32640 (inc_range a n p) = page_rest 32640 p"
    "ent (inc_range a n p) j = (if a \<le> j \<and> j < a + n then inc_ent (ent p j) else ent p j)"
  using refs_page.wr_range [of p a n inc_ent] assms
  by (auto simp: inc_range_def inc_ent_laws refs_page.rd_fits)

lemma dec_inc_range:
  assumes "page_ok p" "a + n \<le> 640" "\<And>i. a \<le> i \<Longrightarrow> i < a + n \<Longrightarrow> ent_refs (ent p i) \<noteq> 8191"
  shows "dec_range a n (inc_range a n p) = p"
  using refs_page.wr_range_undo [of p a n inc_ent dec_ent] assms
  by (auto simp: inc_range_def dec_range_def inc_ent_laws refs_page.rd_fits)

section \<open>Taking references\<close>

lemma ref_loop_step:
  "ref_loop entry nb p i (Suc n) old =
     (if i = entry \<and> nb \<noteq> 0 \<and> ent_node (ent p i) \<noteq> nb then Ref_return BDEV_ERROR_INVALID_NODE_BLOCK p
      else if ent_refs (ent p i) = 0 then Ref_err BDEV_ERROR_INVALID_REFS i p
      else if i \<noteq> entry \<and> ent_refs (ent p i) \<noteq> old then Ref_err BDEV_ERROR_INVALID_REFS i p
      else if ent_refs (ent p i) = 8191 then Ref_err BDEV_ERROR_MAX_REFS i p
      else ref_loop entry nb (BMAP_SET_BLOCK p i (inc_ent (ent p i)) 51) (Suc i) n
             (if i = entry then ent_refs (ent p i) else old))"
  by (simp add: Let_def ent_refs_def ent_node_def inc_ent_def mk_ent_def)

declare ref_loop.simps(2) [simp del]

lemma ref_loop_done:
  assumes "ref_loop entry nb p i n old = Ref_done q" "page_ok p" "i + n \<le> 640"
  shows "q = inc_range i n p \<and>
         (\<forall>j. i \<le> j \<and> j < i + n \<longrightarrow> ent_refs (ent p j) \<noteq> 0 \<and> ent_refs (ent p j) \<noteq> 8191 \<and>
              (j \<noteq> entry \<longrightarrow> ent_refs (ent p j) = (if i \<le> entry \<and> entry < j then ent_refs (ent p entry) else old)))"
  using assms
proof (induction n arbitrary: p i old)
  case 0
  then show ?case by (auto simp: inc_range_def)
next
  case (Suc n)
  let ?p = "BMAP_SET_BLOCK p i (inc_ent (ent p i)) 51"
  from Suc.prems(1) have h: "ent_refs (ent p i) \<noteq> 0" "i \<noteq> entry \<Longrightarrow> ent_refs (ent p i) = old"
    "ent_refs (ent p i) \<noteq> 8191"
    "ref_loop entry nb ?p (Suc i) n (if i = entry then ent_refs (ent p i) else old) = Ref_done q"
    by (auto simp: ref_loop_step split: if_splits)
  have f: "take_bit 51 (inc_ent (ent p i)) = inc_ent (ent p i)"
    using h(3) Suc.prems(2) by (simp add: inc_ent_laws refs_page.rd_fits)
  have o: "ent ?p j = ent p j" if "i \<noteq> j" for j
    using that f Suc.prems by (intro refs_page.rd_wr_other) auto
  from Suc.IH [OF h(4)] Suc.prems
  have ih: "q = inc_range (Suc i) n ?p"
    "\<And>j. Suc i \<le> j \<Longrightarrow> j < Suc i + n \<Longrightarrow> ent_refs (ent ?p j) \<noteq> 0 \<and> ent_refs (ent ?p j) \<noteq> 8191 \<and>
       (j \<noteq> entry \<longrightarrow> ent_refs (ent ?p j) = (if Suc i \<le> entry \<and> entry < j then ent_refs (ent ?p entry)
           else if i = entry then ent_refs (ent p i) else old))"
    by auto
  show ?case
  proof (intro conjI allI impI)
    show "q = inc_range i (Suc n) p" using ih(1) by (simp add: inc_range_Suc_front)
  next
    fix j assume j: "i \<le> j \<and> j < i + Suc n"
    show "ent_refs (ent p j) \<noteq> 0" "ent_refs (ent p j) \<noteq> 8191"
      using h(1,3) ih(2) [of j] o [of j] j by (cases "j = i"; auto)+
    assume ne: "j \<noteq> entry"
    show "ent_refs (ent p j) = (if i \<le> entry \<and> entry < j then ent_refs (ent p entry) else old)"
    proof (cases "j = i")
      case True
      with h(2) ne show ?thesis by auto
    next
      case False
      with ih(2) [of j] o [of j] o [of entry] j ne show ?thesis by (cases "i = entry") auto
    qed
  qed
qed

lemma ref_loop_err:
  assumes "ref_loop entry nb p i n old = Ref_err e k q" "page_ok p" "i + n \<le> 640"
  shows "i \<le> k \<and> k < i + n \<and> q = inc_range i (k - i) p \<and>
         (\<forall>j. i \<le> j \<and> j < k \<longrightarrow> ent_refs (ent p j) \<noteq> 8191)"
  using assms
proof (induction n arbitrary: p i old)
  case 0
  then show ?case by simp
next
  case (Suc n)
  let ?p = "BMAP_SET_BLOCK p i (inc_ent (ent p i)) 51"
  show ?case
  proof (cases "k = i \<and> q = p")
    case True
    then show ?thesis by (auto simp: inc_range_def)
  next
    case False
    with Suc.prems(1) have h: "ent_refs (ent p i) \<noteq> 8191"
      "ref_loop entry nb ?p (Suc i) n (if i = entry then ent_refs (ent p i) else old) = Ref_err e k q"
      by (auto simp: ref_loop_step split: if_splits)
    have f: "take_bit 51 (inc_ent (ent p i)) = inc_ent (ent p i)"
      using h(1) Suc.prems(2) by (simp add: inc_ent_laws refs_page.rd_fits)
    have o: "ent ?p j = ent p j" if "i \<noteq> j" for j
      using that f Suc.prems by (intro refs_page.rd_wr_other) auto
    from Suc.IH [OF h(2)] Suc.prems
    have ih: "Suc i \<le> k" "k < Suc i + n" "q = inc_range (Suc i) (k - Suc i) ?p"
      "\<And>j. Suc i \<le> j \<Longrightarrow> j < k \<Longrightarrow> ent_refs (ent ?p j) \<noteq> 8191"
      by auto
    have "q = inc_range i (k - i) p"
      using ih(1,3) by (simp add: inc_range_Suc_front [symmetric] Suc_diff_Suc)
    moreover have "ent_refs (ent p j) \<noteq> 8191" if "i \<le> j" "j < k" for j
      using that h(1) ih(4) [of j] o [of j] by (cases "j = i") auto
    ultimately show ?thesis using ih(1,2) by auto
  qed
qed


lemma ref_loop_no_return: "entry < i \<Longrightarrow> ref_loop entry nb p i n old \<noteq> Ref_return e q"
  by (induction n arbitrary: p i old) (auto simp: ref_loop_step)

lemma ref_loop_return: "ref_loop entry nb p entry n old = Ref_return e q \<Longrightarrow> q = p"
  by (cases n) (auto simp: ref_loop_step ref_loop_no_return split: if_splits)

lemma ref_loop_succeeds:
  assumes "\<And>j. i \<le> j \<Longrightarrow> j < i + n \<Longrightarrow> ent_refs (ent p j) = old" "old \<noteq> 0" "old \<noteq> 8191"
    "page_ok p" "i + n \<le> 640" "entry < i"
  shows "\<exists>q. ref_loop entry nb p i n old = Ref_done q"
  using assms(1,4-)
proof (induction n arbitrary: p i)
  case (Suc n)
  let ?p = "BMAP_SET_BLOCK p i (inc_ent (ent p i)) 51"
  have r: "ent_refs (ent p i) = old" using Suc.prems(1) by simp
  have f: "take_bit 51 (inc_ent (ent p i)) = inc_ent (ent p i)"
    using r assms(3) Suc.prems(2) by (simp add: inc_ent_laws refs_page.rd_fits)
  have "ent ?p j = ent p j" if "i \<noteq> j" for j
    using that f Suc.prems by (intro refs_page.rd_wr_other) auto
  then have "\<exists>q. ref_loop entry nb ?p (Suc i) n old = Ref_done q"
    using Suc.prems by (intro Suc.IH) auto
  then show ?case using r assms(2,3) Suc.prems(4) by (simp add: ref_loop_step)
qed simp

text \<open>The entries a reference can be taken on: equal counts, in range, and the expected node.\<close>

definition can_ref :: "u64 list \<Rightarrow> nat \<Rightarrow> nat \<Rightarrow> u64 \<Rightarrow> bool" where
  "can_ref p entry n nb \<longleftrightarrow>
     (n \<noteq> 0 \<longrightarrow> nb = 0 \<or> ent_node (ent p entry) = nb) \<and>
     list_all (\<lambda>j. ent_refs (ent p entry) = ent_refs (ent p j) \<and> ent_refs (ent p j) \<noteq> 0 \<and>
                   ent_refs (ent p j) \<noteq> 8191) [entry..<entry + n]"

lemma ref_loop_iff:
  assumes "page_ok p" "entry + n \<le> 640"
  shows "(\<exists>q. ref_loop entry nb p entry n old = Ref_done q) \<longleftrightarrow> can_ref p entry n nb"
proof
  assume "\<exists>q. ref_loop entry nb p entry n old = Ref_done q"
  then obtain q where q: "ref_loop entry nb p entry n old = Ref_done q" ..
  from q have "n \<noteq> 0 \<longrightarrow> nb = 0 \<or> ent_node (ent p entry) = nb"
    by (cases n) (auto simp: ref_loop_step split: if_splits)
  moreover have "ent_refs (ent p entry) = ent_refs (ent p j) \<and> ent_refs (ent p j) \<noteq> 0 \<and>
      ent_refs (ent p j) \<noteq> 8191" if "entry \<le> j" "j < entry + n" for j
  proof -
    note d = ref_loop_done [OF q assms, THEN conjunct2, rule_format, of j, OF conjI [OF that]]
    have "ent_refs (ent p entry) = ent_refs (ent p j)"
      using d that by (cases "j = entry") simp_all
    then show ?thesis using conjunct1 [OF d] conjunct1 [OF conjunct2 [OF d]] by (intro conjI)
  qed
  ultimately show "can_ref p entry n nb" by (simp add: can_ref_def list_all_iff)
next
  assume a: "can_ref p entry n nb"
  show "\<exists>q. ref_loop entry nb p entry n old = Ref_done q"
  proof (cases n)
    case (Suc m)
    let ?p = "BMAP_SET_BLOCK p entry (inc_ent (ent p entry)) 51"
    have all: "entry \<le> j \<Longrightarrow> j < entry + n \<Longrightarrow> ent_refs (ent p entry) = ent_refs (ent p j) \<and>
        ent_refs (ent p j) \<noteq> 0 \<and> ent_refs (ent p j) \<noteq> 8191" for j
      using a by (simp add: can_ref_def list_all_iff)
    have r: "ent_refs (ent p entry) \<noteq> 0" "ent_refs (ent p entry) \<noteq> 8191"
      "nb = 0 \<or> ent_node (ent p entry) = nb"
      using all [of entry] a Suc by (simp_all add: can_ref_def)
    have f: "take_bit 51 (inc_ent (ent p entry)) = inc_ent (ent p entry)"
      using r assms by (simp add: inc_ent_laws refs_page.rd_fits)
    have "ent ?p j = ent p j" if "entry \<noteq> j" for j
      using that f assms Suc by (intro refs_page.rd_wr_other) auto
    then have "ent_refs (ent ?p j) = ent_refs (ent p entry)" if "Suc entry \<le> j" "j < Suc entry + m" for j
      using all [of j] that Suc by simp
    then have "\<exists>q. ref_loop entry nb ?p (Suc entry) m (ent_refs (ent p entry)) = Ref_done q"
      using r assms Suc by (intro ref_loop_succeeds) auto
    then show ?thesis using r Suc by (auto simp: ref_loop_step)
  qed simp
qed

lemma ref_undo_range: "fold ref_undo [a..<a + n] p = dec_range a n p"
  unfolding dec_range_def by (rule fold_cong) (simp_all add: ref_undo_dec fun_eq_iff)

lemma ref_loop_rollback:
  assumes "ref_loop entry nb p entry n old = Ref_err e k q" "page_ok p" "entry + n \<le> 640"
  shows "fold ref_undo [entry..<k] q = p"
proof -
  from ref_loop_err [OF assms] have k: "entry \<le> k" "k < entry + n" "q = inc_range entry (k - entry) p"
    "\<And>j. entry \<le> j \<Longrightarrow> j < k \<Longrightarrow> ent_refs (ent p j) \<noteq> 8191" by auto
  then have "dec_range entry (k - entry) q = p"
    using assms by (simp add: dec_inc_range)
  with k(1) show ?thesis by (simp add: ref_undo_range [symmetric])
qed

lemma bint_ref_block_cases:
  fixes c entry sz
  defines "n \<equiv> unat (drop_bit (bint_meta_shift (bint c)) sz)"
  assumes "page_ok (metadata (index c))" "entry + n \<le> 640"
  shows "\<not> can_ref (metadata (index c)) entry n nb \<Longrightarrow>
           \<exists>e. bint_ref_block c entry sz info nb = (Inl e, info, c)"
    and "can_ref (metadata (index c)) entry n nb \<Longrightarrow>
           \<exists>info' c'. bint_ref_block c entry sz info nb = (Inr (), info', c') \<and>
             metadata (index c') = inc_range entry n (metadata (index c)) \<and>
             free_blocks (index c') = free_blocks (index c) \<and> bint_free (bint c') = bint_free (bint c)"
proof -
  let ?p = "metadata (index c)"
  note iff = ref_loop_iff [OF assms(2,3), of nb 0]
  show "\<exists>e. bint_ref_block c entry sz info nb = (Inl e, info, c)" if "\<not> can_ref ?p entry n nb"
  proof (cases "ref_loop entry nb ?p entry n 0")
    case (Ref_return e q)
    with ref_loop_return [OF this] show ?thesis by (simp add: bint_ref_block_def n_def)
  next
    case (Ref_err e k q)
    with ref_loop_rollback [OF this assms(2,3)] show ?thesis by (simp add: bint_ref_block_def n_def)
  qed (use that iff in auto)
  assume "can_ref ?p entry n nb"
  with iff obtain q where q: "ref_loop entry nb ?p entry n 0 = Ref_done q" by blast
  from ref_loop_done [OF this assms(2,3)] have "q = inc_range entry n ?p" by blast
  with q show "\<exists>info' c'. bint_ref_block c entry sz info nb = (Inr (), info', c') \<and>
             metadata (index c') = inc_range entry n ?p \<and>
             free_blocks (index c') = free_blocks (index c) \<and> bint_free (bint c') = bint_free (bint c)"
    by (simp add: bint_ref_block_def n_def Let_def BINT_STATS_ADD_def bint_set_io_pending_def
        index_add_iowaiter_def index_get_def)
qed

section \<open>First-fit allocation\<close>

definition free_run :: "u64 list \<Rightarrow> nat \<Rightarrow> nat \<Rightarrow> bool" where
  "free_run p s n \<longleftrightarrow> s + n \<le> 640 \<and> list_all (bmap_free p) [s..<s + n]"

text \<open>Reference search: the least start, at or after \<open>i\<close>, of \<open>n\<close> free entries.\<close>

definition first_run :: "u64 list \<Rightarrow> nat \<Rightarrow> nat \<Rightarrow> nat option" where
  "first_run p n i = find (\<lambda>s. free_run p s n) [i..<641]"

lemma find_upt_Some:
  "find P [i..<n] = Some s \<longleftrightarrow> i \<le> s \<and> s < n \<and> P s \<and> (\<forall>j. i \<le> j \<and> j < s \<longrightarrow> \<not> P j)"
proof
  assume "find P [i..<n] = Some s"
  then obtain k where k: "k < n - i" "P (i + k)" "s = i + k" "\<And>j. j < k \<Longrightarrow> \<not> P (i + j)"
    by (auto simp: find_Some_iff)
  have "\<not> P j" if "i \<le> j" "j < s" for j
    using k(4) [of "j - i"] k(3) that by simp
  with k show "i \<le> s \<and> s < n \<and> P s \<and> (\<forall>j. i \<le> j \<and> j < s \<longrightarrow> \<not> P j)" by auto
next
  assume a: "i \<le> s \<and> s < n \<and> P s \<and> (\<forall>j. i \<le> j \<and> j < s \<longrightarrow> \<not> P j)"
  show "find P [i..<n] = Some s"
    unfolding find_Some_iff by (rule exI [of _ "s - i"]) (use a in \<open>auto simp: less_diff_conv\<close>)
qed

lemma find_upt_None: "find P [i..<n] = None \<longleftrightarrow> (\<forall>j. i \<le> j \<and> j < n \<longrightarrow> \<not> P j)"
  by (auto simp: find_None_iff)

text \<open>What the scan owes from the first candidate start \<open>lo\<close> on.\<close>

definition scan_spec :: "u64 list \<Rightarrow> nat \<Rightarrow> nat \<Rightarrow> (nat \<times> nat) option \<Rightarrow> bool" where
  "scan_spec p n lo r = (case r of
       None \<Rightarrow> (\<forall>s. lo \<le> s \<longrightarrow> \<not> free_run p s n)
     | Some (k, e) \<Rightarrow> e + 1 = n \<and> e \<le> k \<and> lo \<le> k - e \<and> free_run p (k - e) n \<and>
         (\<forall>s. lo \<le> s \<and> s < k - e \<longrightarrow> \<not> free_run p s n))"

lemma scan_spec_extend:
  assumes "scan_spec p n hi r" "\<And>s. lo \<le> s \<Longrightarrow> s < hi \<Longrightarrow> \<not> free_run p s n" "lo \<le> hi"
  shows "scan_spec p n lo r"
proof -
  have "\<not> free_run p s n" if "lo \<le> s" "\<And>s. hi \<le> s \<Longrightarrow> \<not> free_run p s n" for s
    using that assms(2) [of s] by (cases "s < hi") auto
  moreover have "\<not> free_run p s n" if "lo \<le> s" "s < k" "\<And>s. hi \<le> s \<Longrightarrow> s < k \<Longrightarrow> \<not> free_run p s n" for s k
    using that assms(2) [of s] by (cases "s < hi") auto
  ultimately show ?thesis
    using assms(1,3) by (cases r) (auto simp: scan_spec_def)
qed

lemma alloc_scan_inv:
  assumes "d \<le> i" "d < n" "\<And>j. i - d \<le> j \<Longrightarrow> j < i \<Longrightarrow> bmap_free p j"
  shows "scan_spec p n (i - d) (alloc_scan p n i d)"
  using assms
proof (induction p n i d rule: alloc_scan.induct)
  case (1 p n i d)
  note step = alloc_scan.simps [of p n i d]
  consider (last) "\<not> i < 640" | (busy) "i < 640" "\<not> bmap_free p i"
    | (fit) "i < 640" "bmap_free p i" "d + 1 = n" | (more) "i < 640" "bmap_free p i" "d + 1 \<noteq> n"
    by blast
  then show ?case
  proof cases
    case last
    then show ?thesis using 1(3-4) by (auto simp: step scan_spec_def free_run_def)
  next
    case busy
    have no: "\<not> free_run p s n" if "i - d \<le> s" "s < i + 1" for s
    proof -
      have "i \<in> set [s..<s + n]" using that 1(3-4) by auto
      with busy show ?thesis by (auto simp: free_run_def list_all_iff)
    qed
    have "scan_spec p n (i + 1) (alloc_scan p n (i + 1) 0)"
      using 1(1) [OF busy] 1(4) by simp
    then have "scan_spec p n (i - d) (alloc_scan p n (i + 1) 0)"
      by (rule scan_spec_extend) (use no in auto)
    then show ?thesis using busy by (simp add: step)
  next
    case fit
    have "bmap_free p j" if "i - d \<le> j" "j < i - d + n" for j
      using that fit 1(3) 1(5) [of j] by (cases "j = i") auto
    then have "free_run p (i - d) n"
      using fit 1(3) by (simp add: free_run_def list_all_iff)
    with fit 1(3) show ?thesis by (auto simp: step scan_spec_def)
  next
    case more
    have "bmap_free p j" if "i - d \<le> j" "j < i + 1" for j
      using that more 1(5) [of j] by (cases "j = i") auto
    then have "scan_spec p n (i + 1 - (d + 1)) (alloc_scan p n (i + 1) (d + 1))"
      using 1(2) more 1(3,4) by simp
    then show ?thesis using more by (simp add: step)
  qed
qed

lemma alloc_scan_first_run:
  assumes "0 < n"
  shows "alloc_scan p n i 0 = map_option (\<lambda>s. (s + n - 1, n - 1)) (first_run p n i)"
proof (cases "alloc_scan p n i 0")
  case None
  with alloc_scan_inv [of 0 i n p] assms have "\<forall>s. i \<le> s \<longrightarrow> \<not> free_run p s n"
    by (simp add: scan_spec_def)
  then have "first_run p n i = None" by (simp add: first_run_def find_upt_None)
  with None show ?thesis by simp
next
  case (Some ke)
  then obtain k e where ke: "alloc_scan p n i 0 = Some (k, e)" by (cases ke) auto
  with alloc_scan_inv [of 0 i n p] assms
  have s: "e + 1 = n" "e \<le> k" "i \<le> k - e" "free_run p (k - e) n"
    "\<forall>s. i \<le> s \<and> s < k - e \<longrightarrow> \<not> free_run p s n" by (auto simp: scan_spec_def)
  then have "first_run p n i = Some (k - e)"
    by (auto simp: first_run_def find_upt_Some free_run_def)
  with s ke show ?thesis by auto
qed

section \<open>Free entries and the free-space account\<close>

definition nfree :: "u64 list \<Rightarrow> nat" where
  "nfree p = length (filter (bmap_free p) [0..<640])"

text \<open>An entry without references carries no node.\<close>

definition page_wf :: "u64 list \<Rightarrow> bool" where
  "page_wf p \<longleftrightarrow> length p = 512 \<and> list_all (\<lambda>i. ent_refs (ent p i) = 0 \<longrightarrow> ent p i = 0) [0..<640]"

text \<open>The free bytes of the disk that lie outside this index. No operation on the index may change it.\<close>

definition account :: "ictx \<Rightarrow> u64" where
  "account c = bint_free (bint c) - push_bit (bint_meta_shift (bint c)) (of_nat (nfree (metadata (index c))))"

lemma nfree_le: "nfree p \<le> 640"
  unfolding nfree_def using length_filter_le [of "bmap_free p" "[0..<640]"] by simp

lemma nfree_cong: "(\<And>j. j < 640 \<Longrightarrow> ent p j = 0 \<longleftrightarrow> ent q j = 0) \<Longrightarrow> nfree p = nfree q"
  unfolding nfree_def by (intro arg_cong [where f = length] filter_cong) (auto simp: bmap_free_def)

lemma card_filter_upt: "length (filter P [0..<n]) = card {j. j < n \<and> P j}"
  by (simp add: distinct_length_filter Collect_conj_eq Int_commute lessThan_def atLeast0LessThan)

lemma nfree_card: "nfree p = card {j. j < 640 \<and> ent p j = 0}"
  by (simp add: nfree_def card_filter_upt bmap_free_def)

text \<open>Filling a set of free entries, and emptying a set of used ones.\<close>

lemma nfree_fill:
  assumes "S \<subseteq> {j. j < 640 \<and> ent p j = 0}" "\<And>j. j < 640 \<Longrightarrow> ent q j = 0 \<longleftrightarrow> ent p j = 0 \<and> j \<notin> S"
  shows "nfree p = nfree q + card S"
proof -
  have "{j. j < 640 \<and> ent p j = 0} = {j. j < 640 \<and> ent q j = 0} \<union> S"
    "{j. j < 640 \<and> ent q j = 0} \<inter> S = {}"
    using assms by auto
  moreover have "finite S" using assms(1) by (rule finite_subset) simp
  ultimately show ?thesis by (simp add: nfree_card card_Un_disjoint)
qed

lemma page_wf_D: "page_wf p \<Longrightarrow> i < 640 \<Longrightarrow> ent_refs (ent p i) = 0 \<Longrightarrow> ent p i = 0"
  by (auto simp: page_wf_def list_all_iff)

lemma page_wf_length: "page_wf p \<Longrightarrow> length p = 512"
  by (simp add: page_wf_def)

lemma page_wf_I:
  "length p = 512 \<Longrightarrow> (\<And>i. i < 640 \<Longrightarrow> ent_refs (ent p i) = 0 \<Longrightarrow> ent p i = 0) \<Longrightarrow> page_wf p"
  by (auto simp: page_wf_def list_all_iff)

lemma ent_refs_0 [simp]: "ent_refs 0 = 0" by (simp add: ent_refs_def)
lemma ent_refs_1 [simp]: "ent_refs 1 = 1" by (simp add: ent_refs_def)

section \<open>Marking a run\<close>

definition set_range :: "nat \<Rightarrow> nat \<Rightarrow> u64 list \<Rightarrow> u64 list" where
  "set_range a n p = fold (\<lambda>i q. BMAP_SET_BLOCK q i 1 51) [a..<a + n] p"

lemma set_range_laws:
  assumes "page_ok p" "a + n \<le> 640"
  shows "page_ok (set_range a n p)" "page_rest 32640 (set_range a n p) = page_rest 32640 p"
    "ent (set_range a n p) j = (if a \<le> j \<and> j < a + n then 1 else ent p j)"
  using refs_page.wr_range_const [of p a n 1] assms by (auto simp: set_range_def)

lemma set_range_wf: "page_wf p \<Longrightarrow> a + n \<le> 640 \<Longrightarrow> page_wf (set_range a n p)"
  by (intro page_wf_I) (auto simp: set_range_laws page_wf_length dest: page_wf_D split: if_splits)

lemma set_range_nfree:
  assumes "page_ok p" "free_run p a n"
  shows "nfree p = nfree (set_range a n p) + n"
proof -
  have le: "a + n \<le> 640" and fr: "\<And>j. a \<le> j \<Longrightarrow> j < a + n \<Longrightarrow> ent p j = 0"
    using assms(2) by (auto simp: free_run_def list_all_iff bmap_free_def)
  have "nfree p = nfree (set_range a n p) + card {a..<a + n}"
    by (rule nfree_fill) (use le fr set_range_laws(3) [OF assms(1) le] in \<open>auto split: if_splits\<close>)
  then show ?thesis by simp
qed

section \<open>Taking references keeps the free entries\<close>

lemma inc_range_wf:
  assumes "page_wf p" "a + n \<le> 640"
    "\<And>i. a \<le> i \<Longrightarrow> i < a + n \<Longrightarrow> ent_refs (ent p i) \<noteq> 0 \<and> ent_refs (ent p i) \<noteq> 8191"
  shows "page_wf (inc_range a n p) \<and> nfree (inc_range a n p) = nfree p"
proof -
  note ok = page_wf_length [OF assms(1)]
  note laws = inc_range_laws [OF ok assms(2) conjunct2 [OF assms(3)]]
  have pos: "ent_refs (inc_ent (ent p j)) \<noteq> 0" if "a \<le> j" "j < a + n" for j
  proof -
    have "unat (ent_refs (inc_ent (ent p j))) = unat (ent_refs (ent p j)) + 1"
      using inc_ent_laws(5) assms(3) [OF that] refs_page.rd_fits [OF ok] by blast
    then show ?thesis by (auto simp: word_unat_eq_iff)
  qed
  have "page_wf (inc_range a n p)"
    using assms(3) pos laws page_wf_D [OF assms(1)] by (intro page_wf_I) (auto split: if_splits)
  moreover have "nfree (inc_range a n p) = nfree p"
  proof (rule nfree_cong)
    fix j :: nat
    assume "j < 640"
    show "ent (inc_range a n p) j = 0 \<longleftrightarrow> ent p j = 0"
      using assms(3) [of j] pos [of j] laws by (cases "a \<le> j \<and> j < a + n") auto
  qed
  ultimately show ?thesis ..
qed

section \<open>Dropping references\<close>

definition drop_ent :: "u64 \<Rightarrow> u64" where
  "drop_ent v = (if ent_refs v = 1 then 0 else dec_ent v)"

definition drop_range :: "nat \<Rightarrow> nat \<Rightarrow> u64 list \<Rightarrow> u64 list" where
  "drop_range a n p = fold (\<lambda>i q. BMAP_SET_BLOCK q i (drop_ent (ent q i)) 51) [a..<a + n] p"

lemma drop_range_Suc_front:
  "drop_range a (Suc n) p = drop_range (Suc a) n (BMAP_SET_BLOCK p a (drop_ent (ent p a)) 51)"
  by (simp add: drop_range_def upt_conv_Cons del: upt_Suc)

lemma drop_ent_fits: "take_bit 51 v = v \<Longrightarrow> ent_refs v \<noteq> 0 \<Longrightarrow> take_bit 51 (drop_ent v) = drop_ent v"
  by (simp add: drop_ent_def dec_ent_laws)

lemma drop_range_laws:
  assumes "page_ok p" "a + n \<le> 640" "\<And>i. a \<le> i \<Longrightarrow> i < a + n \<Longrightarrow> ent_refs (ent p i) \<noteq> 0"
  shows "page_ok (drop_range a n p)" "page_rest 32640 (drop_range a n p) = page_rest 32640 p"
    "ent (drop_range a n p) j = (if a \<le> j \<and> j < a + n then drop_ent (ent p j) else ent p j)"
  using refs_page.wr_range [of p a n drop_ent] assms
  by (auto simp: drop_range_def drop_ent_fits refs_page.rd_fits)

lemma drop_ent_zero:
  assumes "take_bit 51 v = v" "ent_refs v \<noteq> 0"
  shows "drop_ent v = 0 \<longleftrightarrow> ent_refs v = 1" "ent_refs (drop_ent v) = 0 \<longleftrightarrow> ent_refs v = 1"
proof -
  have "ent_refs (dec_ent v) \<noteq> 0" if "ent_refs v \<noteq> 1"
  proof -
    have "unat (ent_refs v) \<noteq> 0" "unat (ent_refs v) \<noteq> 1" using assms that by (auto simp: word_unat_eq_iff)
    then show ?thesis using dec_ent_laws(4) [OF assms] by (auto simp: word_unat_eq_iff)
  qed
  then show "drop_ent v = 0 \<longleftrightarrow> ent_refs v = 1" "ent_refs (drop_ent v) = 0 \<longleftrightarrow> ent_refs v = 1"
    by (auto simp: drop_ent_def)
qed

text \<open>The entries of a range that hold their last reference.\<close>

definition last_refs :: "nat \<Rightarrow> nat \<Rightarrow> u64 list \<Rightarrow> nat" where
  "last_refs a n p = length (filter (\<lambda>j. ent_refs (ent p j) = 1) [a..<a + n])"

lemma drop_range_wf:
  assumes "page_wf p" "a + n \<le> 640" "\<And>i. a \<le> i \<Longrightarrow> i < a + n \<Longrightarrow> ent_refs (ent p i) \<noteq> 0"
  shows "page_wf (drop_range a n p)" "nfree (drop_range a n p) = nfree p + last_refs a n p"
proof -
  note ok = page_wf_length [OF assms(1)]
  note laws = drop_range_laws [OF ok assms(2,3)]
  note z = drop_ent_zero [OF refs_page.rd_fits [OF ok] assms(3)]
  show "page_wf (drop_range a n p)"
    using z laws page_wf_D [OF assms(1)] by (intro page_wf_I) (auto split: if_splits)
  let ?S = "{j. a \<le> j \<and> j < a + n \<and> ent_refs (ent p j) = 1}"
  have "nfree (drop_range a n p) = nfree p + card ?S"
  proof (rule nfree_fill)
    show "?S \<subseteq> {j. j < 640 \<and> ent (drop_range a n p) j = 0}"
      using assms(2) laws z by auto
    show "ent p j = 0 \<longleftrightarrow> ent (drop_range a n p) j = 0 \<and> j \<notin> ?S" if "j < 640" for j
      using z assms(3) [of j] laws by (cases "a \<le> j \<and> j < a + n") auto
  qed
  moreover have "last_refs a n p = card ?S"
    by (simp add: last_refs_def distinct_length_filter) (rule arg_cong [where f = card], auto)
  ultimately show "nfree (drop_range a n p) = nfree p + last_refs a n p" by simp
qed

end
