(* ===== verification/IndexProps.thy ===== *)
theory IndexProps
  imports IndexEntries
begin

text \<open>
  What the operations on an index page guarantee. The first sections give each operation's
  effect on the page, on the free count of the index and on the free space of the disk.
  \<open>ix_inv\<close> is the invariant they keep and \<open>ix_step\<close> the operations as a step relation. The
  properties at the end are the contract the rest of the system relies on.
\<close>

unbundle bit_operations_syntax

named_theorems frame_simps \<open>parts of the index context an operation leaves alone\<close>

section \<open>Frames\<close>

text \<open>What the bookkeeping helpers leave alone.\<close>

lemma io_pending_frame [frame_simps]:
  "index (bint_set_io_pending c) = index c" "bint_free (bint (bint_set_io_pending c)) = bint_free (bint c)"
  "bint_meta_shift (bint (bint_set_io_pending c)) = bint_meta_shift (bint c)"
  by (simp_all add: bint_set_io_pending_def bint_meta_shift_def)

lemma stats_frame [frame_simps]:
  "index (BINT_STATS_ADD f v c) = index c" "bint_free (bint (BINT_STATS_ADD f v c)) = bint_free (bint c)"
  "bint_meta_shift (bint (BINT_STATS_ADD f v c)) = bint_meta_shift (bint c)"
  "index (BINT_STATS_SUB f v c) = index c" "bint_free (bint (BINT_STATS_SUB f v c)) = bint_free (bint c)"
  "bint_meta_shift (bint (BINT_STATS_SUB f v c)) = bint_meta_shift (bint c)"
  by (simp_all add: BINT_STATS_ADD_def BINT_STATS_SUB_def io_pending_frame) (simp_all add: bint_meta_shift_def)

lemma decr_free_frame [frame_simps]:
  "index (bint_decr_free c k) = index c" "bint_meta_shift (bint (bint_decr_free c k)) = bint_meta_shift (bint c)"
  "bint_free (bint (bint_decr_free c k)) = bint_free (bint c) - ucast (push_bit (bint_meta_shift (bint c)) k)"
  "index (bint_incr_free c k) = index c" "bint_meta_shift (bint (bint_incr_free c k)) = bint_meta_shift (bint c)"
  "bint_free (bint (bint_incr_free c k)) = bint_free (bint c) + ucast (push_bit (bint_meta_shift (bint c)) k)"
  by (simp_all add: bint_decr_free_def bint_incr_free_def raw_bint_decr_free_def raw_bint_incr_free_def
      io_pending_frame Let_def) (simp_all add: bint_meta_shift_def)

lemma full_frame [frame_simps]:
  "metadata (index (bint_mark_index_full c)) = metadata (index c)"
  "free_blocks (index (bint_mark_index_full c)) = free_blocks (index c)"
  "check_idx (index (bint_mark_index_full c)) = check_idx (index c)"
  "bit (index_flags (index (bint_mark_index_full c))) n \<longleftrightarrow> n \<noteq> 11 \<and> bit (index_flags (index c)) n"
  "bint (bint_mark_index_full c) = bint c"
  "metadata (index (bint_unmark_index_full c)) = metadata (index c)"
  "free_blocks (index (bint_unmark_index_full c)) = free_blocks (index c)"
  "check_idx (index (bint_unmark_index_full c)) = check_idx (index c)"
  "bit (index_flags (index (bint_unmark_index_full c))) n \<longleftrightarrow> n = 11 \<or> bit (index_flags (index c)) n"
  "bint (bint_unmark_index_full c) = bint c"
  by (auto simp: bint_mark_index_full_def bint_unmark_index_full_def Let_def split_beta bit_simps)

lemma index_frame [frame_simps]:
  "metadata (index (index_add_iowaiter c w)) = metadata (index c)"
  "free_blocks (index (index_add_iowaiter c w)) = free_blocks (index c)"
  "check_idx (index (index_add_iowaiter c w)) = check_idx (index c)"
  "index_flags (index (index_add_iowaiter c w)) = index_flags (index c)"
  "bint (index_add_iowaiter c w) = bint c"
  "metadata (index (index_get c)) = metadata (index c)" "free_blocks (index (index_get c)) = free_blocks (index c)"
  "check_idx (index (index_get c)) = check_idx (index c)" "index_flags (index (index_get c)) = index_flags (index c)"
  "bint (index_get c) = bint c"
  by (simp_all add: index_add_iowaiter_def index_get_def)

lemma barrier_frame [frame_simps]:
  "metadata (index (index_write_barrier b c)) = metadata (index c)"
  "free_blocks (index (index_write_barrier b c)) = free_blocks (index c)"
  "check_idx (index (index_write_barrier b c)) = check_idx (index c)"
  "bint (index_write_barrier b c) = bint c"
  "n \<noteq> 1 \<Longrightarrow> n \<noteq> 5 \<Longrightarrow> bit (index_flags (index (index_write_barrier b c))) n = bit (index_flags (index c)) n"
  by (auto simp: index_write_barrier_def bit_simps)

lemma csum_frame [frame_simps]:
  "metadata (index (snd (index_check_csum c))) = metadata (index c)"
  "free_blocks (index (snd (index_check_csum c))) = free_blocks (index c)"
  "check_idx (index (snd (index_check_csum c))) = check_idx (index c)"
  "bint (snd (index_check_csum c)) = bint c"
  "n \<noteq> 2 \<Longrightarrow> n \<noteq> 8 \<Longrightarrow> bit (index_flags (index (snd (index_check_csum c)))) n = bit (index_flags (index c)) n"
  by (auto simp: index_check_csum_def Let_def split_beta bit_simps)

section \<open>The account in words\<close>

lemma meta_shift_le: "bint_meta_shift b \<le> 12" "10 \<le> bint_meta_shift b"
  by (simp_all add: bint_meta_shift_def)

lemma ucast_span:
  assumes "n \<le> 640"
  shows "(ucast (push_bit (bint_meta_shift b) (of_nat n :: u32)) :: u64) = push_bit (bint_meta_shift b) (of_nat n)"
proof -
  have le: "n * 2 ^ bint_meta_shift b < 2 ^ 32"
  proof -
    have "n * 2 ^ bint_meta_shift b \<le> 640 * 2 ^ 12"
      using assms meta_shift_le(1) by (intro mult_mono power_increasing) auto
    then show ?thesis by simp
  qed
  have "push_bit (bint_meta_shift b) (of_nat n :: u32) = of_nat (n * 2 ^ bint_meta_shift b)"
    by (simp add: push_bit_eq_mult)
  moreover have "push_bit (bint_meta_shift b) (of_nat n :: u64) = of_nat (n * 2 ^ bint_meta_shift b)"
    by (simp add: push_bit_eq_mult)
  moreover have "(ucast (of_nat k :: u32) :: u64) = of_nat k" if "k < 2 ^ 32" for k
    using that by (simp add: word_unat_eq_iff unsigned_of_nat take_bit_nat_eq_self)
  ultimately show ?thesis using le by metis
qed

lemma account_cong:
  "bint_free (bint c') = bint_free (bint c) - push_bit (bint_meta_shift (bint c)) (of_nat k) \<Longrightarrow>
   bint_meta_shift (bint c') = bint_meta_shift (bint c) \<Longrightarrow>
   nfree (metadata (index c)) = nfree (metadata (index c')) + k \<Longrightarrow> account c' = account c"
  "bint_free (bint c') = bint_free (bint c) + push_bit (bint_meta_shift (bint c)) (of_nat k) \<Longrightarrow>
   bint_meta_shift (bint c') = bint_meta_shift (bint c) \<Longrightarrow>
   nfree (metadata (index c')) = nfree (metadata (index c)) + k \<Longrightarrow> account c' = account c"
  by (simp_all add: account_def push_bit_eq_mult algebra_simps)

section \<open>Loading\<close>

lemma load_scan_count:
  "fst (load_scan p is a m) = a + length (filter (bmap_free p) is)"
  by (induction "is" arbitrary: a m) auto

lemma load_scan_first:
  "sorted is \<Longrightarrow> (\<And>i. i \<in> set is \<Longrightarrow> i < m) \<Longrightarrow>
   snd (load_scan p is a m) = (case find (bmap_free p) is of None \<Rightarrow> m | Some i \<Rightarrow> i)"
proof (induction "is" arbitrary: a m)
  case (Cons i js)
  have "snd (load_scan p js b i) = i" if "\<forall>j\<in>set js. i \<le> j" for b
    using that by (induction js arbitrary: b) auto
  with Cons show ?case by auto
qed simp

lemma load_scan_all: "load_scan p [0..<640] 0 640 = (nfree p, case first_run p 1 0 of None \<Rightarrow> 640 | Some i \<Rightarrow> i)"
proof -
  have "find (bmap_free p) [0..<640] = first_run p 1 0"
  proof (cases "find (bmap_free p) [0..<640]")
    case None
    then have "first_run p 1 0 = None"
      by (auto simp: first_run_def find_None_iff free_run_def list_all_iff)
    with None show ?thesis by simp
  next
    case (Some i)
    then have "first_run p 1 0 = Some i"
      by (auto simp: first_run_def find_upt_Some free_run_def list_all_iff)
    with Some show ?thesis by simp
  qed
  then show ?thesis
    using load_scan_count [of p "[0..<640]" 0 640] load_scan_first [of "[0..<640]" 640 p 0]
    by (simp add: nfree_def prod_eq_iff)
qed

section \<open>Effects of the operations on the page\<close>

definition blocks_of :: "ictx \<Rightarrow> u32 \<Rightarrow> nat" where
  "blocks_of c sz = unat (drop_bit (bint_meta_shift (bint c)) sz)"

lemma index_mark_blocks_effect:
  assumes "n \<le> 640"
  shows "metadata (index (index_mark_blocks pg c a n b)) = set_range a n (metadata (index c))"
    "free_blocks (index (index_mark_blocks pg c a n b)) = free_blocks (index c) - of_nat n"
    "check_idx (index (index_mark_blocks pg c a n b)) = check_idx (index c)"
    "bint_meta_shift (bint (index_mark_blocks pg c a n b)) = bint_meta_shift (bint c)"
    "bint_free (bint (index_mark_blocks pg c a n b)) =
       bint_free (bint c) - push_bit (bint_meta_shift (bint c)) (of_nat n)"
    "k \<noteq> 1 \<Longrightarrow> k \<noteq> 5 \<Longrightarrow> bit (index_flags (index (index_mark_blocks pg c a n b))) k = bit (index_flags (index c)) k"
  using ucast_span [OF assms]
  by (simp_all add: index_mark_blocks_def Let_def set_range_def frame_simps)

lemma bint_alloc_block_none:
  assumes "0 < blocks_of c sz" "first_run (metadata (index c)) (blocks_of c sz) (unat (check_idx (index c))) = None"
  shows "bint_alloc_block pg c sz info ty =
     (0, True, info, c\<lparr>index := (index c)\<lparr>check_idx := of_nat (max (unat (check_idx (index c))) 640)\<rparr>\<rparr>)"
  using assms by (simp add: bint_alloc_block_def Let_def alloc_scan_first_run blocks_of_def)

lemma first_run_bounds: "first_run p n i = Some s \<Longrightarrow> free_run p s n \<and> i \<le> s \<and> s + n \<le> 640"
  by (auto simp: first_run_def find_upt_Some free_run_def)

lemma bint_alloc_block_some:
  assumes "0 < blocks_of c sz" "first_run (metadata (index c)) (blocks_of c sz) (unat (check_idx (index c))) = Some s"
  shows "\<exists>info' c'. bint_alloc_block pg c sz info ty =
       (block_from_index (bint c) (ucast (index_id (index c))) (of_nat s), s + blocks_of c sz = 640, info', c') \<and>
     metadata (index c') = set_range s (blocks_of c sz) (metadata (index c)) \<and>
     free_blocks (index c') = free_blocks (index c) - of_nat (blocks_of c sz) \<and>
     bint_free (bint c') = bint_free (bint c) - push_bit (bint_meta_shift (bint c)) (of_nat (blocks_of c sz)) \<and>
     bint_meta_shift (bint c') = bint_meta_shift (bint c) \<and>
     unat (check_idx (index c')) = s + blocks_of c sz \<and>
     bit (index_flags (index c')) 7 = bit (index_flags (index c)) 7"
proof -
  define n where "n = blocks_of c sz"
  have n: "unat (drop_bit (bint_meta_shift (bint c)) sz) = n" by (simp add: n_def blocks_of_def)
  from first_run_bounds [OF assms(2)] have b: "s + n \<le> 640" "n \<le> 640" by (auto simp: n_def)
  have u: "unat (of_nat (s + n) :: u16) = s + n"
    using b(1) by (simp add: unsigned_of_nat take_bit_nat_eq_self del: of_nat_add)
  have scan: "alloc_scan (metadata (index c)) n (unat (check_idx (index c))) 0 = Some (s + n - 1, n - 1)"
    using assms by (simp add: alloc_scan_first_run n_def)
  have r: "s + n - 1 - (n - 1) = s" "s + n - 1 + 1 = s + n" using assms(1) by (auto simp: n_def)
  show ?thesis
    unfolding n_def [symmetric] bint_alloc_block_def Let_def n scan option.case prod.case r
    by (simp add: frame_simps bit_simps u index_mark_blocks_effect [OF b(2)] del: of_nat_add)
qed

section \<open>Dropping references\<close>

definition free_one :: "block_type \<Rightarrow> nat \<Rightarrow> nat \<Rightarrow> ictx \<Rightarrow> ictx" where
  "free_one type entry i c =
     (let v = ent (metadata (index c)) i;
          c' = set_bmap (BMAP_SET_BLOCK (metadata (index c)) i (drop_ent v) 51) c
      in if ent_refs v = 1
         then (let d = bint_incr_free c' 1 in d\<lparr>index := (index d)\<lparr>free_blocks := free_blocks (index d) + 1\<rparr>\<rparr>)
         else if i = entry \<and> ent_refs v - 1 \<ge> 1 \<and> type = TYPE_DATA_BLOCK
         then BINT_STATS_SUB dedupe_blocks_update 1 c' else c')"

lemma free_loop_step:
  "free_loop type entry c i (Suc n) old nf uf =
     (let r = ent_refs (ent (metadata (index c)) i); old = (if i = entry then r else old)
      in if r = 0 \<or> r \<noteq> old then (False, nf, uf, c)
         else free_loop type entry (free_one type entry i c) (i + 1) n old (nf \<or> r = 1) (uf \<or> r = 1))"
proof -
  have "x - 1 = 0 \<longleftrightarrow> x = 1" for x :: u64 by auto
  then show ?thesis
    by (cases "i = entry") (auto simp: Let_def free_one_def ent_refs_def drop_ent_def dec_ent_def mk_ent_def ent_node_def)
qed

declare free_loop.simps(2) [simp del]

lemma free_one_effect:
  "metadata (index (free_one type entry i c)) =
     BMAP_SET_BLOCK (metadata (index c)) i (drop_ent (ent (metadata (index c)) i)) 51"
  "free_blocks (index (free_one type entry i c)) =
     free_blocks (index c) + of_nat (if ent_refs (ent (metadata (index c)) i) = 1 then 1 else 0)"
  "bint_free (bint (free_one type entry i c)) = bint_free (bint c) +
     push_bit (bint_meta_shift (bint c)) (of_nat (if ent_refs (ent (metadata (index c)) i) = 1 then 1 else 0))"
  "bint_meta_shift (bint (free_one type entry i c)) = bint_meta_shift (bint c)"
  "check_idx (index (free_one type entry i c)) = check_idx (index c)"
  "index_flags (index (free_one type entry i c)) = index_flags (index c)"
  using ucast_span [of 1 "bint c"]
  by (simp_all add: free_one_def Let_def frame_simps)

lemma last_refs_Suc_front:
  "last_refs a (Suc n) p = (if ent_refs (ent p a) = 1 then 1 else 0) + last_refs (Suc a) n p"
  by (simp add: last_refs_def upt_conv_Cons del: upt_Suc)

lemma last_refs_cong:
  "(\<And>j. a \<le> j \<Longrightarrow> j < a + n \<Longrightarrow> ent p j = ent q j) \<Longrightarrow> last_refs a n p = last_refs a n q"
  unfolding last_refs_def by (intro arg_cong [where f = length] filter_cong) auto

text \<open>
  The loop drops a reference on a prefix of the range: all of it unless an entry is free or
  differs from the first.
\<close>

lemma free_loop_effect:
  assumes "free_loop type entry c i n old nf uf = (ok, nf', uf', c')"
    "length (metadata (index c)) = 512" "i + n \<le> 640"
  shows "\<exists>m \<le> n. ok = (m = n) \<and> (\<forall>j. i \<le> j \<and> j < i + m \<longrightarrow> ent_refs (ent (metadata (index c)) j) \<noteq> 0) \<and>
     metadata (index c') = drop_range i m (metadata (index c)) \<and>
     free_blocks (index c') = free_blocks (index c) + of_nat (last_refs i m (metadata (index c))) \<and>
     bint_free (bint c') = bint_free (bint c) +
       push_bit (bint_meta_shift (bint c)) (of_nat (last_refs i m (metadata (index c)))) \<and>
     bint_meta_shift (bint c') = bint_meta_shift (bint c) \<and> check_idx (index c') = check_idx (index c) \<and>
     index_flags (index c') = index_flags (index c)"
  using assms
proof (induction n arbitrary: c i old nf uf)
  case 0
  then show ?case by (auto simp: drop_range_def last_refs_def)
next
  case (Suc n)
  let ?p = "metadata (index c)" and ?c = "free_one type entry i c"
  let ?r = "ent_refs (ent ?p i)"
  show ?case
  proof (cases "?r = 0 \<or> ?r \<noteq> (if i = entry then ?r else old)")
    case True
    with Suc.prems(1) have "ok = False" "c' = c" by (auto simp: free_loop_step Let_def split: if_splits)
    then show ?thesis by (intro exI [of _ 0]) (auto simp: drop_range_def last_refs_def)
  next
    case False
    have f: "take_bit 51 (drop_ent (ent ?p i)) = drop_ent (ent ?p i)"
      using False Suc.prems(2) by (simp add: drop_ent_fits refs_page.rd_fits)
    have o: "ent (metadata (index ?c)) j = ent ?p j" if "i \<noteq> j" for j
      using that f Suc.prems unfolding free_one_effect by (intro refs_page.rd_wr_other) auto
    have "free_loop type entry ?c (Suc i) n (if i = entry then ?r else old) (nf \<or> ?r = 1) (uf \<or> ?r = 1)
        = (ok, nf', uf', c')"
      using Suc.prems(1) False by (simp add: free_loop_step Let_def split: if_splits)
    from Suc.IH [OF this] Suc.prems(2,3) f refs_page.wf_wr [of ?p i "drop_ent (ent ?p i)"]
    obtain m where m: "m \<le> n" "ok = (m = n)"
      "\<And>j. Suc i \<le> j \<Longrightarrow> j < Suc i + m \<Longrightarrow> ent_refs (ent (metadata (index ?c)) j) \<noteq> 0"
      "metadata (index c') = drop_range (Suc i) m (metadata (index ?c))"
      "free_blocks (index c') = free_blocks (index ?c) + of_nat (last_refs (Suc i) m (metadata (index ?c)))"
      "bint_free (bint c') = bint_free (bint ?c) +
         push_bit (bint_meta_shift (bint ?c)) (of_nat (last_refs (Suc i) m (metadata (index ?c))))"
      "bint_meta_shift (bint c') = bint_meta_shift (bint ?c)" "check_idx (index c') = check_idx (index ?c)"
      "index_flags (index c') = index_flags (index ?c)"
      by (auto simp: free_one_effect)
    have l: "last_refs (Suc i) m (metadata (index ?c)) = last_refs (Suc i) m ?p"
      by (rule last_refs_cong) (use o in auto)
    have nz: "ent_refs (ent ?p j) \<noteq> 0" if "i \<le> j" "j < i + Suc m" for j
      using that False m(3) [of j] o [of j] by (cases "j = i") auto
    show ?thesis
    proof (intro exI [of _ "Suc m"] conjI)
      show "metadata (index c') = drop_range i (Suc m) ?p"
        using m(4) by (simp add: drop_range_Suc_front free_one_effect)
      show "free_blocks (index c') = free_blocks (index c) + of_nat (last_refs i (Suc m) ?p)"
        using m(5) by (simp add: last_refs_Suc_front l free_one_effect(2))
      show "bint_free (bint c') = bint_free (bint c) + push_bit (bint_meta_shift (bint c)) (of_nat (last_refs i (Suc m) ?p))"
        using m(6) by (simp add: last_refs_Suc_front l free_one_effect(3,4) push_bit_add)
    qed (use m nz in \<open>simp_all add: free_one_effect\<close>)
  qed
qed

text \<open>A uniform, used range is dropped as a whole.\<close>

lemma free_loop_uniform:
  assumes "length (metadata (index c)) = 512" "i + n \<le> 640" "r \<noteq> 0" "entry \<le> i" "i = entry \<or> old = r"
    "\<And>j. i \<le> j \<Longrightarrow> j < i + n \<Longrightarrow> ent_refs (ent (metadata (index c)) j) = r"
  shows "\<exists>c'. free_loop type entry c i n old nf uf = (True, nf \<or> (n \<noteq> 0 \<and> r = 1), uf \<or> (n \<noteq> 0 \<and> r = 1), c')"
  using assms(1,2,4-)
proof (induction n arbitrary: c i old nf uf)
  case 0
  then show ?case by simp
next
  case (Suc n)
  let ?p = "metadata (index c)" and ?c = "free_one type entry i c"
  have r: "ent_refs (ent ?p i) = r" using Suc.prems(5) by simp
  have f: "take_bit 51 (drop_ent (ent ?p i)) = drop_ent (ent ?p i)"
    using r assms(3) Suc.prems(1) by (simp add: drop_ent_fits refs_page.rd_fits)
  have o: "ent (metadata (index ?c)) j = ent ?p j" if "i \<noteq> j" for j
    using that f Suc.prems unfolding free_one_effect by (intro refs_page.rd_wr_other) auto
  have "\<exists>c'. free_loop type entry ?c (Suc i) n r (nf \<or> r = 1) (uf \<or> r = 1) =
      (True, (nf \<or> r = 1) \<or> (n \<noteq> 0 \<and> r = 1), (uf \<or> r = 1) \<or> (n \<noteq> 0 \<and> r = 1), c')"
  proof (rule Suc.IH)
    show "length (metadata (index ?c)) = 512"
      using refs_page.wf_wr [of ?p i "drop_ent (ent ?p i)"] f Suc.prems by (simp add: free_one_effect)
    show "ent_refs (ent (metadata (index ?c)) j) = r" if "Suc i \<le> j" "j < Suc i + n" for j
      using o [of j] that Suc.prems(5) [of j] by simp
  qed (use Suc.prems in auto)
  moreover have "free_loop type entry c i (Suc n) old nf uf =
      free_loop type entry ?c (Suc i) n r (nf \<or> r = 1) (uf \<or> r = 1)"
    using r assms(3) Suc.prems(4) by (auto simp: free_loop_step Let_def)
  ultimately show ?case by auto
qed

lemma bint_free_block_effect:
  assumes "length (metadata (index c)) = 512" "entry + blocks_of c sz \<le> 640"
  shows "\<exists>m \<le> blocks_of c sz.
     (\<forall>j. entry \<le> j \<and> j < entry + m \<longrightarrow> ent_refs (ent (metadata (index c)) j) \<noteq> 0) \<and>
     metadata (index (snd (bint_free_block c entry sz type))) = drop_range entry m (metadata (index c)) \<and>
     free_blocks (index (snd (bint_free_block c entry sz type))) =
       free_blocks (index c) + of_nat (last_refs entry m (metadata (index c))) \<and>
     bint_free (bint (snd (bint_free_block c entry sz type))) = bint_free (bint c) +
       push_bit (bint_meta_shift (bint c)) (of_nat (last_refs entry m (metadata (index c)))) \<and>
     bint_meta_shift (bint (snd (bint_free_block c entry sz type))) = bint_meta_shift (bint c) \<and>
     check_idx (index (snd (bint_free_block c entry sz type))) = check_idx (index c) \<and>
     bit (index_flags (index (snd (bint_free_block c entry sz type)))) 7 = bit (index_flags (index c)) 7"
proof -
  obtain ok nf uf d where d: "free_loop type entry c entry (blocks_of c sz) 0 False False = (ok, nf, uf, d)"
    by (cases "free_loop type entry c entry (blocks_of c sz) 0 False False") auto
  let ?r = "snd (bint_free_block c entry sz type)"
  have "metadata (index ?r) = metadata (index d)" "free_blocks (index ?r) = free_blocks (index d)"
    "bint_free (bint ?r) = bint_free (bint d)" "bint_meta_shift (bint ?r) = bint_meta_shift (bint d)"
    "check_idx (index ?r) = check_idx (index d)" "bit (index_flags (index ?r)) 7 = bit (index_flags (index d)) 7"
    using d by (cases ok; auto simp: bint_free_block_def Let_def blocks_of_def frame_simps bit_simps)+
  then show ?thesis
    using free_loop_effect [OF d assms] by auto
qed

lemma bint_free_block_uniform:
  assumes "length (metadata (index c)) = 512" "entry + blocks_of c sz \<le> 640" "0 < blocks_of c sz" "r \<noteq> 0"
    "\<And>j. entry \<le> j \<Longrightarrow> j < entry + blocks_of c sz \<Longrightarrow> ent_refs (ent (metadata (index c)) j) = r"
  defines "k \<equiv> if r = 1 then blocks_of c sz else 0"
  shows "fst (bint_free_block c entry sz type) = Some (r = 1)"
    "metadata (index (snd (bint_free_block c entry sz type))) = drop_range entry (blocks_of c sz) (metadata (index c))"
    "free_blocks (index (snd (bint_free_block c entry sz type))) = free_blocks (index c) + of_nat k"
    "bint_free (bint (snd (bint_free_block c entry sz type))) =
       bint_free (bint c) + push_bit (bint_meta_shift (bint c)) (of_nat k)"
proof -
  from free_loop_uniform [OF assms(1,2,4), of entry 0 type False False] assms(3,5)
  obtain d where d: "free_loop type entry c entry (blocks_of c sz) 0 False False = (True, r = 1, r = 1, d)"
    by auto
  let ?r = "snd (bint_free_block c entry sz type)"
  have f: "metadata (index ?r) = metadata (index d)" "free_blocks (index ?r) = free_blocks (index d)"
    "bint_free (bint ?r) = bint_free (bint d)"
    using d by (simp_all add: bint_free_block_def Let_def blocks_of_def frame_simps)
  have l: "last_refs entry (blocks_of c sz) (metadata (index c)) = k"
    using assms(5) by (cases "r = 1") (simp_all add: last_refs_def k_def filter_id_conv filter_empty_conv)
  show "fst (bint_free_block c entry sz type) = Some (r = 1)"
    using d by (simp add: bint_free_block_def Let_def blocks_of_def)
  show "metadata (index ?r) = drop_range entry (blocks_of c sz) (metadata (index c))"
    "free_blocks (index ?r) = free_blocks (index c) + of_nat k"
    "bint_free (bint ?r) = bint_free (bint c) + push_bit (bint_meta_shift (bint c)) (of_nat k)"
    using free_loop_effect [OF d assms(1,2)] f l by auto
qed

section \<open>Replay\<close>

lemma raw_decr_frame [frame_simps]:
  "index (raw_bint_decr_free c k) = index c" "bint_meta_shift (bint (raw_bint_decr_free c k)) = bint_meta_shift (bint c)"
  "bint_free (bint (raw_bint_decr_free c k)) = bint_free (bint c) - ucast k"
  by (simp_all add: raw_bint_decr_free_def bint_meta_shift_def)

lemma one_ent:
  assumes "page_wf p" "i < 640" "take_bit 51 v = v" "ent_refs v \<noteq> 0"
  shows "page_wf (BMAP_SET_BLOCK p i v 51)"
    "nfree p = nfree (BMAP_SET_BLOCK p i v 51) + (if ent p i = 0 then 1 else 0)"
proof -
  note ok = page_wf_length [OF assms(1)]
  note f = assms(3)
  note rd = refs_page.rd_wr_same [OF ok assms(2) f] refs_page.rd_wr_other [OF ok assms(2) f]
  show "page_wf (BMAP_SET_BLOCK p i v 51)"
  proof (rule page_wf_I)
    show "length (BMAP_SET_BLOCK p i v 51) = 512" by (rule refs_page.wf_wr [OF ok assms(2) f])
    show "ent (BMAP_SET_BLOCK p i v 51) j = 0" if "j < 640" "ent_refs (ent (BMAP_SET_BLOCK p i v 51) j) = 0" for j
      using that assms(4) rd page_wf_D [OF assms(1), of j] by (cases "j = i") auto
  qed
  have "nfree p = nfree (BMAP_SET_BLOCK p i v 51) + card (if ent p i = 0 then {i} else {})"
  proof (rule nfree_fill)
    show "(if ent p i = 0 then {i} else {}) \<subseteq> {j. j < 640 \<and> ent p j = 0}" using assms(2) by auto
    show "ent (BMAP_SET_BLOCK p i v 51) j = 0 \<longleftrightarrow> ent p j = 0 \<and> j \<notin> (if ent p i = 0 then {i} else {})" if "j < 640" for j
      using rd assms(4) by (cases "j = i") auto
  qed
  then show "nfree p = nfree (BMAP_SET_BLOCK p i v 51) + (if ent p i = 0 then 1 else 0)" by auto
qed

lemma replay_loop_effect:
  assumes "page_wf (metadata (index c))" "i + n \<le> 640"
  shows "page_wf (metadata (index (replay_loop ty c i n))) \<and> account (replay_loop ty c i n) = account c \<and>
         check_idx (index (replay_loop ty c i n)) = check_idx (index c)"
  using assms
proof (induction n arbitrary: c i)
  case (Suc n)
  let ?p = "metadata (index c)"
  let ?r = "ent_refs (ent ?p i)"
  let ?b = "BMAP_SET_BLOCK ?p i (?r + 1) 51"
  let ?d = "if ?r = 0 then raw_bint_decr_free c (push_bit (bint_meta_shift (bint c)) 1) else c"
  let ?e = "set_bmap ?b (if ?r = 0 then ?d\<lparr>bint := (bint ?d)\<lparr>bint_flags := set_bit 0 (bint_flags (bint ?d))\<rparr>\<rparr> else c)"
  show ?case
  proof (cases "?r = 8191 \<or> (?r \<noteq> 0 \<and> ty = TYPE_META_BLOCK)")
    case True
    then have "replay_loop ty c i (Suc n) = replay_loop ty c (Suc i) n"
      by (auto simp: Let_def ent_refs_def)
    with Suc show ?thesis by simp
  next
    case False
    then have eq: "replay_loop ty c i (Suc n) = replay_loop ty ?e (Suc i) n"
      by (auto simp: Let_def ent_refs_def)
    have "unat ?r \<noteq> 8191" using False by (auto simp: word_unat_eq_iff)
    then have u: "unat (?r + 1) = unat ?r + 1" "unat (?r + 1) < 8192"
      using ent_refs_less [of "ent ?p i"] by (simp_all add: unat_incr_less)
    then have nz: "?r + 1 \<noteq> 0" by (auto simp: word_unat_eq_iff)
    have "take_bit 13 (?r + 1) = ?r + 1" by (rule take_bit_unat_less) (use u(2) in simp)
    with nz have nz': "ent_refs (?r + 1) \<noteq> 0" by (simp add: ent_refs_take_bit)
    have fit: "take_bit 51 (?r + 1) = ?r + 1" by (rule take_bit_unat_less) (use u(2) in simp)
    have i: "i < 640" using Suc.prems(2) by simp
    note one = one_ent [OF Suc.prems(1) i fit nz']
    have z: "?r = 0 \<longleftrightarrow> ent ?p i = 0" using page_wf_D [OF Suc.prems(1) i] by auto
    have "account ?e = account c"
    proof (rule account_cong(1) [where k = "if ?r = 0 then 1 else 0"])
      show "bint_free (bint ?e) = bint_free (bint c) -
          push_bit (bint_meta_shift (bint c)) (of_nat (if ?r = 0 then 1 else 0))"
        using ucast_span [of 1 "bint c"] by (simp add: frame_simps)
      show "bint_meta_shift (bint ?e) = bint_meta_shift (bint c)"
        by (simp add: frame_simps raw_bint_decr_free_def) (simp add: bint_meta_shift_def)
      show "nfree ?p = nfree (metadata (index ?e)) + (if ?r = 0 then 1 else 0)"
        using one(2) z by (auto simp: frame_simps)
    qed
    moreover have "page_wf (metadata (index ?e))" using one(1) by (simp add: frame_simps)
    moreover have "check_idx (index ?e) = check_idx (index c)" by (simp add: frame_simps)
    ultimately show ?thesis using Suc.IH [of ?e "Suc i"] Suc.prems(2) unfolding eq by simp
  qed
qed simp

section \<open>Attaching a node\<close>

lemma entry_less: "unat (snd (index_id_from_block b blk)) < 640"
proof -
  have "x - x div 640 * 640 = x mod 640" for x :: u64 by (simp add: minus_div_mult_eq_mod)
  moreover have "unat (x mod 640 :: u64) < 640" for x by (simp add: unat_mod)
  moreover have "unat (ucast (x mod 640 :: u64) :: u32) = unat (x mod 640 :: u64)" for x :: u64
    using \<open>\<And>x. unat (x mod 640 :: u64) < 640\<close> [of x] by (simp add: unat_ucast_mod)
  ultimately show ?thesis by (simp add: index_id_from_block_def Let_def)
qed

lemma csum_word_frame:
  assumes "length p = 512" "i < 640"
  shows "ent (p[511 := x]) i = ent p i"
proof (rule bit_word_eqI)
  fix k :: nat
  have "(i * 51 + k) div 64 < 511" if "k < 51"
  proof -
    have "i * 51 + k < 510 * 64" using assms(2) that by simp
    then show ?thesis by (simp add: div_less_iff_less_mult)
  qed
  then show "bit (ent (p[511 := x]) i) k \<longleftrightarrow> bit (ent p i) k"
    using assms by (auto simp: bit_BMAP_GET_BLOCK page_bit_def)
qed

lemma index_write_csum_frame [frame_simps]:
  "free_blocks (index (index_write_csum c b)) = free_blocks (index c)"
  "check_idx (index (index_write_csum c b)) = check_idx (index c)"
  "index_flags (index (index_write_csum c b)) = index_flags (index c)"
  "bint (index_write_csum c b) = bint c"
  "\<exists>x. metadata (index (index_write_csum c b)) = (metadata (index c))[511 := x]"
  by (auto simp: index_write_csum_def Let_def)

lemma of_nat_unat_word: "unat w = n \<Longrightarrow> w = of_nat n"
  by auto

section \<open>The index invariant\<close>

text \<open>
  The page is well formed, the free count of a loaded index is the number of its free
  entries, and the scan cursor does not run past the page.
\<close>

definition ix_inv :: "ictx \<Rightarrow> bool" where
  "ix_inv c \<longleftrightarrow> page_wf (metadata (index c)) \<and>
     (bit (index_flags (index c)) META_LOAD_DONE \<longrightarrow> unat (free_blocks (index c)) = nfree (metadata (index c))) \<and>
     unat (check_idx (index c)) \<le> 640"

text \<open>The operations on one index, under the conditions their callers establish.\<close>

inductive ix_step :: "ictx \<Rightarrow> ictx \<Rightarrow> bool" where
  load: "ix_step c (index_check_load c)"
| alloc: "bit (index_flags (index c)) META_LOAD_DONE \<Longrightarrow> 0 < blocks_of c sz \<Longrightarrow>
    bint_alloc_block pg c sz info ty = (blk, full, info', c') \<Longrightarrow> ix_step c c'"
| ref: "entry + blocks_of c sz \<le> 640 \<Longrightarrow> bint_ref_block c entry sz info nb = (r, info', c') \<Longrightarrow> ix_step c c'"
| free: "entry + blocks_of c sz \<le> 640 \<Longrightarrow> bint_free_block c entry sz ty = (r, c') \<Longrightarrow> ix_step c c'"
| node: "take_bit 38 nb = nb \<Longrightarrow> bdev_set_node_block pg c blk nb = (ok, c') \<Longrightarrow> ix_step c c'"
| replay: "entry + blocks_of c sz \<le> 640 \<Longrightarrow> ix_step c (bint_log_replay c entry sz ty)"
| flush: "ix_step c (index_write_csum c incr)"

inductive_cases ix_stepE: "ix_step c c'"

lemma ix_inv_same_page:
  assumes "ix_inv c" "metadata (index c') = metadata (index c)" "free_blocks (index c') = free_blocks (index c)"
    "unat (check_idx (index c')) \<le> 640" "bit (index_flags (index c')) 7 = bit (index_flags (index c)) 7"
    "bint_free (bint c') = bint_free (bint c)" "bint_meta_shift (bint c') = bint_meta_shift (bint c)"
  shows "ix_inv c' \<and> account c' = account c"
  using assms by (simp add: ix_inv_def account_def)

lemma step_load: "ix_inv c \<Longrightarrow> ix_inv (index_check_load c) \<and> account (index_check_load c) = account c"
proof -
  assume inv: "ix_inv c"
  let ?p = "metadata (index c)"
  have le: "(case first_run ?p 1 0 of None \<Rightarrow> 640 | Some i \<Rightarrow> i) \<le> 640"
    by (auto split: option.split dest: first_run_bounds)
  have u: "unat (of_nat (nfree ?p) :: u16) = nfree ?p" "\<And>k. k \<le> 640 \<Longrightarrow> unat (of_nat k :: u16) = k"
    using nfree_le [of ?p] by (simp_all add: unsigned_of_nat take_bit_nat_eq_self)
  show ?thesis
    using inv le u by (auto simp: index_check_load_def Let_def load_scan_all frame_simps ix_inv_def account_def bit_simps)
qed

lemma step_alloc:
  assumes "ix_inv c" "bit (index_flags (index c)) 7" "0 < blocks_of c sz"
    "bint_alloc_block pg c sz info ty = (blk, full, info', c')"
  shows "ix_inv c' \<and> account c' = account c"
proof (cases "first_run (metadata (index c)) (blocks_of c sz) (unat (check_idx (index c)))")
  case None
  from bint_alloc_block_none [OF assms(3) None] assms
  have "c' = c\<lparr>index := (index c)\<lparr>check_idx := of_nat (max (unat (check_idx (index c))) 640)\<rparr>\<rparr>" by simp
  moreover have "max (unat (check_idx (index c))) 640 = 640" using assms(1) by (simp add: ix_inv_def)
  ultimately show ?thesis using assms(1) by (intro ix_inv_same_page) simp_all
next
  case (Some s)
  let ?p = "metadata (index c)" and ?n = "blocks_of c sz"
  from bint_alloc_block_some [OF assms(3) Some, of pg info ty] assms(4)
  have c': "metadata (index c') = set_range s ?n ?p" "free_blocks (index c') = free_blocks (index c) - of_nat ?n"
    "bint_free (bint c') = bint_free (bint c) - push_bit (bint_meta_shift (bint c)) (of_nat ?n)"
    "bint_meta_shift (bint c') = bint_meta_shift (bint c)" "unat (check_idx (index c')) = s + ?n"
    by auto
  from first_run_bounds [OF Some] have fr: "free_run ?p s ?n" "s + ?n \<le> 640" by auto
  have wf: "page_wf ?p" using assms(1) by (simp add: ix_inv_def)
  have n: "nfree ?p = nfree (set_range s ?n ?p) + ?n"
    by (rule set_range_nfree [OF page_wf_length [OF wf] fr(1)])
  have "free_blocks (index c) = of_nat (nfree ?p)" using assms(1,2) by (intro of_nat_unat_word) (simp add: ix_inv_def)
  then have "free_blocks (index c') = of_nat (nfree (set_range s ?n ?p))"
    unfolding c'(2) n by simp
  then have "unat (free_blocks (index c')) = nfree (set_range s ?n ?p)"
    using nfree_le [of "set_range s ?n ?p"] by (simp add: unsigned_of_nat take_bit_nat_eq_self)
  moreover have "account c' = account c"
    by (rule account_cong(1) [OF c'(3,4)]) (simp add: c'(1) n)
  ultimately show ?thesis using c' fr wf set_range_wf by (simp add: ix_inv_def)
qed

lemma step_ref:
  assumes "ix_inv c" "entry + blocks_of c sz \<le> 640" "bint_ref_block c entry sz info nb = (r, info', c')"
  shows "ix_inv c' \<and> account c' = account c"
proof -
  let ?p = "metadata (index c)" and ?n = "blocks_of c sz"
  have wf: "page_wf ?p" using assms(1) by (simp add: ix_inv_def)
  note cases = bint_ref_block_cases [OF page_wf_length [OF wf] assms(2) [unfolded blocks_of_def],
      folded blocks_of_def, of nb info]
  show ?thesis
  proof (cases "can_ref ?p entry ?n nb")
    case False
    with cases(1) assms show ?thesis by auto
  next
    case True
    have keep: "check_idx (index c') = check_idx (index c)" "bint_meta_shift (bint c') = bint_meta_shift (bint c)"
      "bit (index_flags (index c')) 7 = bit (index_flags (index c)) 7"
      using assms(3) by (auto simp: bint_ref_block_def Let_def frame_simps bit_simps split: ref_exit.splits)
    from cases(2) [OF True] assms(3)
    have c': "metadata (index c') = inc_range entry ?n ?p" "free_blocks (index c') = free_blocks (index c)"
      "bint_free (bint c') = bint_free (bint c)" by auto
    have "ent_refs (ent ?p i) \<noteq> 0 \<and> ent_refs (ent ?p i) \<noteq> 8191" if "entry \<le> i" "i < entry + ?n" for i
      using True that unfolding can_ref_def list_all_iff by auto
    from inc_range_wf [OF wf assms(2) this]
    have "page_wf (metadata (index c'))" "nfree (metadata (index c')) = nfree ?p" by (simp_all add: c'(1))
    then show ?thesis using assms(1) c'(2,3) keep by (simp add: ix_inv_def account_def)
  qed
qed

lemma step_free:
  assumes "ix_inv c" "entry + blocks_of c sz \<le> 640" "bint_free_block c entry sz ty = (r, c')"
  shows "ix_inv c' \<and> account c' = account c"
proof -
  let ?p = "metadata (index c)"
  have wf: "page_wf ?p" using assms(1) by (simp add: ix_inv_def)
  from bint_free_block_effect [OF page_wf_length [OF wf] assms(2), of ty] assms(3)
  obtain m where m: "m \<le> blocks_of c sz"
    "\<And>j. entry \<le> j \<Longrightarrow> j < entry + m \<Longrightarrow> ent_refs (ent ?p j) \<noteq> 0"
    "metadata (index c') = drop_range entry m ?p"
    "free_blocks (index c') = free_blocks (index c) + of_nat (last_refs entry m ?p)"
    "bint_free (bint c') = bint_free (bint c) + push_bit (bint_meta_shift (bint c)) (of_nat (last_refs entry m ?p))"
    "bint_meta_shift (bint c') = bint_meta_shift (bint c)" "check_idx (index c') = check_idx (index c)"
    "bit (index_flags (index c')) 7 = bit (index_flags (index c)) 7"
    by auto
  have "entry + m \<le> 640" using assms(2) m(1) by simp
  note d = drop_range_wf [OF wf this m(2)]
  have "unat (free_blocks (index c')) = nfree (metadata (index c'))" if "bit (index_flags (index c)) 7"
  proof -
    have "free_blocks (index c) = of_nat (nfree ?p)" using assms(1) that by (intro of_nat_unat_word) (simp add: ix_inv_def)
    then have "free_blocks (index c') = of_nat (nfree (metadata (index c')))"
      by (simp add: m(3,4) d(2))
    then show ?thesis
      using nfree_le [of "metadata (index c')"] by (simp add: unsigned_of_nat take_bit_nat_eq_self)
  qed
  moreover have "account c' = account c"
    by (rule account_cong(2) [OF m(5,6)]) (simp add: m(3) d(2))
  ultimately show ?thesis using assms(1) m d(1) by (simp add: ix_inv_def)
qed

lemma step_node:
  assumes "ix_inv c" "take_bit 38 nb = nb" "bdev_set_node_block pg c blk nb = (ok, c')"
  shows "ix_inv c' \<and> account c' = account c"
proof -
  let ?p = "metadata (index c)"
  obtain idx e where e: "index_id_from_block (bint c) blk = (idx, e)" by (cases "index_id_from_block (bint c) blk")
  let ?v = "ent ?p (unat e)"
  have i: "unat e < 640" using entry_less [of "bint c" blk] e by simp
  have wf: "page_wf ?p" using assms(1) by (simp add: ix_inv_def)
  show ?thesis
  proof (cases "?v = 0 \<or> ent_node ?v \<noteq> 0")
    case True
    with assms(1,3) e show ?thesis by (auto simp: bdev_set_node_block_def Let_def ent_node_def split: if_splits)
  next
    case False
    let ?w = "mk_ent nb (ent_refs ?v)"
    have r: "ent_refs ?v \<noteq> 0" using False page_wf_D [OF wf i] by blast
    have w: "take_bit 51 ?w = ?w" "ent_refs ?w \<noteq> 0"
      using assms(2) ent_refs_less [of ?v] r by (simp_all add: mk_ent_fits ent_refs_mk_ent)
    note one = one_ent [OF wf i w]
    from assms(3) e False
    have c': "metadata (index c') = BMAP_SET_BLOCK ?p (unat e) ?w 51" "free_blocks (index c') = free_blocks (index c)"
      "check_idx (index c') = check_idx (index c)" "bint c' = bint c"
      "bit (index_flags (index c')) 7 = bit (index_flags (index c)) 7"
      by (auto simp: bdev_set_node_block_def Let_def ent_node_def ent_refs_def mk_ent_def frame_simps bit_simps)
    show ?thesis
      using assms(1) one False by (simp add: ix_inv_def account_def c')
  qed
qed

lemma step_replay:
  assumes "ix_inv c" "entry + blocks_of c sz \<le> 640"
  shows "ix_inv (bint_log_replay c entry sz ty) \<and> account (bint_log_replay c entry sz ty) = account c"
  using replay_loop_effect [of c entry "blocks_of c sz" ty] assms
  by (simp add: ix_inv_def bint_log_replay_def blocks_of_def Let_def account_def bit_simps)

lemma step_flush:
  assumes "ix_inv c"
  shows "ix_inv (index_write_csum c incr) \<and> account (index_write_csum c incr) = account c"
proof -
  let ?p = "metadata (index c)"
  obtain x where x: "metadata (index (index_write_csum c incr)) = ?p[511 := x]"
    using index_write_csum_frame(5) by blast
  have wf: "page_wf ?p" using assms by (simp add: ix_inv_def)
  note same = csum_word_frame [OF page_wf_length [OF wf]]
  have "page_wf (?p[511 := x])"
    using page_wf_D [OF wf] page_wf_length [OF wf] same by (intro page_wf_I) auto
  moreover have "nfree (?p[511 := x]) = nfree ?p" by (rule nfree_cong) (simp add: same)
  ultimately show ?thesis
    using assms by (simp add: ix_inv_def account_def x index_write_csum_frame(1-4))
qed

lemmas ix_step_laws = step_load step_alloc step_ref step_free step_node step_replay step_flush

lemma ix_step_inv: "ix_step c c' \<Longrightarrow> ix_inv c \<Longrightarrow> ix_inv c' \<and> account c' = account c"
  by (erule ix_stepE) (use ix_step_laws in metis)+

text \<open>The same over any sequence of operations.\<close>

lemma ix_steps_inv: "ix_step\<^sup>*\<^sup>* c c' \<Longrightarrow> ix_inv c \<Longrightarrow> ix_inv c' \<and> account c' = account c"
  by (induction rule: rtranclp_induct) (use ix_step_inv in auto)

section \<open>Freeing undoes allocating and referencing\<close>

lemma drop_inc_range:
  assumes "page_ok p" "a + n \<le> 640"
    "\<And>i. a \<le> i \<Longrightarrow> i < a + n \<Longrightarrow> ent_refs (ent p i) \<noteq> 0 \<and> ent_refs (ent p i) \<noteq> 8191"
  shows "drop_range a n (inc_range a n p) = p"
proof -
  have "take_bit 51 (inc_ent v) = inc_ent v \<and> drop_ent (inc_ent v) = v"
    if "take_bit 51 v = v" "ent_refs v \<noteq> 0" "ent_refs v \<noteq> 8191" for v
  proof -
    note l = inc_ent_laws [OF that(1,3)]
    have "unat (ent_refs (inc_ent v)) \<noteq> 1" using l(5) that(2) by (auto simp: word_unat_eq_iff)
    then have "ent_refs (inc_ent v) \<noteq> 1" by (auto simp: word_unat_eq_iff)
    then show ?thesis using l by (simp add: drop_ent_def)
  qed
  with refs_page.wr_range_undo [OF assms(1,2), of inc_ent drop_ent] assms show ?thesis
    unfolding inc_range_def drop_range_def using refs_page.rd_fits [OF assms(1)] by blast
qed

lemma drop_set_range:
  assumes "page_ok p" "free_run p a n"
  shows "drop_range a n (set_range a n p) = p"
proof -
  have le: "a + n \<le> 640" and z: "\<And>i. a \<le> i \<Longrightarrow> i < a + n \<Longrightarrow> ent p i = 0"
    using assms(2) by (auto simp: free_run_def list_all_iff bmap_free_def)
  have "drop_ent 1 = 0" by (simp add: drop_ent_def)
  with refs_page.wr_range_undo [OF assms(1) le, of "\<lambda>_. 1" drop_ent] z show ?thesis
    unfolding set_range_def drop_range_def by simp
qed

section \<open>Block addresses\<close>

lemma push_drop_push: "a \<le> n \<Longrightarrow> push_bit a (drop_bit a (push_bit n x)) = push_bit n (x :: u64)"
  by (rule bit_word_eqI) (auto simp: bit_simps)

lemma drop_push_small: "unat x * 2 ^ n < 2 ^ 64 \<Longrightarrow> drop_bit n (push_bit n x) = (x :: u64)"
proof -
  assume a: "unat x * 2 ^ n < 2 ^ 64"
  have "unat (push_bit n x) = unat x * 2 ^ n"
    unfolding unsigned_push_bit_eq using a by (simp add: push_bit_eq_mult take_bit_nat_eq_self)
  then have "unat (drop_bit n (push_bit n x)) = unat x"
    unfolding unsigned_drop_bit_eq using a by (simp add: drop_bit_eq_div take_bit_nat_eq_self)
  then show ?thesis by (simp add: word_unat_eq_iff)
qed

lemma index_block_recompose:
  assumes "unat idx < 2 ^ 40" "unat off < 640" "sector_shift b \<le> bint_meta_shift b"
  shows "index_id_from_block b (block_from_index b idx off) = (idx, off)"
proof -
  let ?n = "bint_meta_shift b" and ?x = "idx * 640 + ucast off :: u64"
  have o: "unat (ucast off :: u64) = unat off" by simp
  have x: "unat ?x = unat idx * 640 + unat off"
    using assms(1,2) by (simp add: unat_word_ariths o)
  have "unat ?x * 2 ^ ?n \<le> unat ?x * 2 ^ 12"
    using meta_shift_le(1) [of b] by (intro mult_left_mono power_increasing) auto
  then have "unat ?x * 2 ^ ?n < 2 ^ 64" using x assms(1,2) by simp
  then have d: "drop_bit ?n (push_bit ?n ?x) = ?x" by (rule drop_push_small)
  have q: "?x div 640 = idx"
    using x assms(2) by (simp add: word_unat_eq_iff unat_div)
  have "?x - idx * 640 = ucast off" by simp
  moreover have "ucast (ucast off :: u64) = off" by (rule bit_word_eqI) (auto simp: bit_simps)
  ultimately show ?thesis
    unfolding index_id_from_block_def block_from_index_def Let_def
    by (simp add: push_drop_push [OF assms(3)] d q)
qed

section \<open>The bitmap of full indexes\<close>

definition slot_ok :: "index_group \<Rightarrow> u32 \<Rightarrow> bool" where
  "slot_ok g iid \<longleftrightarrow> length (il_metadata (lookup_map g)) = 1024 \<and> unat (iid - push_bit 15 (group_id g)) < 32768"

lemma slot_index:
  assumes "slot_ok g iid"
  shows "unat (drop_bit 5 (iid - push_bit 15 (group_id g))) < 1024"
  using assms by (simp add: slot_ok_def drop_bit_eq_div unat_div div_less_iff_less_mult)

lemma slot_inj:
  assumes "drop_bit 5 x = drop_bit 5 y" "x AND 0x1F = y AND 0x1F"
  shows "(x :: u32) = y"
proof -
  have m: "(0x1F :: u32) = mask 5" by (simp add: mask_eq_exp_minus_1)
  have "take_bit 5 x = take_bit 5 y" using assms(2) unfolding m by (simp add: take_bit_eq_mask)
  moreover have "x = push_bit 5 (drop_bit 5 x) + take_bit 5 x" "y = push_bit 5 (drop_bit 5 y) + take_bit 5 y"
    by (simp_all add: bits_ident)
  ultimately show ?thesis using assms(1) by metis
qed

lemma test_mask_bit: "(v :: u32) AND push_bit m 1 \<noteq> 0 \<longleftrightarrow> bit v m"
  by (simp add: and_exp_eq_0_iff_not_bit)

lemma low5_less: "unat ((x :: u32) AND 0x1F) < 32"
proof -
  have m: "(0x1F :: u32) = mask 5" by (simp add: mask_eq_exp_minus_1)
  show ?thesis unfolding m by (simp add: take_bit_eq_mask [symmetric] unat_mod take_bit_eq_mod)
qed

lemma full_iff_bit:
  "bint_check_if_index_full g iid \<longleftrightarrow>
     bit (il_metadata (lookup_map g) ! unat (drop_bit 5 (iid - push_bit 15 (group_id g))))
       (unat ((iid - push_bit 15 (group_id g)) AND 0x1F))"
  by (simp add: bint_check_if_index_full_def Let_def and_exp_eq_0_iff_not_bit)

lemma set_bit_same: "bit v m \<Longrightarrow> set_bit m v = (v :: u32)" "\<not> bit v m \<Longrightarrow> unset_bit m v = (v :: u32)"
  by (auto intro!: bit_word_eqI simp: bit_simps)

lemma set_bit_mask: "set_bit m v = v OR 2 ^ m" "unset_bit m v = v AND NOT (2 ^ m)" for v :: u32
  by (auto intro!: bit_word_eqI simp: bit_simps)

lemma full_update:
  assumes "slot_ok (igroup c) (index_id (index c))" "slot_ok (igroup c) iid"
  shows "bint_check_if_index_full (igroup (bint_mark_index_full c)) iid \<longleftrightarrow>
           iid = index_id (index c) \<or> bint_check_if_index_full (igroup c) iid"
    "bint_check_if_index_full (igroup (bint_unmark_index_full c)) iid \<longleftrightarrow>
           iid \<noteq> index_id (index c) \<and> bint_check_if_index_full (igroup c) iid"
proof -
  define x where "x = index_id (index c) - push_bit 15 (group_id (igroup c))"
  define y where "y = iid - push_bit 15 (group_id (igroup c))"
  let ?l = "il_metadata (lookup_map (igroup c))"
  have len: "unat (drop_bit 5 x) < length ?l" "unat (drop_bit 5 y) < length ?l"
    using slot_index [OF assms(1)] slot_index [OF assms(2)] assms(1) by (simp_all add: x_def y_def slot_ok_def)
  have eq: "iid = index_id (index c) \<longleftrightarrow>
      unat (drop_bit 5 x) = unat (drop_bit 5 y) \<and> unat (x AND 0x1F) = unat (y AND 0x1F)"
    using slot_inj [of x y] by (auto simp: word_unat_eq_iff [symmetric] x_def y_def)
  have b: "unat (x AND 0x1F) < 32" "unat (y AND 0x1F) < 32" by (rule low5_less)+
  note defs = lookup_slot_def Let_def and_exp_eq_0_iff_not_bit x_def [symmetric]
  have gid: "group_id (igroup (bint_mark_index_full c)) = group_id (igroup c)"
    "group_id (igroup (bint_unmark_index_full c)) = group_id (igroup c)"
    by (simp_all add: bint_mark_index_full_def bint_unmark_index_full_def defs)
  have mark: "il_metadata (lookup_map (igroup (bint_mark_index_full c))) =
      ?l[unat (drop_bit 5 x) := set_bit (unat (x AND 0x1F)) (?l ! unat (drop_bit 5 x))]"
    by (cases "bit (?l ! unat (drop_bit 5 x)) (unat (x AND 0x1F))")
      (simp add: bint_mark_index_full_def defs set_bit_same,
       simp add: bint_mark_index_full_def defs set_bit_mask)
  have unmark: "il_metadata (lookup_map (igroup (bint_unmark_index_full c))) =
      ?l[unat (drop_bit 5 x) := unset_bit (unat (x AND 0x1F)) (?l ! unat (drop_bit 5 x))]"
    by (cases "bit (?l ! unat (drop_bit 5 x)) (unat (x AND 0x1F))")
      (simp add: bint_unmark_index_full_def defs set_bit_mask,
       simp add: bint_unmark_index_full_def defs set_bit_same)
  show "bint_check_if_index_full (igroup (bint_mark_index_full c)) iid \<longleftrightarrow>
           iid = index_id (index c) \<or> bint_check_if_index_full (igroup c) iid"
    unfolding full_iff_bit gid y_def [symmetric] mark eq using len b by (auto simp: nth_list_update bit_simps)
  show "bint_check_if_index_full (igroup (bint_unmark_index_full c)) iid \<longleftrightarrow>
           iid \<noteq> index_id (index c) \<and> bint_check_if_index_full (igroup c) iid"
    unfolding full_iff_bit gid y_def [symmetric] unmark eq using len b by (auto simp: nth_list_update bit_simps)
qed


section \<open>Checksums\<close>

lemma unat_low16: "unat (ucast (x :: u16) :: u64) < 2 ^ 16"
  using unat_less_16 [of x] by simp

lemma csum_slots:
  assumes "unat w < 2 ^ 48"
  shows "(ucast (s :: u16) OR push_bit 16 w :: u64) AND 0xFFFF = ucast s"
    "drop_bit 16 (ucast (s :: u16) OR push_bit 16 w :: u64) = w"
proof -
  have m: "(0xFFFF :: u64) = mask 16" by (simp add: mask_eq_exp_minus_1)
  show "(ucast s OR push_bit 16 w :: u64) AND 0xFFFF = ucast s"
    unfolding m by (rule bit_word_eqI) (auto simp: bit_simps dest: bit_imp_le_length)
  have "take_bit 48 w = w" by (rule take_bit_unat_less) (use assms in simp)
  then have w: "bit w k \<Longrightarrow> k < 48" for k by (rule bit_less_width)
  show "drop_bit 16 (ucast s OR push_bit 16 w :: u64) = w"
    by (rule bit_word_eqI) (auto simp: bit_simps dest: w bit_imp_le_length)
qed

lemma csum_take: "calc_csum16 (p[511 := x]) 4088 = calc_csum16 p 4088" "calc_csum (p[511 := x]) 4088 = calc_csum p 4088"
  by (simp_all add: calc_csum16_def calc_csum_def)

text \<open>The index as it comes back from disk: the page, and none of the in-memory flags.\<close>

definition reread :: "ictx \<Rightarrow> ictx" where
  "reread c = c\<lparr>index := (index c)\<lparr>index_flags := 0\<rparr>\<rparr>"

lemma csum16_low_words:
  assumes "list_all2 (\<lambda>x y. (ucast x :: u16) = ucast y) p q"
  shows "calc_csum16 p n = calc_csum16 q n"
proof -
  have "(ucast (foldl (+) 0 (take k p)) :: u16) = ucast (foldl (+) 0 (take k q))" for k
    by (rule low16_sum) (use assms in \<open>simp_all add: list_all2_takeI\<close>)
  moreover have "(ucast (NOT x :: u64) :: u16) = NOT (ucast x)" for x
    by (rule bit_word_eqI) (auto simp: bit_simps)
  ultimately show ?thesis by (simp add: calc_csum16_def)
qed

section \<open>A sample index\<close>

text \<open>An index with an empty page, and one whose entry 3 holds one reference.\<close>

definition sample_ctx :: "u64 list \<Rightarrow> ictx" where
  "sample_ctx p =
     \<lparr>bint = \<lparr>bid = 1, sector_shift = 9, enable_comp = False, v2_disk = False, bint_free = 0x1000000,
              free_block_counter = 0, bint_flags = 0,
              bstats = \<lparr>dedupe_blocks = 0, compressed_size = 0, uncompressed_size = 0, compression_hits = 0\<rparr>\<rparr>,
      bgroup = \<lparr>group_free = 0x1000000\<rparr>,
      igroup = \<lparr>group_id = 0, group_free_indexes = 32,
                lookup_map = \<lparr>il_metadata = replicate 1024 0, il_flags = 0\<rparr>\<rparr>,
      isubgroup = \<lparr>subgroup_free_indexes = 32\<rparr>,
      index = \<lparr>index_id = 7, metadata = p, write_id = 1, free_blocks = 640, check_idx = 0,
               index_flags = set_bit 7 0, index_refs = 1, io_waiters = []\<rparr>\<rparr>"

definition sample_info :: index_info where
  "sample_info = \<lparr>ii_index = None, ii_block = 0, ii_index_write_id = 0,
                  ii_iowaiter = \<lparr>waiter_id = 0, waiter_flags = 0\<rparr>\<rparr>"

abbreviation (input) empty_page :: "u64 list" where "empty_page \<equiv> replicate 512 0"
abbreviation (input) one_ref_page :: "u64 list" where "one_ref_page \<equiv> BMAP_SET_BLOCK empty_page 3 1 51"

lemma ent_empty_page: "i < 640 \<Longrightarrow> BMAP_GET_BLOCK empty_page i 51 = 0"
proof (rule bit_word_eqI)
  fix n :: nat
  assume "i < 640"
  then have "n < 51 \<Longrightarrow> (i * 51 + n) div 64 < 512" by (simp add: div_less_iff_less_mult)
  then show "bit (BMAP_GET_BLOCK empty_page i 51) n = bit 0 n"
    by (auto simp: bit_BMAP_GET_BLOCK page_bit_def)
qed

lemma sample_blocks [simp]: "blocks_of (sample_ctx p) 4096 = 1"
  by (simp add: blocks_of_def sample_ctx_def bint_meta_shift_def)

lemma sample_sel [simp]:
  "metadata (index (sample_ctx p)) = p" "check_idx (index (sample_ctx p)) = 0"
  "index_flags (index (sample_ctx p)) = set_bit 7 0" "free_blocks (index (sample_ctx p)) = 640"
  by (simp_all add: sample_ctx_def)

lemma nfree_empty_page: "nfree empty_page = 640"
  by (simp add: nfree_def bmap_free_def ent_empty_page filter_id_conv)

lemma sample_inv: "ix_inv (sample_ctx empty_page)"
  by (simp add: ix_inv_def nfree_empty_page page_wf_def list_all_iff ent_empty_page bit_simps)

lemma first_run_empty: "first_run empty_page (Suc 0) 0 = Some 0"
  by (simp add: first_run_def find_upt_Some free_run_def bmap_free_def ent_empty_page)

lemma one_ref_page_laws: "length one_ref_page = 512" "BMAP_GET_BLOCK one_ref_page 3 51 = 1"
  by (rule refs_page.wf_wr refs_page.rd_wr_same; simp)+

lemma one_ref_can: "can_ref one_ref_page 3 1 0"
  by (simp add: can_ref_def one_ref_page_laws(2))

section \<open>Properties\<close>

text \<open>
  C1. Every sequence of operations on an index (load, allocate, reference, free, attach a
  node, replay a logged write, write out) keeps the invariant: the page stays well formed,
  the free count of a loaded index is the number of its free entries, and the cursor stays
  within the page. The free space of the disk moves with the page: what the disk counts as free
  outside this index never changes.
\<close>

theorem index_operations_keep_invariant:
  assumes "ix_step\<^sup>*\<^sup>* c c'" "ix_inv c"
  shows "ix_inv c' \<and> account c' = account c"
  using assms by (rule ix_steps_inv)

theorem index_operations_keep_invariant_witness:
  "\<exists>c'. ix_step\<^sup>*\<^sup>* (sample_ctx empty_page) c' \<and> ix_inv c' \<and> account c' = account (sample_ctx empty_page) \<and>
        BMAP_GET_BLOCK (metadata (index c')) 0 51 = 1"
proof -
  obtain blk full info' c' where c': "bint_alloc_block True (sample_ctx empty_page) 4096 sample_info TYPE_DATA_BLOCK =
      (blk, full, info', c')" by (cases "bint_alloc_block True (sample_ctx empty_page) 4096 sample_info TYPE_DATA_BLOCK")
  then have "ix_step (sample_ctx empty_page) c'" by (intro ix_step.alloc) (auto simp: bit_simps)
  then have s: "ix_step\<^sup>*\<^sup>* (sample_ctx empty_page) c'" by simp
  have "metadata (index c') = set_range 0 1 empty_page"
    using bint_alloc_block_some [of "sample_ctx empty_page" 4096 0 True sample_info TYPE_DATA_BLOCK] c'
    by (simp add: first_run_empty)
  then have "BMAP_GET_BLOCK (metadata (index c')) 0 51 = 1" by (simp add: set_range_laws)
  with s index_operations_keep_invariant [OF s sample_inv] show ?thesis by blast
qed

text \<open>
  C6. \<open>bint_ref_block\<close> is all or nothing. It succeeds exactly when every entry of the range has
  the same count, neither zero nor the maximum, and the expected node. Then each entry has one
  reference more and the same node, and no other entry and no bit outside the entries changes.
  Otherwise it reports an error and the whole state, page included, is as before.
\<close>

theorem bint_ref_block_all_or_nothing:
  assumes "length (metadata (index c)) = 512" "entry + blocks_of c sz \<le> 640"
  shows "case bint_ref_block c entry sz info nb of
      (Inl e, info', c') \<Rightarrow> \<not> can_ref (metadata (index c)) entry (blocks_of c sz) nb \<and> info' = info \<and> c' = c
    | (Inr _, info', c') \<Rightarrow> can_ref (metadata (index c)) entry (blocks_of c sz) nb \<and>
        (\<forall>j. BMAP_GET_BLOCK (metadata (index c')) j 51 =
           (if entry \<le> j \<and> j < entry + blocks_of c sz
            then mk_ent (ent_node (BMAP_GET_BLOCK (metadata (index c)) j 51))
                        (ent_refs (BMAP_GET_BLOCK (metadata (index c)) j 51) + 1)
            else BMAP_GET_BLOCK (metadata (index c)) j 51)) \<and>
        page_rest 32640 (metadata (index c')) = page_rest 32640 (metadata (index c))"
proof -
  let ?p = "metadata (index c)" and ?n = "blocks_of c sz"
  note cases = bint_ref_block_cases [OF assms(1) assms(2) [unfolded blocks_of_def], folded blocks_of_def, of nb info]
  show ?thesis
  proof (cases "can_ref ?p entry ?n nb")
    case False
    with cases(1) show ?thesis by auto
  next
    case True
    have "ent_refs (ent ?p i) \<noteq> 8191" if "entry \<le> i" "i < entry + ?n" for i
      using True that unfolding can_ref_def list_all_iff by auto
    note laws = inc_range_laws [OF assms this]
    from True cases(2) [OF True] laws show ?thesis by (auto simp: inc_ent_def)
  qed
qed

theorem bint_ref_block_all_or_nothing_witness:
  "\<exists>info' c'. bint_ref_block (sample_ctx one_ref_page) 3 4096 sample_info 0 = (Inr (), info', c') \<and>
     BMAP_GET_BLOCK (metadata (index c')) 3 51 = 2"
proof -
  obtain r info' c' where c': "bint_ref_block (sample_ctx one_ref_page) 3 4096 sample_info 0 = (r, info', c')"
    by (cases "bint_ref_block (sample_ctx one_ref_page) 3 4096 sample_info 0")
  with bint_ref_block_all_or_nothing [where c = "sample_ctx one_ref_page" and entry = 3 and sz = 4096 and
      info = sample_info and nb = 0]
  show ?thesis
    using one_ref_can one_ref_page_laws
    by (auto simp: mk_ent_def ent_node_def split: sum.splits)
qed

text \<open>
  C15. \<open>bint_alloc_block\<close> is first fit. It returns no block exactly when no run of the wanted
  length starts at or after the cursor. Otherwise it takes the first such run: its entries get
  one reference and no node, nothing else on the page changes, the block returned is the
  address of the run, the cursor moves past it, and the free counts drop by the run's length.
\<close>

theorem bint_alloc_block_first_fit:
  assumes "length (metadata (index c)) = 512" "0 < blocks_of c sz"
  shows "case (first_run (metadata (index c)) (blocks_of c sz) (unat (check_idx (index c))),
               bint_alloc_block pg c sz info ty) of
      (None, (block, mark_full, info', c')) \<Rightarrow> block = 0 \<and> mark_full \<and> info' = info \<and>
        metadata (index c') = metadata (index c) \<and> free_blocks (index c') = free_blocks (index c) \<and> bint c' = bint c
    | (Some s, (block, mark_full, info', c')) \<Rightarrow>
        block = block_from_index (bint c) (ucast (index_id (index c))) (of_nat s) \<and>
        (mark_full \<longleftrightarrow> s + blocks_of c sz = 640) \<and>
        (\<forall>j. BMAP_GET_BLOCK (metadata (index c')) j 51 =
           (if s \<le> j \<and> j < s + blocks_of c sz then 1 else BMAP_GET_BLOCK (metadata (index c)) j 51)) \<and>
        page_rest 32640 (metadata (index c')) = page_rest 32640 (metadata (index c)) \<and>
        unat (check_idx (index c')) = s + blocks_of c sz \<and>
        free_blocks (index c') = free_blocks (index c) - of_nat (blocks_of c sz) \<and>
        bint_free (bint c') = bint_free (bint c) - push_bit (bint_meta_shift (bint c)) (of_nat (blocks_of c sz))"
proof (cases "first_run (metadata (index c)) (blocks_of c sz) (unat (check_idx (index c)))")
  case None
  with bint_alloc_block_none [OF assms(2) None] show ?thesis by simp
next
  case (Some s)
  from first_run_bounds [OF Some] have "s + blocks_of c sz \<le> 640" by simp
  note laws = set_range_laws [OF assms(1) this]
  from Some laws bint_alloc_block_some [OF assms(2) Some, of pg info ty] show ?thesis by auto
qed

theorem bint_alloc_block_first_fit_witness:
  "\<exists>full info' c'. bint_alloc_block True (sample_ctx empty_page) 4096 sample_info TYPE_DATA_BLOCK =
       (block_from_index (bint (sample_ctx empty_page)) 7 0, full, info', c') \<and> \<not> full \<and>
     BMAP_GET_BLOCK (metadata (index c')) 0 51 = 1 \<and> unat (check_idx (index c')) = 1"
proof -
  obtain b full info' c' where c': "bint_alloc_block True (sample_ctx empty_page) 4096 sample_info TYPE_DATA_BLOCK =
      (b, full, info', c')" by (cases "bint_alloc_block True (sample_ctx empty_page) 4096 sample_info TYPE_DATA_BLOCK")
  have "ucast (index_id (index (sample_ctx empty_page))) = (7 :: u64)" by (simp add: sample_ctx_def)
  with bint_alloc_block_first_fit [where c = "sample_ctx empty_page" and sz = 4096 and pg = True and
      info = sample_info and ty = TYPE_DATA_BLOCK] c'
  show ?thesis by (auto simp: first_run_empty)
qed

text \<open>
  C18. Freeing undoes allocating: after a successful allocation, freeing the run it took reports
  it freed and restores the page, bit for bit, together with the free counts.
\<close>

theorem alloc_then_free:
  assumes "length (metadata (index c)) = 512" "0 < blocks_of c sz"
    "first_run (metadata (index c)) (blocks_of c sz) (unat (check_idx (index c))) = Some s"
    "bint_alloc_block pg c sz info ty = (block, mark_full, info', d)"
  shows "case bint_free_block d s sz ty of (freed, e) \<Rightarrow>
      freed = Some True \<and> metadata (index e) = metadata (index c) \<and>
      free_blocks (index e) = free_blocks (index c) \<and> bint_free (bint e) = bint_free (bint c)"
proof -
  let ?p = "metadata (index c)" and ?n = "blocks_of c sz"
  from bint_alloc_block_some [OF assms(2,3), of pg info ty] assms(4)
  have d: "metadata (index d) = set_range s ?n ?p" "free_blocks (index d) = free_blocks (index c) - of_nat ?n"
    "bint_free (bint d) = bint_free (bint c) - push_bit (bint_meta_shift (bint c)) (of_nat ?n)"
    "bint_meta_shift (bint d) = bint_meta_shift (bint c)" by auto
  have b: "blocks_of d sz = ?n" using d(4) by (simp add: blocks_of_def)
  from first_run_bounds [OF assms(3)] have fr: "free_run ?p s ?n" "s + ?n \<le> 640" by auto
  note laws = set_range_laws [OF assms(1) fr(2)]
  have len: "length (metadata (index d)) = 512" by (simp add: d(1) laws)
  have one: "ent_refs (ent (metadata (index d)) j) = 1" if "s \<le> j" "j < s + ?n" for j
    using that by (simp add: d(1) laws)
  note u = bint_free_block_uniform [OF len, of s sz 1 ty, unfolded b, OF fr(2) assms(2) _ one]
  show ?thesis
    using u drop_set_range [OF assms(1) fr(1)] d by (simp add: split_beta)
qed

theorem alloc_then_free_witness:
  "\<exists>block full info' d. bint_alloc_block True (sample_ctx empty_page) 4096 sample_info TYPE_DATA_BLOCK =
       (block, full, info', d) \<and>
     fst (bint_free_block d 0 4096 TYPE_DATA_BLOCK) = Some True \<and>
     metadata (index (snd (bint_free_block d 0 4096 TYPE_DATA_BLOCK))) = empty_page"
proof -
  obtain b full info' d where d: "bint_alloc_block True (sample_ctx empty_page) 4096 sample_info TYPE_DATA_BLOCK =
      (b, full, info', d)" by (cases "bint_alloc_block True (sample_ctx empty_page) 4096 sample_info TYPE_DATA_BLOCK")
  with alloc_then_free [OF _ _ _ d, of 0] show ?thesis by (simp add: first_run_empty split_beta)
qed

text \<open>
  C19. Freeing undoes referencing: after a successful \<open>bint_ref_block\<close> on a range, freeing the
  same range keeps its blocks in use and restores the page, bit for bit.
\<close>

theorem ref_then_free:
  assumes "length (metadata (index c)) = 512" "entry + blocks_of c sz \<le> 640" "0 < blocks_of c sz"
    "bint_ref_block c entry sz info nb = (Inr (), info', d)"
  shows "case bint_free_block d entry sz ty of (freed, e) \<Rightarrow>
      freed = Some False \<and> metadata (index e) = metadata (index c)"
proof -
  let ?p = "metadata (index c)" and ?n = "blocks_of c sz"
  note cases = bint_ref_block_cases [OF assms(1) assms(2) [unfolded blocks_of_def], folded blocks_of_def, of nb info]
  have can: "can_ref ?p entry ?n nb" using cases(1) assms(4) by force
  with cases(2) assms(4) have d: "metadata (index d) = inc_range entry ?n ?p" by auto
  have "bint_meta_shift (bint d) = bint_meta_shift (bint c)"
    using assms(4) by (auto simp: bint_ref_block_def Let_def frame_simps split: ref_exit.splits)
  then have b: "blocks_of d sz = ?n" by (simp add: blocks_of_def)
  let ?r = "ent_refs (ent ?p entry)"
  have all: "ent_refs (ent ?p i) \<noteq> 0 \<and> ent_refs (ent ?p i) \<noteq> 8191 \<and> ?r = ent_refs (ent ?p i)"
    if "entry \<le> i" "i < entry + ?n" for i
    using can that unfolding can_ref_def list_all_iff by auto
  note laws = inc_range_laws [OF assms(1,2) conjunct1 [OF conjunct2 [OF all]]]
  have len: "length (metadata (index d)) = 512" by (simp add: d laws)
  have first: "?r \<noteq> 0" "?r \<noteq> 8191" using all [of entry] assms(3) by auto
  have up: "ent_refs (ent (metadata (index d)) j) = ?r + 1" if "entry \<le> j" "j < entry + ?n" for j
    using that all [OF that] laws(3) [of j] inc_ent_laws(1) [OF refs_page.rd_fits [OF assms(1)]] by (simp add: d)
  have "unat ?r < 8191" using first(2) ent_refs_less [of "ent ?p entry"] by (auto simp: word_unat_eq_iff)
  then have "unat (?r + 1) = unat ?r + 1" by (simp add: unat_incr_less)
  then have nz: "?r + 1 \<noteq> 0" "?r + 1 \<noteq> 1" using first(1) by (auto simp: word_unat_eq_iff)
  note u = bint_free_block_uniform [OF len, of entry sz "?r + 1" ty, unfolded b, OF assms(2,3) nz(1) up]
  have "drop_range entry ?n (inc_range entry ?n ?p) = ?p"
    by (rule drop_inc_range [OF assms(1,2)]) (use all in blast)
  then show ?thesis using u nz(2) by (simp add: d split_beta)
qed

theorem ref_then_free_witness:
  "\<exists>info' d. bint_ref_block (sample_ctx one_ref_page) 3 4096 sample_info 0 = (Inr (), info', d) \<and>
     fst (bint_free_block d 3 4096 TYPE_DATA_BLOCK) = Some False \<and>
     metadata (index (snd (bint_free_block d 3 4096 TYPE_DATA_BLOCK))) = one_ref_page"
proof -
  from bint_ref_block_cases(2) [where c = "sample_ctx one_ref_page" and entry = 3 and sz = 4096 and nb = 0 and
      info = sample_info] one_ref_can
  obtain info' d where d: "bint_ref_block (sample_ctx one_ref_page) 3 4096 sample_info 0 = (Inr (), info', d)"
    by (auto simp: blocks_of_def [symmetric] one_ref_page_laws(1))
  from ref_then_free [OF _ _ _ d] d show ?thesis
    by (simp add: one_ref_page_laws(1) split_beta)
qed

text \<open>
  C20. Block addresses and index entries correspond: the entry found for the address of entry
  \<open>off\<close> of index \<open>idx\<close> is that entry, for any disk whose sectors are no larger than its
  allocation unit.
\<close>

theorem block_index_round_trip:
  assumes "unat idx < 2 ^ 40" "unat off < 640" "sector_shift b \<le> bint_meta_shift b"
  shows "index_id_from_block b (block_from_index b idx off) = (idx, off)"
  using assms by (rule index_block_recompose)

theorem block_index_round_trip_witness:
  "index_id_from_block (bint (sample_ctx [])) (block_from_index (bint (sample_ctx [])) 7 639) = (7, 639) \<and>
   block_from_index (bint (sample_ctx [])) 7 639 = 40952"
  using block_index_round_trip [of 7 639 "bint (sample_ctx [])"]
  by (simp add: sample_ctx_def bint_meta_shift_def block_from_index_def push_bit_eq_mult drop_bit_eq_div)

text \<open>
  Marking an index full (or no longer full) sets (clears) its own bit in the group's
  bitmap and no bit of another index of the group.
\<close>

lemma index_full_bitmap:
  assumes "slot_ok (igroup c) (index_id (index c))" "slot_ok (igroup c) iid"
  shows "(bint_check_if_index_full (igroup (bint_mark_index_full c)) iid \<longleftrightarrow>
            iid = index_id (index c) \<or> bint_check_if_index_full (igroup c) iid) \<and>
         (bint_check_if_index_full (igroup (bint_unmark_index_full c)) iid \<longleftrightarrow>
            iid \<noteq> index_id (index c) \<and> bint_check_if_index_full (igroup c) iid)"
  using full_update [OF assms] by blast

lemma index_full_bitmap_witness:
  "bint_check_if_index_full (igroup (bint_mark_index_full (sample_ctx []))) 7 \<and>
   \<not> bint_check_if_index_full (igroup (bint_unmark_index_full (sample_ctx []))) 7"
  using index_full_bitmap [of "sample_ctx []" 7] by (simp add: slot_ok_def sample_ctx_def)

text \<open>
  C21. Checksum round trip: a page written by \<open>index_write_csum\<close> and read back passes
  \<open>index_check_csum\<close>, and on a v2 disk the write id stored beside the checksum is recovered.
\<close>

theorem index_csum_round_trip:
  assumes "length (metadata (index c)) = 512" "unat (write_id (index (index_write_csum c incr))) < 2 ^ 48"
  shows "case index_check_csum (reread (index_write_csum c incr)) of
      (ok, d) \<Rightarrow> ok \<and> \<not> bit (index_flags (index d)) META_DATA_ERROR \<and>
        bit (index_flags (index d)) META_CSUM_CHECK_DONE \<and>
        write_id (index d) = (if v2_disk (bint c) then write_id (index (index_write_csum c incr)) else 1) \<and>
        metadata (index d) = metadata (index (index_write_csum c incr))"
proof (cases "v2_disk (bint c)")
  case True
  let ?w = "if incr then write_id_incr (write_id (index c)) 1 else write_id (index c)"
  have w: "unat ?w < 2 ^ 48" using assms(2) True by (simp add: index_write_csum_def Let_def)
  show ?thesis
    using True assms(1) csum_slots [OF w]
    by (auto simp: index_write_csum_def index_check_csum_def reread_def Let_def csum_take bit_simps)
next
  case False
  then show ?thesis
    using assms(1)
    by (simp add: index_write_csum_def index_check_csum_def reread_def Let_def csum_take bit_simps)
qed

theorem index_csum_round_trip_witness:
  "\<not> bit (index_flags (index (snd (index_check_csum (reread (index_write_csum (sample_ctx empty_page) True)))))) META_DATA_ERROR"
  using index_csum_round_trip [of "sample_ctx empty_page" True]
  by (simp add: split_beta index_write_csum_def sample_ctx_def write_id_incr_def)

text \<open>
  C22. On a disk without the v2 format the checksum catches every change to a single word of a
  page that carried a correct checksum, the checksum word included.
\<close>

theorem index_csum_detects_single_word:
  assumes "length (metadata (index c)) = 512" "\<not> v2_disk (bint c)" "k < 512" "w \<noteq> metadata (index c) ! k"
    "calc_csum (metadata (index c)) 4088 = metadata (index c) ! 511" "index_flags (index c) = 0"
  shows "bit (index_flags (index (snd (index_check_csum
           (c\<lparr>index := (index c)\<lparr>metadata := (metadata (index c))[k := w]\<rparr>\<rparr>))))) META_DATA_ERROR"
proof -
  let ?p = "metadata (index c)"
  have "calc_csum (?p[k := w]) 4088 \<noteq> ?p[k := w] ! 511"
  proof (cases "k = 511")
    case True
    with assms show ?thesis by (simp add: csum_take)
  next
    case False
    then have k: "k < 511" using assms(3) by simp
    have "calc_csum (?p[k := w]) 4088 = calc_csum ?p 4088 XOR (?p ! k XOR w)"
      using foldl_xor_update [of k "take 511 ?p" w] assms(1) k by (simp add: calc_csum_def take_update_swap)
    moreover have "a XOR (b XOR w) \<noteq> a" if "w \<noteq> b" for a b :: u64
      using that by (metis xor.assoc xor.left_neutral xor_self_eq)
    ultimately show ?thesis using assms(4,5) k by simp
  qed
  then show ?thesis using assms(2,6) by (simp add: index_check_csum_def Let_def bit_simps)
qed

theorem index_csum_detects_single_word_witness:
  "bit (index_flags (index (snd (index_check_csum (reread (sample_ctx (empty_page[100 := 1 :: u64]))))))) META_DATA_ERROR"
proof -
  have z: "foldl (XOR) (0 :: u64) (replicate n 0) = 0" for n by (induction n) simp_all
  have "calc_csum empty_page 4088 = 0" by (simp add: calc_csum_def take_replicate z)
  with index_csum_detects_single_word [of "reread (sample_ctx empty_page)" 100 1]
  show ?thesis by (simp add: reread_def sample_ctx_def)
qed

text \<open>
  On a v2 disk the checksum is blind to the upper 48 bits of every word: two pages whose
  words agree in their low 16 bits have the same checksum, so such a change is accepted.
\<close>

lemma index_csum16_ignores_high_bits:
  assumes "v2_disk (bint c)" "index_flags (index c) = 0" "length q = 512" "length (metadata (index c)) = 512"
    "list_all2 (\<lambda>x y. (ucast x :: u16) = ucast y) (metadata (index c)) q" "q ! 511 = metadata (index c) ! 511"
    "\<not> bit (index_flags (index (snd (index_check_csum c)))) META_DATA_ERROR"
  shows "\<not> bit (index_flags (index (snd (index_check_csum
           (c\<lparr>index := (index c)\<lparr>metadata := q\<rparr>\<rparr>))))) META_DATA_ERROR"
  using assms csum16_low_words [OF assms(5), of 4088]
  by (auto simp: index_check_csum_def Let_def bit_simps split: if_splits)

lemma index_csum16_ignores_high_bits_witness:
  "\<not> bit (index_flags (index (snd (index_check_csum
      ((reread (sample_ctx []))\<lparr>bint := (bint (sample_ctx []))\<lparr>v2_disk := True\<rparr>,
         index := (index (reread (sample_ctx [])))\<lparr>metadata := replicate 511 0x10000 @ [0xFFFF]\<rparr>\<rparr>))))) META_DATA_ERROR"
proof -
  let ?c = "(reread (sample_ctx []))\<lparr>bint := (bint (sample_ctx []))\<lparr>v2_disk := True\<rparr>,
      index := (index (reread (sample_ctx [])))\<lparr>metadata := replicate 511 0 @ [0xFFFF]\<rparr>\<rparr>"
  have z: "foldl (+) (0 :: u64) (replicate n 0) = 0" for n by (induction n) simp_all
  have "(ucast (NOT 0 :: u64) :: u16) = 0xFFFF" by code_simp
  then have "\<not> bit (index_flags (index (snd (index_check_csum ?c)))) META_DATA_ERROR"
    by (simp add: index_check_csum_def reread_def Let_def calc_csum16_def z nth_append bit_simps
       )
  from index_csum16_ignores_high_bits [of ?c "replicate 511 0x10000 @ [0xFFFF]", OF _ _ _ _ _ _ this]
  show ?thesis
    by (simp add: reread_def sample_ctx_def nth_append list_all2_conv_all_nth)
qed

end
