(* ===== verification/InitiatorProps.thy ===== *)
theory InitiatorProps
  imports Initiator
begin

text \<open>
  What the access rules and the initiator list guarantee: the rules behave as a finite map, an
  initiator the rules refuse never obtains its state, and unit attentions are
  queued in order, bounded, and delivered once.
\<close>

unbundle bit_operations_syntax

section \<open>The rules as a map\<close>

abbreviation fc_key :: "fc_rule \<Rightarrow> port \<times> u32" where
  "fc_key r \<equiv> (wwpn r, target_id r)"

definition fc_abs :: "fc_rule list \<Rightarrow> port \<times> u32 \<Rightarrow> int option" where
  "fc_abs rules = map_of (map (\<lambda>r. (fc_key r, rule r)) rules)"

definition fc_wf :: "fc_rule list \<Rightarrow> bool" where
  "fc_wf rules \<longleftrightarrow> distinct (map fc_key rules)"

lemma fc_rule_same_iff [simp]: "fc_rule_same r s \<longleftrightarrow> fc_key r = fc_key s"
  by (auto simp: fc_rule_same_def)

lemma fc_abs_simps [simp]:
  "fc_abs [] = Map.empty" "fc_abs (r # rules) = (fc_abs rules)(fc_key r \<mapsto> rule r)"
  by (simp_all add: fc_abs_def)

lemma fc_abs_None: "fc_abs rules k = None \<longleftrightarrow> k \<notin> fc_key ` set rules"
  by (auto simp: fc_abs_def map_of_eq_None_iff image_iff)

lemma fc_abs_snoc: "fc_abs rules (fc_key r) = None \<Longrightarrow> fc_abs (rules @ [r]) = (fc_abs rules)(fc_key r \<mapsto> rule r)"
  by (induction rules) (auto simp: fun_eq_iff split: if_splits)

lemma fc_abs_update_first:
  "list_ex (\<lambda>r. fc_rule_same r c) rules \<Longrightarrow>
   fc_abs (update_first (\<lambda>r. fc_rule_same r c) (\<lambda>r. r\<lparr>rule := v\<rparr>) rules) = (fc_abs rules)(fc_key c \<mapsto> v)"
  by (induction rules) (auto simp: fun_upd_twist)

lemma fc_abs_filter: "fc_abs (filter (\<lambda>r. fc_key r \<in> K) rules) = fc_abs rules |` K"
  by (induction rules) (auto simp: restrict_map_def fun_eq_iff)

lemma fc_remove_filter:
  "fc_wf rules \<Longrightarrow> target_remove_fc_rule rules cfg = filter (\<lambda>r. \<not> fc_rule_same r cfg) rules"
  unfolding target_remove_fc_rule_def fc_wf_def
  by (rule remove_first_filter_distinct [where k = fc_key and c = "fc_key cfg"]) auto

lemma fc_wf_filter: "fc_wf rules \<Longrightarrow> fc_wf (filter P rules)"
  by (simp add: fc_wf_def distinct_map_filter)

lemma fc_list_ex: "list_ex (\<lambda>r. fc_rule_same r cfg) rules \<longleftrightarrow> fc_abs rules (fc_key cfg) \<noteq> None"
  by (simp add: fc_abs_None list_ex_iff image_iff) metis

lemma fc_wf_add: "fc_wf rules \<Longrightarrow> fc_wf (target_add_fc_rule rules cfg)"
  by (auto simp: target_add_fc_rule_def fc_wf_def list_ex_iff image_iff map_update_first)

text \<open>
  C24. The rule list is a finite map from a port and a target to a rule: adding a rule sets its
  entry, removing one deletes it, clearing a target deletes its entries (clearing target 0
  all of them), and no operation ever leaves two rules for one port and target.
\<close>

theorem fc_rules_refine_map:
  assumes "fc_wf rules"
  shows "fc_wf (target_add_fc_rule rules cfg) \<and>
     fc_abs (target_add_fc_rule rules cfg) = (fc_abs rules)(fc_key cfg \<mapsto> rule cfg) \<and>
     fc_wf (target_remove_fc_rule rules cfg) \<and>
     fc_abs (target_remove_fc_rule rules cfg) = (fc_abs rules)(fc_key cfg := None) \<and>
     fc_wf (target_clear_fc_rules rules tid) \<and>
     fc_abs (target_clear_fc_rules rules tid) = fc_abs rules |` {k. tid \<noteq> 0 \<and> snd k \<noteq> tid}"
proof -
  have "fc_abs (target_add_fc_rule rules cfg) = (fc_abs rules)(fc_key cfg \<mapsto> rule cfg)"
    using fc_list_ex [of cfg rules]
    by (simp add: target_add_fc_rule_def fc_abs_update_first fc_abs_snoc del: fc_rule_same_iff)
  moreover have "fc_abs (target_remove_fc_rule rules cfg) = (fc_abs rules)(fc_key cfg := None)"
    using fc_abs_filter [of "- {fc_key cfg}" rules]
    by (simp add: fc_remove_filter [OF assms] restrict_complement_singleton_eq)
  moreover have "fc_abs (target_clear_fc_rules rules tid) = fc_abs rules |` {k. tid \<noteq> 0 \<and> snd k \<noteq> tid}"
    using fc_abs_filter [of "{k. tid \<noteq> 0 \<and> snd k \<noteq> tid}" rules]
    by (simp add: target_clear_fc_rules_def word_neq_0_conv)
  ultimately show ?thesis
    using fc_wf_add [OF assms] fc_wf_filter [OF assms]
    by (simp add: fc_remove_filter [OF assms] target_clear_fc_rules_def)
qed

theorem fc_rules_refine_map_witness:
  "fc_abs (target_add_fc_rule [\<lparr>wwpn = (1, 2), target_id = 3, rule = 0\<rparr>] \<lparr>wwpn = (1, 2), target_id = 3, rule = 1\<rparr>)
     ((1, 2), 3) = Some 1"
  using fc_rules_refine_map [of "[\<lparr>wwpn = (1, 2), target_id = 3, rule = 0\<rparr>]" "\<lparr>wwpn = (1, 2), target_id = 3, rule = 1\<rparr>" 0]
  by (simp add: fc_wf_def)


section \<open>The decision\<close>

lemma fc_scan_exact:
  "fc_wf rules \<Longrightarrow> fc_abs rules (w, tid) = Some v \<Longrightarrow> fc_scan_rules rules w tid s = v"
  by (induction rules arbitrary: s) (auto simp: fc_wf_def split: if_splits)

lemma fc_scan_wwpn:
  assumes "fc_wf rules" "fc_abs rules (w, tid) = None" "v \<noteq> -1"
    "fc_abs rules (w, 0) = Some v \<or> (fc_abs rules (w, 0) = None \<and> rule_wwpn s = v)"
  shows "fc_scan_rules rules w tid s = v"
  using assms
proof (induction rules arbitrary: s)
  case Nil
  then show ?case by (simp add: fc_decide_def)
next
  case (Cons r rules)
  have wf: "fc_wf rules" "fc_key r \<notin> fc_key ` set rules" using Cons.prems(1) by (auto simp: fc_wf_def)
  have none: "fc_abs rules (w, tid) = None" "fc_key r \<noteq> (w, tid)" using Cons.prems(2) by (auto split: if_splits)
  show ?case
  proof (cases "fc_key r = (w, 0)")
    case True
    with wf(2) have "fc_abs rules (w, 0) = None" by (simp add: fc_abs_None)
    with True none Cons.IH [OF wf(1) none(1) Cons.prems(3)] Cons.prems(4) show ?thesis by auto
  next
    case False
    then have "fc_abs (r # rules) (w, 0) = fc_abs rules (w, 0)" by auto
    with False none Cons.IH [OF wf(1) none(1) Cons.prems(3)] Cons.prems(4) show ?thesis by auto
  qed
qed

lemma fc_scan_none:
  "\<forall>r\<in>set rules. target_id r \<noteq> tid \<and> target_id r \<noteq> 0 \<and> fst (wwpn r) \<noteq> 0 \<Longrightarrow>
   fc_scan_rules rules w tid s = fc_decide s"
  by (induction rules) auto

lemma fc_initiator_check_alt:
  "fc_initiator_check rules w tid =
     fc_scan_rules rules w tid \<lparr>rule_wwpn = -1, rule_target = -1, rule_all_wwpn = -1, rule_all_target = -1\<rparr>"
  by (simp add: fc_initiator_check_def fc_decide_def)

lemma fc_scan_values:
  assumes "\<forall>r\<in>set rules. rule r \<in> V" "{rule_wwpn s, rule_target s, rule_all_wwpn s, rule_all_target s} \<subseteq> insert (-1) V" "0 \<in> V"
  shows "fc_scan_rules rules w tid s \<in> V"
  using assms by (induction rules arbitrary: s) (auto simp: fc_decide_def)

text \<open>
  C25. The rule for exactly this port and target decides; without one, the rule for this port
  and every target decides; when no rule names the target, target 0, or a wildcard port,
  access is allowed. The answer is always one of the rules or ALLOW.
\<close>

theorem fc_initiator_check_precedence:
  assumes "fc_wf rules" "\<forall>r\<in>set rules. rule r \<in> {FC_RULE_ALLOW, FC_RULE_DISALLOW}"
  shows "(\<forall>v. fc_abs rules (w, tid) = Some v \<longrightarrow> fc_initiator_check rules w tid = v) \<and>
     (\<forall>v. fc_abs rules (w, tid) = None \<longrightarrow> fc_abs rules (w, 0) = Some v \<longrightarrow> fc_initiator_check rules w tid = v) \<and>
     ((\<forall>r\<in>set rules. target_id r \<noteq> tid \<and> target_id r \<noteq> 0 \<and> fst (wwpn r) \<noteq> 0) \<longrightarrow>
        fc_initiator_check rules w tid = FC_RULE_ALLOW) \<and>
     fc_initiator_check rules w tid \<in> {FC_RULE_ALLOW, FC_RULE_DISALLOW}"
proof -
  have "fc_abs rules (w, 0) \<noteq> Some (-1)"
    using assms(2) by (fastforce simp: fc_abs_def dest!: map_of_SomeD)
  then show ?thesis
    using assms fc_scan_values [OF assms(2)]
    by (auto simp: fc_initiator_check_alt fc_scan_exact fc_scan_none fc_decide_def intro!: fc_scan_wwpn)
qed

theorem fc_initiator_check_precedence_witness:
  "fc_initiator_check [\<lparr>wwpn = (0, 0), target_id = 3, rule = 1\<rparr>, \<lparr>wwpn = (1, 2), target_id = 0, rule = 0\<rparr>] (1, 2) 3 = 0"
  using fc_initiator_check_precedence
    [of "[\<lparr>wwpn = (0, 0), target_id = 3, rule = 1\<rparr>, \<lparr>wwpn = (1, 2), target_id = 0, rule = 0\<rparr>]" "(1, 2)" 3]
  by (simp add: fc_wf_def)

text \<open>A rule for one port and a target also decides for every other port of that target.\<close>

lemma fc_rule_decides_for_other_ports:
  "rule r \<noteq> -1 \<Longrightarrow> fc_initiator_check [r] w (target_id r) = rule r"
  by (simp add: fc_initiator_check_def fc_decide_def)


section \<open>The initiator list\<close>

definition istates_wf :: "initiator_state list \<Rightarrow> bool" where
  "istates_wf l \<longleftrightarrow> distinct (map istate_iid l)"

text \<open>Every known Fibre Channel initiator carries the current decision of the rules.\<close>

definition fc_current :: "fc_rule list \<Rightarrow> u32 \<Rightarrow> initiator_state list \<Rightarrow> bool" where
  "fc_current rules tid l \<longleftrightarrow>
     list_all (\<lambda>s. is_init_int s = TARGET_INT_FC \<longrightarrow>
        disallowed s = word_of_int (fc_initiator_check rules (is_i_prt s) tid)) l"

definition fc_rules_ok :: "fc_rule list \<Rightarrow> bool" where
  "fc_rules_ok rules \<longleftrightarrow> list_all (\<lambda>r. rule r \<in> {FC_RULE_ALLOW, FC_RULE_DISALLOW}) rules"

text \<open>
  What happens to the rules and to the initiators of disk \<open>tid\<close>: a rule is added or removed and
  the initiators are revalidated, an initiator is looked up, released, freed or expires.
\<close>

inductive fc_step :: "u32 \<Rightarrow> fc_rule list \<times> initiator_state list \<Rightarrow> fc_rule list \<times> initiator_state list \<Rightarrow> bool"
  for tid where
  add: "rule cfg \<in> {FC_RULE_ALLOW, FC_RULE_DISALLOW} \<Longrightarrow> r' = target_add_fc_rule r cfg \<Longrightarrow>
    fc_step tid (r, l) (r', tdisk_revalidate_istates r' tid l)"
| remove: "r' = target_remove_fc_rule r cfg \<Longrightarrow> fc_step tid (r, l) (r', tdisk_revalidate_istates r' tid l)"
| get: "device_get_initiator_state r tid ticks l who rp alloc check = (found, l') \<Longrightarrow> (alloc \<Longrightarrow> check) \<Longrightarrow>
    fc_step tid (r, l) (r, l')"
| put: "fc_step tid (r, l) (r, istate_put who l)"
| unblock: "fc_step tid (r, l) (r, snd (device_unblock_queues l))"
| attention: "fc_step tid (r, l) (r, device_unit_attention l everyone who a ignore_dup)"
| free: "fc_step tid (r, l) (r, device_free_initiator_state2 l who)"
| expire: "fc_step tid (r, l) (r, device_free_stale_initiators tm timeout ticks l)"

definition fc_inv :: "u32 \<Rightarrow> fc_rule list \<times> initiator_state list \<Rightarrow> bool" where
  "fc_inv tid x \<longleftrightarrow> fc_rules_ok (fst x) \<and> istates_wf (snd x) \<and> fc_current (fst x) tid (snd x)"

lemma fc_current_mono: "set l' \<subseteq> set l \<Longrightarrow> fc_current r tid l \<Longrightarrow> fc_current r tid l'"
  by (auto simp: fc_current_def list_all_iff)

lemma fc_current_map:
  assumes "\<And>s. istate_iid (f s) = istate_iid s \<and> disallowed (f s) = disallowed s"
  shows "fc_current r tid l \<Longrightarrow> fc_current r tid (map f l)" "istates_wf l \<Longrightarrow> istates_wf (map f l)"
  using assms by (auto simp: fc_current_def list_all_iff istates_wf_def o_def)

lemma revalidate_current: "fc_current r tid (tdisk_revalidate_istates r tid l)"
  by (auto simp: fc_current_def list_all_iff tdisk_revalidate_istates_def)

lemma revalidate_wf: "istates_wf l \<Longrightarrow> istates_wf (tdisk_revalidate_istates r tid l)"
  unfolding istates_wf_def tdisk_revalidate_istates_def map_map
  by (rule back_subst [where P = distinct], assumption) (rule map_cong, auto)

lemma fc_check_values:
  "fc_rules_ok r \<Longrightarrow> fc_initiator_check r w tid \<in> {FC_RULE_ALLOW, FC_RULE_DISALLOW}"
  unfolding fc_initiator_check_alt by (rule fc_scan_values) (auto simp: fc_rules_ok_def list_all_iff)

lemma get_initiator_inv:
  assumes "device_get_initiator_state r tid ticks l who rp alloc check = (found, l')" "alloc \<Longrightarrow> check"
    "istates_wf l" "fc_current r tid l"
  shows "istates_wf l' \<and> fc_current r tid l' \<and> (found \<longrightarrow> l' \<noteq> [] \<and> istate_iid (hd l') = who \<and> disallowed (hd l') = 0)"
proof (cases "List.find (\<lambda>iter. istate_iid iter = who) l")
  case None
  with assms show ?thesis
    by (auto simp: device_get_initiator_state_def find_None_list_ex list_ex_iff istates_wf_def fc_current_def
        init_istate_def image_iff split: if_splits)
next
  case (Some iter)
  then obtain ys zs where "l = ys @ iter # zs" "istate_iid iter = who"
    "remove_first (\<lambda>iter. istate_iid iter = who) l = ys @ zs"
    using find_Some_split [OF Some] by blast
  with Some assms show ?thesis
    by (auto simp: device_get_initiator_state_def istates_wf_def fc_current_def split: if_splits)
qed

lemma add_rules_ok:
  assumes "fc_rules_ok r" "rule cfg \<in> {FC_RULE_ALLOW, FC_RULE_DISALLOW}"
  shows "fc_rules_ok (target_add_fc_rule r cfg)" "fc_rules_ok (target_remove_fc_rule r cfg')"
proof -
  have "fc_rules_ok (update_first P (\<lambda>iter. iter\<lparr>rule := rule cfg\<rparr>) r)" for P
    using assms by (induction r) (auto simp: fc_rules_ok_def)
  then show "fc_rules_ok (target_add_fc_rule r cfg)"
    using assms by (simp add: target_add_fc_rule_def fc_rules_ok_def)
  show "fc_rules_ok (target_remove_fc_rule r cfg')"
    using assms(1) by (auto simp: fc_rules_ok_def list_all_iff target_remove_fc_rule_def dest: set_remove_first_subset [THEN subsetD])
qed


lemma fc_step_inv:
  assumes "fc_step tid x y" "fc_inv tid x"
  shows "fc_inv tid y"
  using assms
proof (induction rule: fc_step.induct)
  case (add cfg r' r l)
  then show ?case by (simp add: fc_inv_def add_rules_ok revalidate_current revalidate_wf)
next
  case (remove r' r cfg l)
  then show ?case by (simp add: fc_inv_def add_rules_ok(2) [of r "\<lparr>wwpn = (0, 0), target_id = 0, rule = 0\<rparr>"]
        revalidate_current revalidate_wf)
next
  case (get r ticks l who rp alloc check found l')
  then show ?case using get_initiator_inv [OF get(1)] by (auto simp: fc_inv_def)
next
  case (put r l who)
  have "fc_current r tid (istate_put who l)"
    using put unfolding fc_inv_def istate_put_def istate_update_def
    by (induction l) (auto simp: fc_current_def istates_wf_def)
  moreover have "istates_wf (istate_put who l)"
    using put by (simp add: fc_inv_def istate_put_def istate_update_def istates_wf_def map_update_first)
  ultimately show ?case using put by (simp add: fc_inv_def)
next
  case (unblock r l)
  then show ?case by (auto simp: fc_inv_def device_unblock_queues_def intro!: fc_current_map)
next
  case (attention r l everyone who a ignore_dup)
  then show ?case
    by (auto simp: fc_inv_def device_unit_attention_def device_add_sense_def Let_def intro!: fc_current_map)
next
  case (free r l who)
  then show ?case
    using fc_current_mono [OF set_remove_first_subset [of "\<lambda>s. istate_iid s = who" l]]
    by (simp add: fc_inv_def device_free_initiator_state2_def istates_wf_def distinct_map_remove_first)
next
  case (expire r l tm timeout ticks)
  then show ?case
    by (auto simp: fc_inv_def device_free_stale_initiators_def istates_wf_def distinct_map_filter
        elim: fc_current_mono [rotated])
qed

lemma fc_steps_inv: "(fc_step tid)\<^sup>*\<^sup>* x y \<Longrightarrow> fc_inv tid x \<Longrightarrow> fc_inv tid y"
  by (induction rule: rtranclp_induct) (auto dest: fc_step_inv)


definition sample_rule :: fc_rule where
  "sample_rule = \<lparr>wwpn = (7, 0), target_id = 3, rule = 1\<rparr>"



section \<open>The queue of unit attentions\<close>

lemma add_sense_list:
  "length (sense_list s) \<le> 8 \<Longrightarrow> sense_list (device_add_sense s e k i a) =
     (let l = sense_list s @ [fill_sense_info e k i a] in drop (length l - 8) l)"
  by (cases "length (sense_list s) = 8") (auto simp: device_add_sense_def Let_def drop_Suc tl_append split: list.splits)

lemma drop_last_n: "drop (length (drop (length l - n) l @ m) - n) (drop (length l - n) l @ m) =
   drop (length (l @ m) - n) (l @ m)"
  by (cases "n \<le> length l") (auto simp: add.commute)

lemma add_senses_list:
  assumes "length (sense_list s) \<le> 8"
  shows "sense_list (fold (\<lambda>(e, k, i, a) s. device_add_sense s e k i a) evs s) =
     (let l = sense_list s @ map (\<lambda>(e, k, i, a). fill_sense_info e k i a) evs in drop (length l - 8) l)"
  using assms
proof (induction evs rule: rev_induct)
  case Nil
  then show ?case by simp
next
  case (snoc ev evs)
  obtain e k i a where ev: "ev = (e, k, i, a)" by (cases ev) auto
  let ?l = "sense_list s @ map (\<lambda>(e, k, i, a). fill_sense_info e k i a) evs"
  have "sense_list (fold (\<lambda>(e, k, i, a) s. device_add_sense s e k i a) (evs @ [ev]) s) =
      (let l = drop (length ?l - 8) ?l @ [fill_sense_info e k i a] in drop (length l - 8) l)"
    using snoc by (simp add: ev add_sense_list Let_def)
  then show ?case using drop_last_n [of ?l 8 "[fill_sense_info e k i a]"] by (simp add: ev Let_def)
qed

text \<open>Reading the queue until it is empty.\<close>

fun get_senses :: "nat \<Rightarrow> initiator_state \<Rightarrow> qs_sense_data option list" where
  "get_senses 0 s = []"
| "get_senses (Suc n) s = (let (x, s') = device_get_sense s in x # get_senses n s')"

lemma get_senses_list:
  "n \<le> length (sense_list s) \<Longrightarrow> get_senses n s = map Some (take n (sense_list s))"
  by (induction n arbitrary: s) (auto simp: device_get_sense_def split: list.splits)

lemma get_senses_none: "get_senses (length (sense_list s) + 1) s = map Some (sense_list s) @ [None]"
proof (induction "sense_list s" arbitrary: s)
  case Nil
  then show ?case by (simp add: device_get_sense_def)
next
  case (Cons x xs)
  from Cons(1) [of "s\<lparr>sense_list := xs\<rparr>"] Cons(2) [symmetric] show ?case by (simp add: device_get_sense_def)
qed

text \<open>
  C26. The unit attention queue of an initiator holds the eight most recent conditions: whatever
  conditions are established, reading the queue returns the last eight of them, oldest
  first, each once, and then nothing.
\<close>

theorem sense_queue_fifo_bounded:
  assumes "length (sense_list s) \<le> MAX_UNIT_ATTENTIONS"
    "s' = fold (\<lambda>(e, k, i, a) s. device_add_sense s e k i a) evs s"
    "l = sense_list s @ map (\<lambda>(e, k, i, a). fill_sense_info e k i a) evs"
  shows "length (sense_list s') \<le> MAX_UNIT_ATTENTIONS \<and>
     get_senses (length (sense_list s') + 1) s' = map Some (drop (length l - MAX_UNIT_ATTENTIONS) l) @ [None]"
  using add_senses_list [OF assms(1), of evs] assms(2,3) get_senses_none [of s'] by (simp add: Let_def)

theorem sense_queue_fifo_bounded_witness:
  "get_senses 9 (fold (\<lambda>(e, k, i, a) s. device_add_sense s e k i a)
     (replicate 12 (SSD_CURRENT_ERROR, SSD_KEY_UNIT_ATTENTION, 0, (0x29, 0))) (init_istate ((1, 0), (0, 0), 0) 0)) =
   replicate 8 (Some (fill_sense_info SSD_CURRENT_ERROR SSD_KEY_UNIT_ATTENTION 0 (0x29, 0))) @ [None]"
proof -
  let ?evs = "replicate 12 (SSD_CURRENT_ERROR, SSD_KEY_UNIT_ATTENTION, 0, (0x29, 0))"
  define s s' where "s = init_istate ((1, 0), (0, 0), 0) 0"
    and "s' = fold (\<lambda>(e, k, i, a) s. device_add_sense s e k i a) ?evs s"
  have "sense_list s = []" by (simp add: s_def init_istate_def)
  with sense_queue_fifo_bounded [OF _ s'_def refl] add_senses_list [of s ?evs, folded s'_def]
  have "get_senses 9 s' = replicate 8 (Some (fill_sense_info SSD_CURRENT_ERROR SSD_KEY_UNIT_ATTENTION 0 (0x29, 0))) @ [None]"
    by (simp add: Let_def del: get_senses.simps)
  then show ?thesis by (simp add: s_def s'_def del: get_senses.simps fold_replicate)
qed

lemma find_sense_add: "length (sense_list s) \<le> 8 \<Longrightarrow> device_find_sense (device_add_sense s e k i a) k a"
  by (cases "sense_list s") (auto simp: device_find_sense_def device_add_sense_def fill_sense_info_def Let_def)

text \<open>
  Establishing a unit attention reaches exactly the initiators it should: every
  initiator of the disk but the excluded one and the mirror peers has it pending afterwards,
  the excluded one and the peers keep their queues, and with duplicates ignored nobody's
  queue grows when the condition was already pending.
\<close>

lemma device_unit_attention_reaches:
  assumes "\<forall>s\<in>set l. length (sense_list s) \<le> MAX_UNIT_ATTENTIONS" "i < length l"
    "l' = device_unit_attention l everyone who a ignore_dup"
  shows "istate_iid (l' ! i) = istate_iid (l ! i) \<and> queue_list (l' ! i) = queue_list (l ! i) \<and>
    (if (\<not> everyone \<and> istate_iid (l ! i) = who) \<or> is_init_int (l ! i) = TARGET_INT_MIRROR then l' ! i = l ! i
     else device_find_sense (l' ! i) SSD_KEY_UNIT_ATTENTION a \<and>
       (ignore_dup \<and> device_find_sense (l ! i) SSD_KEY_UNIT_ATTENTION a \<longrightarrow> l' ! i = l ! i))"
  using assms by (auto simp: device_unit_attention_def find_sense_add nth_mem) (simp_all add: device_add_sense_def Let_def)

lemma device_unit_attention_reaches_witness:
  "device_find_sense (device_unit_attention [init_istate ((1, 0), (0, 0), 0) 0, init_istate ((2, 0), (0, 0), 0) 0]
     False ((1, 0), (0, 0), 0) (0x2A, 3) True ! 1) SSD_KEY_UNIT_ATTENTION (0x2A, 3)"
  using device_unit_attention_reaches [OF _ _ refl, of "[init_istate ((1, 0), (0, 0), 0) 0, init_istate ((2, 0), (0, 0), 0) 0]" 1
      False "((1, 0), (0, 0), 0)" "(0x2A, 3)" True]
  by (simp add: init_istate_def)

end
