(* ===== verification/TaskSet.thy ===== *)
theory TaskSet
  imports DeviceQueue "HOL-Library.Sublist"
begin

text \<open>
  What the task set of an initiator guarantees: its counters count, no command is forgotten,
  and released commands start in arrival order.
\<close>

unbundle bit_operations_syntax

section \<open>Counting\<close>

definition num :: "('a \<Rightarrow> bool) \<Rightarrow> 'a list \<Rightarrow> nat" where
  "num P xs = length (filter P xs)"

lemma num_simps [simp]:
  "num P [] = 0" "num P (x # xs) = (if P x then Suc (num P xs) else num P xs)"
  "num P (xs @ ys) = num P xs + num P ys"
  by (simp_all add: num_def)

lemma num_le: "num P xs \<le> length xs"
  by (simp add: num_def)

lemma num_cong: "(\<And>x. x \<in> set xs \<Longrightarrow> P x = Q x) \<Longrightarrow> num P xs = num Q xs"
  unfolding num_def by (intro arg_cong [where f = length] filter_cong) auto

lemma num_remove1: "c \<in> set xs \<Longrightarrow> num P xs = num P (remove1 c xs) + (if P c then 1 else 0)"
  by (induction xs) auto

lemma num_zero: "num P xs = 0 \<longleftrightarrow> (\<forall>x\<in>set xs. \<not> P x)"
  by (simp add: num_def filter_empty_conv)

text \<open>Setting a predicate on a subsequence raises its count by the length of that subsequence.\<close>

lemma num_raise:
  assumes "distinct xs" "distinct rel" "set rel \<subseteq> set xs" "\<And>x. x \<in> set rel \<Longrightarrow> \<not> P x"
  shows "num (\<lambda>x. P x \<or> (x \<in> set rel \<and> Q x)) xs = num P xs + num Q rel"
proof -
  have "num (\<lambda>x. P x \<or> (x \<in> set rel \<and> Q x)) xs = card {x \<in> set xs. P x \<or> (x \<in> set rel \<and> Q x)}"
    using assms(1) by (simp add: num_def distinct_length_filter Int_def conj_commute)
  also have "{x \<in> set xs. P x \<or> (x \<in> set rel \<and> Q x)} = {x \<in> set xs. P x} \<union> {x \<in> set rel. Q x}"
    using assms(3) by auto
  also have "card \<dots> = card {x \<in> set xs. P x} + card {x \<in> set rel. Q x}"
    using assms(4) by (intro card_Un_disjoint) auto
  finally show ?thesis
    using assms(1,2) by (simp add: num_def distinct_length_filter Int_def conj_commute)
qed

section \<open>The invariant\<close>

abbreviation (input) attr_ordered :: "qsio_scsiio \<Rightarrow> bool" where
  "attr_ordered x \<equiv> task_attr x = MSG_ORDERED_TASK \<or> task_attr x = MSG_ACA_TASK"

definition attr_ok :: "qsio_scsiio \<Rightarrow> bool" where
  "attr_ok x \<longleftrightarrow> task_attr x \<in> {MSG_SIMPLE_TASK, MSG_HEAD_OF_QUEUE_TASK, MSG_ORDERED_TASK, MSG_ACA_TASK}"

definition ts_counts :: "ccbs \<Rightarrow> initiator_state \<Rightarrow> bool" where
  "ts_counts h s \<longleftrightarrow>
     ts_queued s = of_nat (num (\<lambda>c. queued (h c)) (queue_list s)) \<and>
     ts_pending s = of_nat (num (\<lambda>c. \<not> queued (h c)) (queue_list s)) \<and>
     ts_head s = of_nat (num (\<lambda>c. queued (h c) \<and> task_attr (h c) = MSG_HEAD_OF_QUEUE_TASK) (queue_list s)) \<and>
     ts_ordered s = of_nat (num (\<lambda>c. queued (h c) \<and> attr_ordered (h c)) (queue_list s))"

text \<open>
  The counters agree with the commands in the task set, a head-of-queue command never waits,
  and the oldest command has been started.
\<close>

definition ts_inv :: "ccbs \<Rightarrow> initiator_state \<Rightarrow> bool" where
  "ts_inv h s \<longleftrightarrow> distinct (queue_list s) \<and> length (queue_list s) < 2 ^ 32 \<and>
     list_all (\<lambda>c. attr_ok (h c)) (queue_list s) \<and> ts_counts h s \<and>
     list_all (\<lambda>c. task_attr (h c) = MSG_HEAD_OF_QUEUE_TASK \<longrightarrow> queued (h c)) (queue_list s) \<and>
     (queue_list s \<noteq> [] \<longrightarrow> queued (h (hd (queue_list s))))"

lemma of_nat_u32_zero: "n < 2 ^ 32 \<Longrightarrow> (of_nat n :: u32) = 0 \<longleftrightarrow> n = 0"
  by (auto simp: word_unat_eq_iff unsigned_of_nat take_bit_nat_eq_self)

lemma ts_counter_zero:
  assumes "ts_inv h s"
  shows "ts_queued s = 0 \<longleftrightarrow> (\<forall>c\<in>set (queue_list s). \<not> queued (h c))"
    "ts_pending s = 0 \<longleftrightarrow> (\<forall>c\<in>set (queue_list s). queued (h c))"
    "ts_head s = 0 \<longleftrightarrow> (\<forall>c\<in>set (queue_list s). \<not> (queued (h c) \<and> task_attr (h c) = MSG_HEAD_OF_QUEUE_TASK))"
    "ts_ordered s = 0 \<longleftrightarrow> (\<forall>c\<in>set (queue_list s). \<not> (queued (h c) \<and> attr_ordered (h c)))"
proof -
  have lt: "num P (queue_list s) < 2 ^ 32" for P
    using assms num_le [of P "queue_list s"] by (simp add: ts_inv_def)
  note z = of_nat_u32_zero [OF lt]
  show "ts_queued s = 0 \<longleftrightarrow> (\<forall>c\<in>set (queue_list s). \<not> queued (h c))"
    "ts_pending s = 0 \<longleftrightarrow> (\<forall>c\<in>set (queue_list s). queued (h c))"
    "ts_head s = 0 \<longleftrightarrow> (\<forall>c\<in>set (queue_list s). \<not> (queued (h c) \<and> task_attr (h c) = MSG_HEAD_OF_QUEUE_TASK))"
    "ts_ordered s = 0 \<longleftrightarrow> (\<forall>c\<in>set (queue_list s). \<not> (queued (h c) \<and> attr_ordered (h c)))"
    using assms by (simp_all add: ts_inv_def ts_counts_def z num_zero)
qed

section \<open>Starting commands\<close>

lemma ctio_start_simps [simp]:
  "task_attr (ctio_start c h x) = task_attr (h x)"
  "queued (ctio_start c h x) \<longleftrightarrow> x = c \<or> queued (h x)"
  by (auto simp: ctio_start_def)

lemma starts_simps [simp]:
  "task_attr (fold ctio_start cs h x) = task_attr (h x)"
  "queued (fold ctio_start cs h x) \<longleftrightarrow> x \<in> set cs \<or> queued (h x)"
  by (induction cs arbitrary: h) auto

section \<open>Queueing\<close>

lemma queue_cmd_inv:
  assumes "ts_inv h s" "c \<notin> set (queue_list s)" "\<not> queued (h c)" "attr_ok (h c)"
    "length (queue_list s) < 2 ^ 32 - 1" "istate_queue_cmd h s c = (exec, h', s')"
  shows "ts_inv h' s'"
proof -
  let ?a = "task_attr (h c)"
  have nc: "x \<noteq> c" if "x \<in> set (queue_list s)" for x using that assms(2) by auto
  have same: "num (\<lambda>x. queued (ctio_start c h x)) (queue_list s) = num (\<lambda>x. queued (h x)) (queue_list s)"
    "num (\<lambda>x. \<not> queued (ctio_start c h x)) (queue_list s) = num (\<lambda>x. \<not> queued (h x)) (queue_list s)"
    "num (\<lambda>x. queued (ctio_start c h x) \<and> task_attr (h x) = MSG_HEAD_OF_QUEUE_TASK) (queue_list s) =
       num (\<lambda>x. queued (h x) \<and> task_attr (h x) = MSG_HEAD_OF_QUEUE_TASK) (queue_list s)"
    "num (\<lambda>x. queued (ctio_start c h x) \<and> attr_ordered (h x)) (queue_list s) =
       num (\<lambda>x. queued (h x) \<and> attr_ordered (h x)) (queue_list s)"
    by (rule num_cong, use nc in auto)+
  have hd: "queue_list s \<noteq> [] \<Longrightarrow> hd (queue_list s) \<noteq> c" using assms(2) hd_in_set by metis
  have start: "exec" if "queue_list s = []"
    using that assms(4,6) ts_counter_zero [OF assms(1)]
    by (auto simp: istate_queue_cmd_def Let_def attr_ok_def split: if_splits)
  have a: "?a = MSG_SIMPLE_TASK \<or> ?a = MSG_HEAD_OF_QUEUE_TASK \<or> attr_ordered (h c)"
    using assms(4) by (auto simp: attr_ok_def)
  have ql: "queue_list s' = queue_list s @ [c]"
    using assms(6) by (auto simp: istate_queue_cmd_def Let_def split: if_splits)
  have h': "h' = (if exec then ctio_start c h else h)"
    using assms(6) by (auto simp: istate_queue_cmd_def Let_def split: if_splits)
  have he: "?a = MSG_HEAD_OF_QUEUE_TASK \<Longrightarrow> exec"
    using assms(6) by (auto simp: istate_queue_cmd_def Let_def split: if_splits)
  have "ts_counts h' s'"
    using assms(1,3,6) a same unfolding ts_counts_def ql h'
    by (auto simp: istate_queue_cmd_def Let_def ts_inv_def ts_counts_def split: if_splits)
  moreover have "queued (h' (hd (queue_list s')))"
    using assms(1) hd start unfolding ql h' by (cases "queue_list s") (auto simp: ts_inv_def)
  ultimately show ?thesis
    using assms(1,2,4,5) he nc unfolding ts_inv_def ql h'
    by (auto simp: attr_ok_def list_all_iff)
qed

section \<open>Releasing\<close>

lemma subseq_set: "subseq xs ys \<Longrightarrow> x \<in> set xs \<Longrightarrow> x \<in> set ys"
  using list_emb_set [of "(=)" xs ys x] by auto

lemma release_loop_effect:
  assumes "release_loop h s cs no nq = (rel, h', s')" "distinct cs" "\<forall>c\<in>set cs. attr_ok (h c)"
    "\<forall>c\<in>set cs. task_attr (h c) = MSG_HEAD_OF_QUEUE_TASK \<longrightarrow> queued (h c)"
  shows "distinct rel \<and> subseq rel cs \<and> (\<forall>c\<in>set rel. \<not> queued (h c)) \<and> h' = fold ctio_start rel h \<and>
     s' = s\<lparr>ts_pending := ts_pending s - of_nat (length rel), ts_queued := ts_queued s + of_nat (length rel),
            ts_ordered := ts_ordered s + of_nat (num (\<lambda>c. attr_ordered (h c)) rel)\<rparr>"
  using assms
proof (induction cs arbitrary: h s no nq rel h' s')
  case Nil
  then show ?case by auto
next
  case (Cons c cs)
  have dist: "distinct cs" "c \<notin> set cs" using Cons.prems(2) by auto
  have pre: "\<forall>x\<in>set cs. attr_ok (ctio_start c h x)"
    "\<forall>x\<in>set cs. task_attr (ctio_start c h x) = MSG_HEAD_OF_QUEUE_TASK \<longrightarrow> queued (ctio_start c h x)"
    using Cons.prems(3,4) by (auto simp: attr_ok_def)
  consider (run) "queued (h c)" | (stop) "\<not> queued (h c)" "rel = []" "h' = h" "s' = s"
    | (go) t rel' where "\<not> queued (h c)" "rel = c # rel'"
        "\<exists>no nq. release_loop (ctio_start c h) t cs no nq = (rel', h', s')"
        "t = s\<lparr>ts_pending := ts_pending s - 1, ts_queued := ts_queued s + 1,
               ts_ordered := ts_ordered s + (if attr_ordered (h c) then 1 else 0)\<rparr>"
    using Cons.prems(1,3,4) by (fastforce simp: attr_ok_def split: if_splits prod.splits)
  then show ?case
  proof cases
    case run
    with Cons.prems(1) obtain no' where "release_loop h s cs no' (Suc nq) = (rel, h', s')" by auto
    from Cons.IH [OF this dist(1)] Cons.prems(3,4) show ?thesis by (auto intro: subseq_Cons')
  next
    case stop
    then show ?thesis by simp
  next
    case go
    then obtain no' nq' where "release_loop (ctio_start c h) t cs no' nq' = (rel', h', s')" by blast
    from Cons.IH [OF this dist(1) pre] dist(2) go(1,2,4) show ?thesis
      by (auto dest: subseq_set)
  qed
qed

lemma release_loop_first:
  assumes "release_loop h s (c # cs) 0 0 = (rel, h', s')" "attr_ok (h c)"
    "task_attr (h c) = MSG_HEAD_OF_QUEUE_TASK \<Longrightarrow> queued (h c)"
  shows "queued (h c) \<or> c \<in> set rel"
  using assms by (auto simp: attr_ok_def split: if_splits prod.splits)



section \<open>Completing\<close>

lemma ts_counts_starts:
  assumes "ts_counts h s" "distinct (queue_list s)" "distinct rel" "set rel \<subseteq> set (queue_list s)"
    "\<forall>c\<in>set rel. \<not> queued (h c)" "\<forall>c\<in>set rel. task_attr (h c) \<noteq> MSG_HEAD_OF_QUEUE_TASK"
  shows "ts_counts (fold ctio_start rel h)
     (s\<lparr>ts_pending := ts_pending s - of_nat (length rel), ts_queued := ts_queued s + of_nat (length rel),
        ts_ordered := ts_ordered s + of_nat (num (\<lambda>c. attr_ordered (h c)) rel)\<rparr>)"
proof -
  let ?q = "queue_list s"
  have disj: "(x \<in> set rel \<or> queued (h x)) = (queued (h x) \<or> (x \<in> set rel \<and> True))" for x by auto
  have q: "num (\<lambda>x. x \<in> set rel \<or> queued (h x)) ?q = num (\<lambda>x. queued (h x)) ?q + length rel"
    using num_raise [of ?q rel "\<lambda>x. queued (h x)" "\<lambda>_. True"] assms
    by (simp add: disj num_def)
  have "num (\<lambda>x. x \<in> set rel \<or> queued (h x)) ?q + num (\<lambda>x. \<not> (x \<in> set rel \<or> queued (h x))) ?q = length ?q"
    "num (\<lambda>x. queued (h x)) ?q + num (\<lambda>x. \<not> queued (h x)) ?q = length ?q"
    unfolding num_def by (rule sum_length_filter_compl)+
  with q have p: "num (\<lambda>x. \<not> queued (h x)) ?q = num (\<lambda>x. x \<notin> set rel \<and> \<not> queued (h x)) ?q + length rel"
    by simp
  have hd: "num (\<lambda>x. (x \<in> set rel \<or> queued (h x)) \<and> task_attr (h x) = MSG_HEAD_OF_QUEUE_TASK) ?q =
      num (\<lambda>x. queued (h x) \<and> task_attr (h x) = MSG_HEAD_OF_QUEUE_TASK) ?q"
    by (rule num_cong) (use assms(6) in auto)
  have or: "((x \<in> set rel \<or> queued (h x)) \<and> attr_ordered (h x)) =
      ((queued (h x) \<and> attr_ordered (h x)) \<or> (x \<in> set rel \<and> attr_ordered (h x)))" for x by auto
  have o: "num (\<lambda>x. (x \<in> set rel \<or> queued (h x)) \<and> attr_ordered (h x)) ?q =
      num (\<lambda>x. queued (h x) \<and> attr_ordered (h x)) ?q + num (\<lambda>c. attr_ordered (h c)) rel"
    unfolding or by (rule num_raise) (use assms in auto)
  show ?thesis
    using assms(1) q hd o by (simp add: ts_counts_def p)
qed

lemma remove_cmd_inv:
  assumes "ts_inv h s" "c \<in> set (queue_list s)" "queued (h c)" "istate_remove_cmd h s c = (rel, h', s')"
  shows "ts_inv h' s' \<and> queue_list s' = remove1 c (queue_list s) \<and> subseq rel (remove1 c (queue_list s)) \<and>
     (\<forall>x\<in>set rel. \<not> queued (h x)) \<and> h' = fold ctio_start rel h"
proof -
  let ?q = "remove1 c (queue_list s)"
  define u where "u = s\<lparr>ts_queued := ts_queued s - 1,
     ts_head := ts_head s - (if task_attr (h c) = MSG_HEAD_OF_QUEUE_TASK then 1 else 0),
     ts_ordered := ts_ordered s - (if attr_ordered (h c) then 1 else 0), queue_list := ?q\<rparr>"
  have inv: "distinct ?q" "length ?q < 2 ^ 32" "\<forall>x\<in>set ?q. attr_ok (h x)"
    "\<forall>x\<in>set ?q. task_attr (h x) = MSG_HEAD_OF_QUEUE_TASK \<longrightarrow> queued (h x)"
    using assms(1) by (auto simp: ts_inv_def list_all_iff length_remove1 dest: notin_set_remove1)
  have cnt: "ts_counts h u"
    using assms(1,3) num_remove1 [OF assms(2)] by (simp add: ts_counts_def ts_inv_def u_def)
  have eq: "istate_remove_cmd h s c =
      (if ts_pending s = 0 \<or> queue_list s = [] \<or> hd (queue_list s) \<noteq> c then ([], h, u) else release_loop h u ?q 0 0)"
    using assms(3) by (auto simp: istate_remove_cmd_def Let_def u_def)
  show ?thesis
  proof (cases "ts_pending s = 0 \<or> queue_list s = [] \<or> hd (queue_list s) \<noteq> c")
    case True
    then have e: "rel = []" "h' = h" "s' = u" using assms(4) eq by auto
    have "queued (h (hd ?q))" if "?q \<noteq> []"
    proof (cases "ts_pending s = 0")
      case True
      have "hd ?q \<in> set (queue_list s)" using hd_in_set [OF that] by (meson notin_set_remove1)
      with True ts_counter_zero(2) [OF assms(1)] show ?thesis by blast
    next
      case False
      with True assms(2) have "hd ?q = hd (queue_list s)" by (cases "queue_list s") auto
      with assms(1,2) show ?thesis by (cases "queue_list s") (auto simp: ts_inv_def)
    qed
    with e inv cnt show ?thesis by (auto simp: ts_inv_def list_all_iff u_def)
  next
    case False
    with assms(4) eq have r: "release_loop h u ?q 0 0 = (rel, h', s')" by simp
    from release_loop_effect [OF r inv(1,3,4)] have e: "distinct rel" "subseq rel ?q"
      "\<forall>x\<in>set rel. \<not> queued (h x)" "h' = fold ctio_start rel h"
      "s' = u\<lparr>ts_pending := ts_pending u - of_nat (length rel), ts_queued := ts_queued u + of_nat (length rel),
             ts_ordered := ts_ordered u + of_nat (num (\<lambda>c. attr_ordered (h c)) rel)\<rparr>" by auto
    have sub: "set rel \<subseteq> set ?q" using subseq_set [OF e(2)] by blast
    have nh: "\<forall>x\<in>set rel. task_attr (h x) \<noteq> MSG_HEAD_OF_QUEUE_TASK" using sub inv(4) e(3) by blast
    have "ts_counts h' s'"
      unfolding e(4,5) by (rule ts_counts_starts [OF cnt _ e(1) _ e(3) nh]) (use inv sub in \<open>auto simp: u_def\<close>)
    moreover have ql: "queue_list s' = ?q" by (simp add: e(5) u_def)
    moreover have "queued (h' (hd ?q))" if ne: "?q \<noteq> []"
    proof -
      obtain x xs where x: "?q = x # xs" using ne by (cases ?q) auto
      from release_loop_first [OF r [unfolded x]] inv(3,4) have "queued (h x) \<or> x \<in> set rel" by (auto simp: x)
      then show ?thesis unfolding e(4) by (auto simp: x)
    qed
    ultimately show ?thesis
      using inv e(2-4) unfolding ts_inv_def by (auto simp: list_all_iff attr_ok_def)
  qed
qed

section \<open>Sequences of arrivals and completions\<close>

text \<open>
  A run of the task set: fresh commands arrive while it is not blocked, and started commands
  complete.
\<close>

inductive ts_step :: "ccbs \<times> initiator_state \<Rightarrow> ccbs \<times> initiator_state \<Rightarrow> bool" where
  arrive: "c \<notin> set (queue_list s) \<Longrightarrow> \<not> queued (h c) \<Longrightarrow> attr_ok (h c) \<Longrightarrow> length (queue_list s) < 2 ^ 32 - 1 \<Longrightarrow>
    istate_queue_cmd h s c = (exec, h', s') \<Longrightarrow> ts_step (h, s) (h', s')"
| complete: "c \<in> set (queue_list s) \<Longrightarrow> queued (h c) \<Longrightarrow> istate_remove_cmd h s c = (rel, h', s') \<Longrightarrow>
    ts_step (h, s) (h', s')"

lemma ts_step_inv: "ts_step x y \<Longrightarrow> ts_inv (fst x) (snd x) \<Longrightarrow> ts_inv (fst y) (snd y)"
  by (induction rule: ts_step.induct) (auto dest: queue_cmd_inv remove_cmd_inv)

lemma ts_steps_inv: "ts_step\<^sup>*\<^sup>* x y \<Longrightarrow> ts_inv (fst x) (snd x) \<Longrightarrow> ts_inv (fst y) (snd y)"
  by (induction rule: rtranclp_induct) (auto dest: ts_step_inv)

lemma init_istate_inv: "ts_inv h (init_istate who rp)"
  by (simp add: ts_inv_def ts_counts_def init_istate_def)


section \<open>The order of starting\<close>

lemma release_loop_order:
  assumes "release_loop h s (ys @ x # zs) no nq = (rel, h', s')" "x \<in> set rel" "distinct (ys @ x # zs)"
    "\<forall>c\<in>set (ys @ x # zs). attr_ok (h c)"
    "\<forall>c\<in>set (ys @ x # zs). task_attr (h c) = MSG_HEAD_OF_QUEUE_TASK \<longrightarrow> queued (h c)"
  shows "if task_attr (h x) = MSG_SIMPLE_TASK then no = 0 \<and> (\<forall>y\<in>set ys. task_attr (h y) = MSG_SIMPLE_TASK)
     else nq = 0 \<and> ys = []"
  using assms
proof (induction ys arbitrary: h s no nq rel)
  case Nil
  from release_loop_effect [OF Nil.prems(1)] Nil.prems have "\<not> queued (h x)" by simp
  with Nil.prems(1,2) show ?case by (auto split: if_splits)
next
  case (Cons c ys)
  have xc: "x \<noteq> c" using Cons.prems(3) by auto
  have dist: "distinct (ys @ x # zs)" using Cons.prems(3) by auto
  have pre: "\<forall>y\<in>set (ys @ x # zs). attr_ok (ctio_start c h y)"
    "\<forall>y\<in>set (ys @ x # zs). task_attr (ctio_start c h y) = MSG_HEAD_OF_QUEUE_TASK \<longrightarrow> queued (ctio_start c h y)"
    using Cons.prems(4,5) by (auto simp: attr_ok_def)
  consider (run) no' where "release_loop h s (ys @ x # zs) no' (Suc nq) = (rel, h', s')"
      "no' = (if task_attr (h c) \<noteq> MSG_SIMPLE_TASK then no + 1 else no)"
    | (go) t no' rel' where "rel = c # rel'" "release_loop (ctio_start c h) t (ys @ x # zs) no' (Suc nq) = (rel', h', s')"
      "no' = (if task_attr (h c) \<noteq> MSG_SIMPLE_TASK then no + 1 else no)"
    using Cons.prems(1,2) by (fastforce split: if_splits prod.splits)
  then show ?case
  proof cases
    case run
    from Cons.IH [OF run(1) Cons.prems(2) dist] Cons.prems(4,5) run(2) show ?thesis by (auto split: if_splits)
  next
    case go
    with Cons.prems(2) xc have "x \<in> set rel'" by simp
    from Cons.IH [OF go(2) this dist pre] go(3) show ?thesis by (auto split: if_splits)
  qed
qed

lemma remove_cmd_order:
  assumes "ts_inv h s" "c \<in> set (queue_list s)" "queued (h c)" "istate_remove_cmd h s c = (rel, h', s')"
    "queue_list s' = ys @ x # zs" "x \<in> set rel"
  shows "if task_attr (h x) = MSG_SIMPLE_TASK then \<forall>y\<in>set ys. task_attr (h y) = MSG_SIMPLE_TASK else ys = []"
proof -
  let ?q = "remove1 c (queue_list s)"
  have q: "?q = ys @ x # zs" using remove_cmd_inv [OF assms(1-4)] assms(5) by simp
  have inv: "distinct ?q" "\<forall>x\<in>set ?q. attr_ok (h x)"
    "\<forall>x\<in>set ?q. task_attr (h x) = MSG_HEAD_OF_QUEUE_TASK \<longrightarrow> queued (h x)"
    using assms(1) by (auto simp: ts_inv_def list_all_iff dest: notin_set_remove1)
  obtain u where "release_loop h u ?q 0 0 = (rel, h', s')"
    using assms(4,6) by (auto simp: istate_remove_cmd_def Let_def split: if_splits)
  from release_loop_order [OF this [unfolded q] assms(6)] inv show ?thesis unfolding q by (auto split: if_splits)
qed

section \<open>Draining\<close>

text \<open>The oldest command completes, \<open>n\<close> times over.\<close>

primrec drain :: "nat \<Rightarrow> ccbs \<times> initiator_state \<Rightarrow> ccbs \<times> initiator_state" where
  "drain 0 x = x"
| "drain (Suc n) x =
     (let (h, s) = drain n x
      in case queue_list s of [] \<Rightarrow> (h, s) | c # cs \<Rightarrow> snd (istate_remove_cmd h s c))"

lemma drain_inv:
  "ts_inv (fst x) (snd x) \<Longrightarrow>
   ts_inv (fst (drain n x)) (snd (drain n x)) \<and> queue_list (snd (drain n x)) = drop n (queue_list (snd x))"
proof (induction n)
  case 0
  then show ?case by simp
next
  case (Suc n)
  obtain h s where d: "drain n x = (h, s)" by (cases "drain n x")
  from Suc d have inv: "ts_inv h s" and q: "queue_list s = drop n (queue_list (snd x))" by auto
  show ?case
  proof (cases "queue_list s")
    case Nil
    with inv q d show ?thesis by (simp add: drop_eq_Nil)
  next
    case (Cons c cs)
    obtain rel h' s' where r: "istate_remove_cmd h s c = (rel, h', s')" by (cases "istate_remove_cmd h s c")
    have "queued (h c)" "c \<in> set (queue_list s)" using inv Cons by (auto simp: ts_inv_def)
    from remove_cmd_inv [OF inv this(2,1) r] Cons d r q show ?thesis
      by (auto simp: drop_Suc tl_drop [symmetric])
  qed
qed


lemma subseq_distinct: "subseq xs ys \<Longrightarrow> distinct ys \<Longrightarrow> distinct xs"
  by (induction rule: list_emb.induct) (auto dest: subseq_set)

section \<open>Properties\<close>

abbreviation (input) ts_empty :: "initiator_state \<Rightarrow> bool" where
  "ts_empty s \<equiv> queue_list s = [] \<and> ts_queued s = 0 \<and> ts_pending s = 0 \<and> ts_head s = 0 \<and> ts_ordered s = 0"

text \<open>Concrete commands for the examples: SIMPLE ones, with command 1 ORDERED.\<close>

definition sample_ctio :: "u8 \<Rightarrow> qsio_scsiio" where
  "sample_ctio attr = \<lparr>cdb = replicate 16 0, scsi_status = 0, task_attr = attr, queued = False, init_int = 0,
     r_prt = 0, pglist_cnt = 0, data_ptr = None, dxfer_len = 0, task_tag = 0, i_prt = (1, 0), t_prt = (0, 0),
     ccb_flags = 0, ccb_tdisk = 0, sense_data = None, sense_len = 0, init_name = []\<rparr>"

definition sample_ccbs :: ccbs where
  "sample_ccbs = (\<lambda>c. sample_ctio (if c = 1 then MSG_ORDERED_TASK else MSG_SIMPLE_TASK))"

definition sample_set :: initiator_state where
  "sample_set = init_istate ((1, 0), (0, 0), 0) 0"

definition sample_two :: "ccbs \<times> initiator_state" where
  "sample_two = (ctio_start 0 sample_ccbs, sample_set\<lparr>queue_list := [0, 1], ts_queued := 1, ts_pending := 1\<rparr>)"

lemma sample_two_reached: "ts_step\<^sup>*\<^sup>* (sample_ccbs, init_istate ((1, 0), (0, 0), 0) 0) sample_two"
proof -
  let ?m = "(ctio_start 0 sample_ccbs, sample_set\<lparr>queue_list := [0], ts_queued := 1\<rparr>)"
  have "ts_step (sample_ccbs, sample_set) ?m"
    by (rule ts_step.arrive [where c = 0 and exec = True])
      (simp_all add: sample_set_def init_istate_def sample_ccbs_def sample_ctio_def attr_ok_def istate_queue_cmd_def)
  moreover have "ts_step ?m sample_two"
    unfolding sample_two_def by (rule ts_step.arrive [where c = 1 and exec = False])
      (simp_all add: sample_set_def init_istate_def sample_ccbs_def sample_ctio_def attr_ok_def istate_queue_cmd_def)
  ultimately show ?thesis unfolding sample_set_def by simp
qed

text \<open>
  C5. However commands of the four task attributes arrive at and complete in a new task set,
  its counters are exact, head-of-queue commands never wait, and no wakeup is lost: as
  long as commands are left the oldest has been started, and completing the oldest ones
  in turn starts and drains every command and leaves all counters zero.
\<close>

theorem task_set_never_stuck:
  assumes "ts_step\<^sup>*\<^sup>* (h0, init_istate who rp) (h, s)"
  shows "ts_counts h s \<and>
    (\<forall>c\<in>set (queue_list s). task_attr (h c) = MSG_HEAD_OF_QUEUE_TASK \<longrightarrow> queued (h c)) \<and>
    (\<forall>n < length (queue_list s). queued (fst (drain n (h, s)) (queue_list s ! n))) \<and>
    ts_empty (snd (drain (length (queue_list s)) (h, s)))"
proof -
  have inv: "ts_inv h s" using ts_steps_inv [OF assms] init_istate_inv by simp
  then have "ts_counts h s" "\<forall>c\<in>set (queue_list s). task_attr (h c) = MSG_HEAD_OF_QUEUE_TASK \<longrightarrow> queued (h c)"
    by (auto simp: ts_inv_def list_all_iff)
  moreover have "queued (fst (drain n (h, s)) (queue_list s ! n))" if "n < length (queue_list s)" for n
    using drain_inv [of "(h, s)" n] inv that by (auto simp: ts_inv_def hd_drop_conv_nth)
  moreover have "ts_empty (snd (drain (length (queue_list s)) (h, s)))"
    using drain_inv [of "(h, s)" "length (queue_list s)"] inv by (auto simp: ts_inv_def ts_counts_def)
  ultimately show ?thesis by blast
qed

theorem task_set_never_stuck_witness:
  "queued (fst (drain 1 sample_two) 1) \<and> \<not> queued (fst sample_two 1) \<and> ts_empty (snd (drain 2 sample_two))"
  using task_set_never_stuck [OF sample_two_reached [unfolded sample_two_def]]
  by (auto simp: sample_two_def numeral_2_eq_2 All_less_Suc sample_ccbs_def sample_ctio_def simp del: drain.simps)

text \<open>
  C23. When a command completes, the waiting commands it releases are started in arrival
  order, each exactly once; an ORDERED or ACA command starts only as the oldest command left,
  and a SIMPLE one only when every older command left is SIMPLE.
\<close>

theorem istate_remove_cmd_releases_in_order:
  assumes "ts_step\<^sup>*\<^sup>* (h0, init_istate who rp) (h, s)" "c \<in> set (queue_list s)" "queued (h c)"
    "istate_remove_cmd h s c = (rel, h', s')"
  shows "queue_list s' = remove1 c (queue_list s) \<and> subseq rel (queue_list s') \<and> distinct rel \<and>
    (\<forall>x\<in>set rel. \<not> queued (h x) \<and> queued (h' x)) \<and>
    (\<forall>ys x zs. queue_list s' = ys @ x # zs \<longrightarrow> x \<in> set rel \<longrightarrow>
      (if task_attr (h x) = MSG_SIMPLE_TASK then \<forall>y\<in>set ys. task_attr (h y) = MSG_SIMPLE_TASK else ys = []))"
proof -
  have inv: "ts_inv h s" using ts_steps_inv [OF assms(1)] init_istate_inv by simp
  note r = remove_cmd_inv [OF inv assms(2-4)]
  then have "distinct rel" by (auto simp: ts_inv_def intro: subseq_distinct)
  moreover note remove_cmd_order [OF inv assms(2-4)]
  ultimately show ?thesis using r by auto
qed

theorem istate_remove_cmd_releases_in_order_witness:
  "fst (istate_remove_cmd (fst sample_two) (snd sample_two) 0) = [1] \<and>
   queued (fst (snd (istate_remove_cmd (fst sample_two) (snd sample_two) 0)) 1)"
proof -
  obtain rel h' s' where r: "istate_remove_cmd (fst sample_two) (snd sample_two) 0 = (rel, h', s')"
    by (cases "istate_remove_cmd (fst sample_two) (snd sample_two) 0")
  then have "rel = [1]"
    by (simp add: sample_two_def istate_remove_cmd_def sample_ccbs_def sample_ctio_def ctio_start_def split: prod.splits if_splits)
  moreover from istate_remove_cmd_releases_in_order [of sample_ccbs _ _ "fst sample_two" "snd sample_two" 0 rel h' s']
    sample_two_reached r have "\<forall>x\<in>set rel. queued (h' x)" by (simp add: sample_two_def)
  ultimately show ?thesis using r by simp
qed

text \<open>
  A waiting ORDERED command does not hold back later arrivals: in an empty task set, a
  SIMPLE command arriving after an ORDERED one that waits for an older SIMPLE one is
  started at once, and when the oldest completes the ORDERED command runs together
  with the younger SIMPLE one.
\<close>

lemma ordered_command_overtaken:
  assumes "distinct [a, b, c]" "task_attr (h a) = MSG_SIMPLE_TASK" "task_attr (h b) = MSG_ORDERED_TASK"
    "task_attr (h c) = MSG_SIMPLE_TASK" "\<not> queued (h a)" "\<not> queued (h b)" "\<not> queued (h c)"
    "istate_queue_cmd h (init_istate who rp) a = (ea, h1, s1)" "istate_queue_cmd h1 s1 b = (eb, h2, s2)"
    "istate_queue_cmd h2 s2 c = (ec, h3, s3)" "istate_remove_cmd h3 s3 a = (rel, h4, s4)"
  shows "ea \<and> \<not> eb \<and> ec \<and> rel = [b] \<and> queue_list s4 = [b, c] \<and> queued (h4 b) \<and> queued (h4 c)"
proof -
  have 1: "ea" "h1 = ctio_start a h" "s1 = init_istate who rp\<lparr>queue_list := [a], ts_queued := 1\<rparr>"
    using assms(2,8) by (auto simp: istate_queue_cmd_def init_istate_def)
  have 2: "\<not> eb" "h2 = h1" "s2 = s1\<lparr>queue_list := [a, b], ts_pending := 1\<rparr>"
    using assms(3,9) by (auto simp: istate_queue_cmd_def init_istate_def 1)
  have 3: "ec" "h3 = ctio_start c h1" "s3 = s2\<lparr>queue_list := [a, b, c], ts_queued := 2\<rparr>"
    using assms(4,10) by (auto simp: istate_queue_cmd_def init_istate_def 1 2)
  show ?thesis
    using assms(1-7,11) by (auto simp: istate_remove_cmd_def init_istate_def 1 2 3)
qed

lemma ordered_command_overtaken_witness:
  "\<exists>h3 s3 rel h4 s4. istate_queue_cmd (fst sample_two) (snd sample_two) 2 = (True, h3, s3) \<and>
     istate_remove_cmd h3 s3 0 = (rel, h4, s4) \<and> queued (h4 1) \<and> queued (h4 2)"
proof -
  obtain e h3 s3 where q: "istate_queue_cmd (fst sample_two) (snd sample_two) 2 = (e, h3, s3)"
    by (cases "istate_queue_cmd (fst sample_two) (snd sample_two) 2")
  obtain rel h4 s4 where r: "istate_remove_cmd h3 s3 0 = (rel, h4, s4)" by (cases "istate_remove_cmd h3 s3 0")
  have a: "istate_queue_cmd sample_ccbs (init_istate ((1, 0), (0, 0), 0) 0) 0 =
      (True, ctio_start 0 sample_ccbs, sample_set\<lparr>queue_list := [0], ts_queued := 1\<rparr>)"
    by (simp add: istate_queue_cmd_def sample_set_def init_istate_def sample_ccbs_def sample_ctio_def)
  have b: "istate_queue_cmd (ctio_start 0 sample_ccbs) (sample_set\<lparr>queue_list := [0], ts_queued := 1\<rparr>) 1 =
      (False, fst sample_two, snd sample_two)"
    by (simp add: istate_queue_cmd_def sample_two_def sample_set_def init_istate_def sample_ccbs_def sample_ctio_def)
  have "e \<and> queued (h4 1) \<and> queued (h4 2)"
    using ordered_command_overtaken [OF _ _ _ _ _ _ _ a b q r] by (simp add: sample_ccbs_def sample_ctio_def)
  with q r show ?thesis by auto
qed

end
