(* ===== verification/DeviceQueueProps.thy ===== *)
theory DeviceQueueProps
  imports TaskSet
begin

text \<open>
  What the device queues and the task management functions guarantee: commands leave in the
  order they entered, and an abort marks the commands it names and no others.
\<close>

unbundle bit_operations_syntax

section \<open>First in, first out\<close>

text \<open>Taking from a queue \<open>n\<close> times.\<close>

primrec take_queue :: "('q \<Rightarrow> 'a option \<times> 'q) \<Rightarrow> nat \<Rightarrow> 'q \<Rightarrow> 'a option list" where
  "take_queue deq 0 q = []"
| "take_queue deq (Suc n) q = (let (x, q') = deq q in x # take_queue deq n q')"

text \<open>
  The contract of a queue: what inserting an item it accepts and taking one do to its contents.
\<close>

locale fifo =
  fixes contents :: "'q \<Rightarrow> 'a list"
    and accepts :: "'q \<Rightarrow> 'a \<Rightarrow> bool"
    and enq :: "'a \<Rightarrow> 'q \<Rightarrow> 'q"
    and deq :: "'q \<Rightarrow> 'a option \<times> 'q"
  assumes enq_contents: "accepts q x \<Longrightarrow> contents (enq x q) = contents q @ [x]"
    and enq_accepts: "accepts (enq x q) y \<longleftrightarrow> accepts q y"
    and deq_empty: "contents q = [] \<Longrightarrow> deq q = (None, q)"
    and deq_contents: "contents q = x # xs \<Longrightarrow> \<exists>q'. deq q = (Some x, q') \<and> contents q' = xs"
begin

lemma enq_all:
  "\<forall>x\<in>set xs. accepts q x \<Longrightarrow> contents (fold enq xs q) = contents q @ xs"
  by (induction xs arbitrary: q) (auto simp: enq_contents enq_accepts)

lemma take_all_contents: "take_queue deq (length (contents q) + 1) q = map Some (contents q) @ [None]"
proof (induction "contents q" arbitrary: q)
  case Nil
  then show ?case using deq_empty [of q] by simp
next
  case (Cons x xs)
  obtain q' where q': "deq q = (Some x, q')" "contents q' = xs" using deq_contents [OF Cons(2) [symmetric]] by blast
  with Cons(1) [of q'] Cons(2) [symmetric] show ?case by simp
qed

lemma in_order:
  assumes "contents q = []" "\<forall>x\<in>set xs. accepts q x"
  shows "take_queue deq (length xs + 1) (fold enq xs q) = map Some xs @ [None]"
  using take_all_contents [of "fold enq xs q"] enq_all [OF assms(2)] assms(1) by simp

end

section \<open>The queues\<close>

abbreviation (input) clustered :: "devq \<Rightarrow> nat \<Rightarrow> bool" where
  "clustered q c \<equiv> ccb_flags (dq_ccbs q c) AND QSIO_CLUSTERED \<noteq> 0"

lemma write_insert_frame [simp]:
  "dq_ccbs (gdevq_write_insert e c q) = dq_ccbs q"
  "pending_queue (gdevq_write_insert e c q) = pending_queue q"
  "master_pending_queue (gdevq_write_insert e c q) = master_pending_queue q"
proof -
  have "dq_ccbs (fold (\<lambda>pg q. mark_complete pg (q\<lparr>pg_flags := g pg q\<rparr>)) ps q) = dq_ccbs q \<and>
    pending_queue (fold (\<lambda>pg q. mark_complete pg (q\<lparr>pg_flags := g pg q\<rparr>)) ps q) = pending_queue q \<and>
    master_pending_queue (fold (\<lambda>pg q. mark_complete pg (q\<lparr>pg_flags := g pg q\<rparr>)) ps q) = master_pending_queue q"
    for ps g by (induction ps arbitrary: q) (auto simp: mark_complete_def)
  then show "dq_ccbs (gdevq_write_insert e c q) = dq_ccbs q"
    "pending_queue (gdevq_write_insert e c q) = pending_queue q"
    "master_pending_queue (gdevq_write_insert e c q) = master_pending_queue q"
    by (simp_all add: gdevq_write_insert_def Let_def)
qed

lemma in_devq_not_clustered: "(f OR QSIO_IN_DEVQ) AND QSIO_CLUSTERED = f AND QSIO_CLUSTERED" for f :: u32
  by (simp add: bit.conj_disj_distrib2)

lemma insert_clustered: "clustered (gdevq_insert_ccb dedup c q) x \<longleftrightarrow> clustered q x"
  by (simp add: gdevq_insert_ccb_def mdevq_insert_ccb_def Let_def in_devq_not_clustered)

interpretation local_q: fifo pending_queue "\<lambda>q c. \<not> clustered q c" "gdevq_insert_ccb dedup" get_next_ccb for dedup
  by unfold_locales (auto simp: insert_clustered, auto simp: gdevq_insert_ccb_def Let_def get_next_ccb_def)

interpretation master_q: fifo master_pending_queue clustered "gdevq_insert_ccb dedup" get_next_master_ccb for dedup
  by unfold_locales
    (auto simp: insert_clustered, auto simp: gdevq_insert_ccb_def mdevq_insert_ccb_def Let_def get_next_master_ccb_def)


section \<open>Marking\<close>

text \<open>A loop over a list of commands that rewrites those satisfying a test the rewriting keeps.\<close>

lemma fold_mark:
  assumes "\<And>x. P (f x) = P x" "\<And>x. f (f x) = f x"
  shows "fold (\<lambda>c h. if P (h c) then h(c := f (h c)) else h) cs h =
     (\<lambda>c. if c \<in> set cs \<and> P (h c) then f (h c) else h c)"
  by (induction cs arbitrary: h) (auto simp: fun_eq_iff assms)

lemma or_and_absorb: "(f OR a OR b) AND a = a" for f :: u32
  by (rule bit_word_eqI) (auto simp: bit_simps)

lemma abort_ctio_aborted [simp]: "ccb_flags (abort_ctio b x) AND QSIO_CTIO_ABORTED \<noteq> 0"
proof -
  have "ccb_flags (abort_ctio b x) AND QSIO_CTIO_ABORTED = QSIO_CTIO_ABORTED"
    unfolding abort_ctio_def qsio_scsiio.select_convs qsio_scsiio.update_convs or.assoc [symmetric]
    by (cases x) (simp only: qsio_scsiio.select_convs qsio_scsiio.update_convs or_and_absorb or.assoc)
  then show ?thesis by simp
qed

lemma abort_ctio_simps [simp]:
  "i_prt (abort_ctio b x) = i_prt x" "t_prt (abort_ctio b x) = t_prt x" "init_int (abort_ctio b x) = init_int x" "task_tag (abort_ctio b x) = task_tag x"
  "abort_ctio b (abort_ctio b x) = abort_ctio b x" "in_devq (abort_ctio b x) = in_devq x"
  "ccb_tdisk (abort_ctio b x) = ccb_tdisk x"
  "queued (abort_ctio b x) = queued x"
  by (simp_all add: abort_ctio_def ac_simps bit.conj_disj_distrib2)


lemma queue_mark:
  assumes "\<And>x. P (f x) = P x" "\<And>x. f (f x) = f x"
  shows "fold (\<lambda>c q. if P (dq_ccbs q c) then set_ccb c (f (dq_ccbs q c)) q else q) cs q =
     q\<lparr>dq_ccbs := \<lambda>c. if c \<in> set cs \<and> P (dq_ccbs q c) then f (dq_ccbs q c) else dq_ccbs q c\<rparr>"
proof -
  have "fold (\<lambda>c q. if P (dq_ccbs q c) then set_ccb c (f (dq_ccbs q c)) q else q) cs q =
      q\<lparr>dq_ccbs := fold (\<lambda>c h. if P (h c) then h(c := f (h c)) else h) cs (dq_ccbs q)\<rparr>"
    by (induction cs arbitrary: q) auto
  then show ?thesis by (simp only: fold_mark [where P = P and f = f, OF assms])
qed

lemma abort_task_set_marks:
  "fst (istate_abort_task_set h s) = (\<lambda>c. if c \<in> set (queue_list s) \<and> \<not> in_devq (h c) then abort_ctio False (h c) else h c)"
proof -
  have eq: "(\<lambda>c h. if in_devq (h c) then h else h(c := abort_ctio False (h c))) =
      (\<lambda>c h. if \<not> in_devq (h c) then h(c := abort_ctio False (h c)) else h)" by (auto simp: fun_eq_iff)
  have "fst (istate_abort_task_set h s) =
      fold (\<lambda>c h. if in_devq (h c) then h else h(c := abort_ctio False (h c))) (queue_list s) h"
    by (simp add: istate_abort_task_set_def)
  then show ?thesis unfolding eq by (simp only:) (rule fold_mark, auto)
qed

lemma abort_for_initiator_marks:
  "gdevq_abort_tasks_for_initiator who q =
     q\<lparr>dq_ccbs := \<lambda>c. if c \<in> set (pending_queue q) \<and> ctio_iid (dq_ccbs q c) = who
                      then abort_ctio False (dq_ccbs q c) else dq_ccbs q c\<rparr>"
  unfolding gdevq_abort_tasks_for_initiator_def by (rule queue_mark) auto

section \<open>Properties\<close>

text \<open>
  The device queues are first in, first out: commands inserted into an empty queue are
  taken in the order of insertion, each once, whether they wait for this node or for the
  cluster master.
\<close>

lemma device_queues_in_order:
  assumes "pending_queue q = []" "master_pending_queue q = []"
    "\<forall>c\<in>set cs. \<not> clustered q c" "\<forall>c\<in>set ds. clustered q c"
  shows "take_queue get_next_ccb (length cs + 1) (fold (gdevq_insert_ccb dedup) cs q) = map Some cs @ [None] \<and>
    take_queue get_next_master_ccb (length ds + 1) (fold (gdevq_insert_ccb dedup) ds q) = map Some ds @ [None]"
  using local_q.in_order [OF assms(1,3)] master_q.in_order [OF assms(2,4)] by blast

definition sample_devq :: "u32 \<Rightarrow> devq" where
  "sample_devq flags = \<lparr>dq_ccbs = (\<lambda>c. (sample_ctio MSG_SIMPLE_TASK)\<lparr>task_tag := of_nat c, ccb_flags := flags\<rparr>), pending_queue = [],
     master_pending_queue = [], mdevq_pending = 0, pending_write_queue = [], pg_flags = (\<lambda>_. 0), pg_done = (\<lambda>_. False),
     fc_started = []\<rparr>"

lemma device_queues_in_order_witness:
  "take_queue get_next_ccb 4 (fold (gdevq_insert_ccb (\<lambda>_. True)) [5, 3, 9] (sample_devq 0)) = [Some 5, Some 3, Some 9, None]"
  using device_queues_in_order [of "sample_devq 0" "[5, 3, 9]" "[]" "\<lambda>_. True"]
  by (simp add: sample_devq_def sample_ctio_def numeral_eq_Suc del: take_queue.simps)

text \<open>
  C27. Aborting the task set of an initiator aborts every one of its commands that is not in the
  device queue and every one waiting in the device queue, changes no other command, and
  blocks the task set against new commands while any are left.
\<close>

theorem abort_task_set_marks_exactly:
  assumes "find (\<lambda>s. istate_iid s = who) (tm_istates m) = Some s" "disallowed s = 0"
    "device_istate_abort_task_set who m = (found, m')"
    "h = dq_ccbs (tm_devq m)" "h' = dq_ccbs (tm_devq m')"
  shows "found \<and>
    (\<forall>c. if (c \<in> set (queue_list s) \<and> \<not> in_devq (h c)) \<or> (c \<in> set (pending_queue (tm_devq m)) \<and> ctio_iid (h c) = who)
         then ccb_flags (h' c) AND QSIO_CTIO_ABORTED \<noteq> 0 else h' c = h c) \<and>
    queue_list (hd (tm_istates m')) = queue_list s \<and> istate_iid (hd (tm_istates m')) = who \<and>
    (queue_list s \<noteq> [] \<longrightarrow> blocked (hd (tm_istates m')))"
proof -
  have who: "istate_iid s = who" using assms(1) by (auto simp: find_Some_iff)
  obtain l where g: "tmf_get_istate who m = (True, m\<lparr>tm_istates := s\<lparr>timestamp := tm_ticks m, is_refs := is_refs s + 1\<rparr> # l\<rparr>)"
    using assms(1,2) by (simp add: tmf_get_istate_def device_get_initiator_state_def)
  let ?t = "s\<lparr>timestamp := tm_ticks m, is_refs := is_refs s + 1\<rparr>"
  obtain k u where a: "istate_abort_task_set h ?t = (k, u)" by (cases "istate_abort_task_set h ?t")
  have k: "k = (\<lambda>c. if c \<in> set (queue_list s) \<and> \<not> in_devq (h c) then abort_ctio False (h c) else h c)"
    using abort_task_set_marks [of h ?t] a by simp
  have u: "queue_list u = queue_list s" "istate_iid u = who" "queue_list s \<noteq> [] \<Longrightarrow> blocked u"
    using a who by (auto simp: istate_abort_task_set_def split: if_splits)
  have m': "found" "tm_istates m' = u # l"
    "tm_devq m' = gdevq_abort_tasks_for_initiator who ((tm_devq m)\<lparr>dq_ccbs := k\<rparr>)"
    using assms(3) a by (auto simp: device_istate_abort_task_set_def g assms(4))
  have "h' c = (if c \<in> set (pending_queue (tm_devq m)) \<and> ctio_iid (k c) = who then abort_ctio False (k c) else k c)" for c
    using assms(5) m'(3) by (simp add: abort_for_initiator_marks)
  then show ?thesis using m' u k by auto
qed


definition sample_tmf :: tmf where
  "sample_tmf = \<lparr>tm_rules = [], tm_target = 0, tm_ticks = 0,
     tm_istates = [sample_set\<lparr>queue_list := [0, 1], ts_queued := 2\<rparr>],
     tm_devq = (sample_devq 0)\<lparr>pending_queue := [1, 2]\<rparr>\<rparr>"

abbreviation (input) sample_who :: iid where "sample_who \<equiv> ((1, 0), (0, 0), 0)"

theorem abort_task_set_marks_exactly_witness:
  "blocked (hd (tm_istates (snd (device_istate_abort_task_set sample_who sample_tmf))))"
proof -
  let ?s = "sample_set\<lparr>queue_list := [0, 1], ts_queued := 2\<rparr>"
  have f: "find (\<lambda>s. istate_iid s = sample_who) (tm_istates sample_tmf) = Some ?s" "disallowed ?s = 0"
    by (simp_all add: sample_tmf_def sample_set_def init_istate_def)
  obtain e m' where "device_istate_abort_task_set sample_who sample_tmf = (e, m')"
    by (cases "device_istate_abort_task_set sample_who sample_tmf")
  with abort_task_set_marks_exactly [OF f this refl refl] show ?thesis by simp
qed

text \<open>
  Aborting one task marks at most one command: when it reports success, exactly one command
  with the given tag, from the initiator's task set or from the device queue, is
  aborted and nothing else changes; otherwise no command changes. It reports
  success whenever the first command of the task set with that tag is not in the device queue.
\<close>

lemma abort_task_marks_one:
  assumes "find (\<lambda>s. istate_iid s = who) (tm_istates m) = Some s" "disallowed s = 0"
    "h = dq_ccbs (tm_devq m)"
  shows "case device_istate_abort_task who tag m of
       Abort_done True m' \<Rightarrow> (\<exists>c b. task_tag (h c) = tag \<and> c \<in> set (queue_list s) \<union> set (pending_queue (tm_devq m)) \<and>
          dq_ccbs (tm_devq m') = h(c := abort_ctio b (h c)))
     | Abort_done False m' \<Rightarrow> dq_ccbs (tm_devq m') = h \<and>
          (\<forall>c\<in>set (queue_list s). task_tag (h c) \<noteq> tag)
     | Abort_wait m' \<Rightarrow> dq_ccbs (tm_devq m') = h \<and> (\<exists>c\<in>set (queue_list s). task_tag (h c) = tag \<and> in_devq (h c))"
proof -
  let ?t = "s\<lparr>timestamp := tm_ticks m, is_refs := is_refs s + 1\<rparr>"
  obtain l where g: "tmf_get_istate who m = (True, m\<lparr>tm_istates := ?t # l\<rparr>)"
    using assms(1,2) by (simp add: tmf_get_istate_def device_get_initiator_state_def)
  let ?ts = "find (\<lambda>c. task_tag (h c) = tag) (queue_list s)"
  let ?dq = "find (\<lambda>c. task_tag (h c) = tag \<and> ctio_iid (h c) = who) (pending_queue (tm_devq m))"
  have ts: "task_tag (h c) = tag \<and> c \<in> set (queue_list s)" if "?ts = Some c" for c
    using that by (auto simp: find_Some_iff)
  have dq: "task_tag (h c) = tag \<and> c \<in> set (pending_queue (tm_devq m))" if "?dq = Some c" for c
    using that by (auto simp: find_Some_iff)
  note defs = device_istate_abort_task_def g istate_abort_task_def gdevq_abort_task_def tmf_unblock_def
  show ?thesis
  proof (cases "?ts")
    case None
    then have no: "\<forall>c\<in>set (queue_list s). task_tag (h c) \<noteq> tag" by (simp add: find_None_iff)
    show ?thesis
    proof (cases "?dq")
      case None
      with \<open>?ts = None\<close> no show ?thesis by (simp add: defs assms(3) Let_def)
    next
      case (Some c)
      with \<open>?ts = None\<close> dq [OF Some] show ?thesis by (auto simp: defs assms(3) Let_def)
    qed
  next
    case (Some c)
    note c = ts [OF Some]
    show ?thesis
    proof (cases "in_devq (h c)")
      case False
      have "queue_list s \<noteq> []" using c by auto
      with Some False c show ?thesis by (auto simp: defs assms(3) Let_def)
    next
      case True
      have "queue_list s \<noteq> []" using c by auto
      with Some True c dq show ?thesis by (cases "?dq") (auto simp: defs assms(3) Let_def)
    qed
  qed
qed

lemma abort_task_marks_one_witness:
  "case device_istate_abort_task sample_who 1 sample_tmf of Abort_done ok m' \<Rightarrow> ok | Abort_wait m' \<Rightarrow> False"
proof -
  let ?s = "sample_set\<lparr>queue_list := [0, 1], ts_queued := 2\<rparr>"
  have f: "find (\<lambda>s. istate_iid s = sample_who) (tm_istates sample_tmf) = Some ?s" "disallowed ?s = 0"
    by (simp_all add: sample_tmf_def sample_set_def init_istate_def)
  from abort_task_marks_one [OF f refl, of 1] show ?thesis
    by (auto simp: sample_tmf_def sample_devq_def sample_ctio_def split: abort_result.splits bool.splits)
qed

end
