(* ===== verification/ReservationProps.thy ===== *)
theory ReservationProps
  imports TdiskCmd DeviceQueueProps
begin

text \<open>
  What the reservation code guarantees: the registrations stay unique and every valid
  persistent reservation has a registered holder, the other node's copy follows, and the
  conflict check is that of the reservation types.
\<close>

unbundle bit_operations_syntax

named_theorems resv_frame \<open>what an operation leaves of the reservation\<close>

section \<open>Frames\<close>

lemma send_msg_frame [resv_frame]:
  "reservation (send_msg m td) = reservation td" "sync_enabled (send_msg m td) = sync_enabled td"
  "outbox (send_msg m td) = (if sync_enabled td then outbox td @ [m] else outbox td)"
  by (simp_all add: send_msg_def)

lemma registrant_unit_attention_frame [resv_frame]:
  "reservation (registrant_unit_attention r a td) = reservation td"
  "sync_enabled (registrant_unit_attention r a td) = sync_enabled td"
  "outbox (registrant_unit_attention r a td) = outbox td"
  by (simp_all add: registrant_unit_attention_def split: prod.splits)

lemma sense_state_send_frame [resv_frame]:
  "reservation (node_istate_sense_state_send td) = reservation td"
  "sync_enabled (node_istate_sense_state_send td) = sync_enabled td"
  by (simp_all add: node_istate_sense_state_send_def Let_def resv_frame)

lemma fold_attention_frame [resv_frame]:
  "reservation (fold (\<lambda>r. registrant_unit_attention r a) rs td) = reservation td"
  "sync_enabled (fold (\<lambda>r. registrant_unit_attention r a) rs td) = sync_enabled td"
  "outbox (fold (\<lambda>r. registrant_unit_attention r a) rs td) = outbox td"
  by (induction rs arbitrary: td) (simp_all add: resv_frame)

lemma registrants_unit_attention_frame [resv_frame]:
  "reservation (registrants_unit_attention a who td) = reservation td"
  "sync_enabled (registrants_unit_attention a who td) = sync_enabled td"
  by (simp_all add: registrants_unit_attention_def Let_def resv_frame)

lemma abort_tasks_frame [resv_frame]:
  "reservation (persistent_reservation_abort_tasks r td) = reservation td"
  "sync_enabled (persistent_reservation_abort_tasks r td) = sync_enabled td"
  "outbox (persistent_reservation_abort_tasks r td) = outbox td"
  by (simp_all add: persistent_reservation_abort_tasks_def Let_def split: prod.splits)

lemma preempt_one_frame [resv_frame]:
  "reservation (preempt_one abort r td) = reservation td"
  "sync_enabled (preempt_one abort r td) = sync_enabled td"
  by (simp_all add: preempt_one_def Let_def node_registration_sync_send_def resv_frame)

lemma fold_preempt_frame [resv_frame]:
  "reservation (fold (preempt_one abort) rs td) = reservation td"
  "sync_enabled (fold (preempt_one abort) rs td) = sync_enabled td"
  by (induction rs arbitrary: td) (simp_all add: resv_frame)

lemma sync_send_frame [resv_frame]:
  "reservation (node_reservation_sync_send td) = reservation td"
  "reservation (node_registration_sync_send r op td) = reservation td"
  "reservation (node_registration_clear_sync_send td) = reservation td"
  "sync_enabled (node_reservation_sync_send td) = sync_enabled td"
  "sync_enabled (node_registration_sync_send r op td) = sync_enabled td"
  "sync_enabled (node_registration_clear_sync_send td) = sync_enabled td"
  by (simp_all add: node_reservation_sync_send_def node_registration_sync_send_def node_registration_clear_sync_send_def
      resv_frame)

lemma mirror_cmd_keeps:
  assumes "tdisk_mirror_cmd_generic_nocheck env ctio = (retval, ctio')"
  shows "cdb ctio' = cdb ctio" "i_prt ctio' = i_prt ctio" "t_prt ctio' = t_prt ctio" "init_int ctio' = init_int ctio"
    "r_prt ctio' = r_prt ctio"
  using assms
  by (auto simp: tdisk_mirror_cmd_generic_nocheck_def mirror_cmd_generic_def Let_def ctio_free_data_def
      ctio_allocate_buffer_def ctio_construct_sense_def ctio_allocate_sense_def ctio_free_sense_def
      split: if_splits peer_reply.splits)


section \<open>The reservation after each action\<close>

text \<open>What the service actions do to the reservation, without the messages and unit attentions.\<close>

abbreviation (input) bump :: "reservation \<Rightarrow> reservation" where
  "bump r \<equiv> r\<lparr>generation := generation r + 1\<rparr>"

definition drop_registration :: "iid \<Rightarrow> reservation \<Rightarrow> reservation" where
  "drop_registration who r =
     (let r' = r\<lparr>registration_list := remove_first (\<lambda>x. reg_iid x = who) (registration_list r)\<rparr>
      in if is_reserved r \<and> (if in_persistent_ar_type r then registration_list r' = []
                             else is_persistent_reservation_holder r who)
         then persistent_reservation_reset r' else r')"

definition set_key :: "qsio_scsiio \<Rightarrow> u64 \<Rightarrow> reservation \<Rightarrow> reservation" where
  "set_key ctio k r = persistent_reservation_update_key
     (r\<lparr>registration_list := update_first (\<lambda>x. reg_iid x = ctio_iid ctio) (\<lambda>x. x\<lparr>rg_key := k\<rparr>) (registration_list r)\<rparr>) ctio k"

lemma remove_registration_resv:
  "reservation (persistent_reservation_remove_registration reg td) =
     (let r = reservation td
      in if is_reserved r \<and> (if in_persistent_ar_type r then registration_list r = []
                             else is_persistent_reservation_holder r (reg_iid reg))
         then persistent_reservation_reset r else r)"
  by (simp add: persistent_reservation_remove_registration_def Let_def resv_frame)

lemma holder_list_indep:
  "\<not> in_persistent_ar_type r \<Longrightarrow> is_reserved r \<Longrightarrow>
   is_persistent_reservation_holder (r\<lparr>registration_list := l\<rparr>) who = is_persistent_reservation_holder r who"
  by (auto simp: is_persistent_reservation_holder_def in_persistent_ar_type_def)

lemma in_ar_list_indep [simp]: "in_persistent_ar_type (r\<lparr>registration_list := l\<rparr>) = in_persistent_ar_type r"
  by (simp add: in_persistent_ar_type_def)

lemma reregister_resv:
  "reg_iid tmp = ctio_iid ctio \<Longrightarrow> reservation (reregister ctio tmp k td) =
     bump (if k = 0 then drop_registration (ctio_iid ctio) (reservation td) else set_key ctio k (reservation td))"
  by (auto simp: reregister_def bump_and_sync_def Let_def resv_frame remove_registration_resv drop_registration_def
      set_key_def holder_list_indep)

lemma add_registration_resv:
  "reservation (add_registration ctio k td) =
     bump ((reservation td)\<lparr>registration_list :=
       \<lparr>rg_key = k, rg_i_prt = i_prt ctio, rg_t_prt = t_prt ctio, rg_r_prt = r_prt ctio, rg_init_int = init_int ctio,
        rg_init_name = (if init_int ctio = TARGET_INT_ISCSI then init_name ctio else [])\<rparr> # registration_list (reservation td)\<rparr>)"
  by (simp add: add_registration_def Let_def resv_frame)

section \<open>The invariant\<close>

definition has_registration :: "reservation \<Rightarrow> iid \<Rightarrow> u64 \<Rightarrow> bool" where
  "has_registration r who k = list_ex (\<lambda>x. reg_iid x = who \<and> rg_key x = k) (registration_list r)"

abbreviation (input) single_holder_types :: "u8 set" where
  "single_holder_types \<equiv> {RESERVATION_TYPE_WRITE_EXCLUSIVE, RESERVATION_TYPE_EXCLUSIVE_ACCESS,
     RESERVATION_TYPE_WRITE_EXCLUSIVE_RO, RESERVATION_TYPE_EXCLUSIVE_ACCESS_RO}"

abbreviation (input) all_registrants_types :: "u8 set" where
  "all_registrants_types \<equiv> {RESERVATION_TYPE_WRITE_EXCLUSIVE_AR, RESERVATION_TYPE_EXCLUSIVE_ACCESS_AR}"

definition resv_inv :: "reservation \<Rightarrow> bool" where
  "resv_inv r \<longleftrightarrow> distinct (map reg_iid (registration_list r)) \<and> list_all (\<lambda>x. rg_key x \<noteq> 0) (registration_list r) \<and>
     (is_reserved r \<longrightarrow> rv_type r = RESERVATION_TYPE_PERSISTENT \<longrightarrow>
        (persistent_type r \<in> single_holder_types \<longrightarrow> has_registration r (resv_iid r) (persistent_key r)) \<and>
        (persistent_type r \<in> all_registrants_types \<longrightarrow> registration_list r \<noteq> []))"

lemma resv_invI:
  assumes "distinct (map reg_iid (registration_list r))" "list_all (\<lambda>x. rg_key x \<noteq> 0) (registration_list r)"
    "\<lbrakk>is_reserved r; rv_type r = RESERVATION_TYPE_PERSISTENT; persistent_type r \<in> single_holder_types\<rbrakk> \<Longrightarrow>
       has_registration r (resv_iid r) (persistent_key r)"
    "\<lbrakk>is_reserved r; rv_type r = RESERVATION_TYPE_PERSISTENT; persistent_type r \<in> all_registrants_types\<rbrakk> \<Longrightarrow>
       registration_list r \<noteq> []"
  shows "resv_inv r"
  using assms unfolding resv_inv_def by blast

lemma resv_invD:
  assumes "resv_inv r"
  shows "distinct (map reg_iid (registration_list r))" "list_all (\<lambda>x. rg_key x \<noteq> 0) (registration_list r)"
    "\<lbrakk>is_reserved r; rv_type r = RESERVATION_TYPE_PERSISTENT; persistent_type r \<in> single_holder_types\<rbrakk> \<Longrightarrow>
       has_registration r (resv_iid r) (persistent_key r)"
    "\<lbrakk>is_reserved r; rv_type r = RESERVATION_TYPE_PERSISTENT; persistent_type r \<in> all_registrants_types\<rbrakk> \<Longrightarrow>
       registration_list r \<noteq> []"
  using assms unfolding resv_inv_def by blast+

lemma resv_inv_bump [simp]: "resv_inv (bump r) = resv_inv r"
  by (simp add: resv_inv_def has_registration_def)

lemma resv_inv_reset: "resv_inv r \<Longrightarrow> resv_inv (persistent_reservation_reset r)"
  by (simp add: resv_inv_def persistent_reservation_reset_def)

lemma remove_first_all: "list_all P xs \<Longrightarrow> list_all P (remove_first Q xs)"
  by (induction xs) auto

lemma remove_first_ex_other: "list_ex P xs \<Longrightarrow> (\<And>x. P x \<Longrightarrow> \<not> Q x) \<Longrightarrow> list_ex P (remove_first Q xs)"
  by (induction xs) auto

lemma update_first_all: "list_all P xs \<Longrightarrow> (\<And>x. P x \<Longrightarrow> Q x \<Longrightarrow> P (f x)) \<Longrightarrow> list_all P (update_first Q f xs)"
  by (induction xs) auto

lemma drop_registration_inv:
  assumes "resv_inv r"
  shows "resv_inv (drop_registration who r)"
proof -
  let ?r = "r\<lparr>registration_list := remove_first (\<lambda>x. reg_iid x = who) (registration_list r)\<rparr>"
  have base: "distinct (map reg_iid (registration_list ?r))" "list_all (\<lambda>x. rg_key x \<noteq> 0) (registration_list ?r)"
    using assms by (simp_all add: resv_inv_def distinct_map_remove_first remove_first_all)
  have keep: "has_registration ?r (resv_iid r) (persistent_key r)"
    if "has_registration r (resv_iid r) (persistent_key r)" "resv_iid r \<noteq> who"
    using that by (auto simp: has_registration_def intro!: remove_first_ex_other)
  show ?thesis
  proof (cases "is_reserved r \<and> (if in_persistent_ar_type r then registration_list ?r = []
                             else is_persistent_reservation_holder r who)")
    case True
    then have "drop_registration who r = persistent_reservation_reset ?r"
      unfolding drop_registration_def Let_def by (rule if_P)
    with base show ?thesis by (simp add: persistent_reservation_reset_def resv_inv_def)
  next
    case False
    then have "drop_registration who r = ?r" by (auto simp: drop_registration_def Let_def)
    moreover have "resv_inv ?r"
    proof (rule resv_invI)
      assume "is_reserved ?r" "rv_type ?r = RESERVATION_TYPE_PERSISTENT" "persistent_type ?r \<in> single_holder_types"
      then have p: "is_reserved r" "rv_type r = RESERVATION_TYPE_PERSISTENT" "persistent_type r \<in> single_holder_types" by simp_all
      then have "\<not> in_persistent_ar_type r" by (auto simp: in_persistent_ar_type_def)
      with False p have "resv_iid r \<noteq> who" by (auto simp: is_persistent_reservation_holder_def)
      from keep [OF resv_invD(3) [OF assms p] this] show "has_registration ?r (resv_iid ?r) (persistent_key ?r)" by simp
    next
      assume "is_reserved ?r" "rv_type ?r = RESERVATION_TYPE_PERSISTENT" "persistent_type ?r \<in> all_registrants_types"
      then have "is_reserved r" "in_persistent_ar_type r" by (auto simp: in_persistent_ar_type_def)
      with False show "registration_list ?r \<noteq> []" by simp
    qed (use base in simp_all)
    ultimately show ?thesis by simp
  qed
qed


lemma update_first_ex_hit: "list_ex Q xs \<Longrightarrow> (\<And>x. Q x \<Longrightarrow> P (f x)) \<Longrightarrow> list_ex P (update_first Q f xs)"
  by (induction xs) auto

lemma update_first_ex_other: "list_ex P xs \<Longrightarrow> (\<And>x. P x \<Longrightarrow> \<not> Q x) \<Longrightarrow> list_ex P (update_first Q f xs)"
  by (induction xs) auto

lemma set_key_inv:
  assumes "resv_inv r" "k \<noteq> 0" "list_ex (\<lambda>x. reg_iid x = ctio_iid ctio) (registration_list r)"
  shows "resv_inv (set_key ctio k r)"
proof -
  let ?l = "update_first (\<lambda>x. reg_iid x = ctio_iid ctio) (\<lambda>x. x\<lparr>rg_key := k\<rparr>) (registration_list r)"
  let ?r = "r\<lparr>registration_list := ?l\<rparr>"
  have base: "distinct (map reg_iid ?l)" "list_all (\<lambda>x. rg_key x \<noteq> 0) ?l" "?l = [] \<longleftrightarrow> registration_list r = []"
  proof -
    have "map reg_iid ?l = map reg_iid (registration_list r)" by (rule map_update_first) simp
    then show "distinct (map reg_iid ?l)" "?l = [] \<longleftrightarrow> registration_list r = []"
      using assms(1) by (auto simp: resv_inv_def dest: arg_cong [where f = length])
    show "list_all (\<lambda>x. rg_key x \<noteq> 0) ?l"
      by (rule update_first_all) (use assms in \<open>auto simp: resv_inv_def\<close>)
  qed
  have mine: "has_registration ?r (ctio_iid ctio) k"
    unfolding has_registration_def by (simp del: prod.inject) (rule update_first_ex_hit [OF assms(3)], simp)
  have keep: "has_registration ?r who k'" if "has_registration r who k'" "who \<noteq> ctio_iid ctio" for who k'
    unfolding has_registration_def reservation.select_convs reservation.update_convs
    by (simp del: prod.inject) (rule update_first_ex_other [OF that(1) [unfolded has_registration_def]], use that(2) in auto)
  show ?thesis
  proof (cases "rv_type r \<noteq> RESERVATION_TYPE_PERSISTENT \<or> persistent_type r \<in> all_registrants_types \<or> resv_iid r \<noteq> ctio_iid ctio")
    case True
    then have "set_key ctio k r = ?r" unfolding set_key_def persistent_reservation_update_key_def by auto
    moreover have "resv_inv ?r"
    proof (rule resv_invI)
      assume "is_reserved ?r" "rv_type ?r = RESERVATION_TYPE_PERSISTENT" "persistent_type ?r \<in> single_holder_types"
      then have p: "is_reserved r" "rv_type r = RESERVATION_TYPE_PERSISTENT" "persistent_type r \<in> single_holder_types" by simp_all
      with True have "resv_iid r \<noteq> ctio_iid ctio" by auto
      from keep [OF resv_invD(3) [OF assms(1) p] this] show "has_registration ?r (resv_iid ?r) (persistent_key ?r)" by simp
    qed (use base resv_invD(4) [OF assms(1)] in simp_all)
    ultimately show ?thesis by simp
  next
    case False
    then have "set_key ctio k r = ?r\<lparr>persistent_key := k\<rparr>" unfolding set_key_def persistent_reservation_update_key_def by auto
    moreover have "resv_inv (?r\<lparr>persistent_key := k\<rparr>)"
      by (rule resv_invI) (use False base mine in \<open>auto simp: has_registration_def\<close>)
    ultimately show ?thesis by simp
  qed
qed

lemma find_registered:
  "find (\<lambda>x. reg_iid x = who) l = Some reg \<Longrightarrow> reg_iid reg = who \<and> reg \<in> set l \<and> list_ex (\<lambda>x. reg_iid x = who) l"
  by (fastforce simp: find_Some_iff list_ex_iff in_set_conv_nth)

lemma reregister_inv:
  assumes "resv_inv (reservation td)" "find (\<lambda>x. reg_iid x = ctio_iid ctio) (registration_list (reservation td)) = Some tmp"
  shows "resv_inv (reservation (reregister ctio tmp k td))"
  using assms find_registered [OF assms(2)]
  by (simp add: reregister_resv drop_registration_inv set_key_inv del: prod.inject)

lemma add_registration_inv:
  assumes "resv_inv (reservation td)" "find (\<lambda>x. reg_iid x = ctio_iid ctio) (registration_list (reservation td)) = None" "k \<noteq> 0"
  shows "resv_inv (reservation (add_registration ctio k td))"
proof -
  from assms(2) have "\<forall>x\<in>set (registration_list (reservation td)). reg_iid x \<noteq> ctio_iid ctio"
    by (simp add: find_None_iff)
  then have "ctio_iid ctio \<notin> reg_iid ` set (registration_list (reservation td))" by fastforce
  with assms(1,3) show ?thesis unfolding add_registration_resv by (auto simp: resv_inv_def has_registration_def)
qed

lemma bump_and_sync_inv: "resv_inv (reservation (bump_and_sync td)) = resv_inv (reservation td)"
  by (simp add: bump_and_sync_def resv_frame)

text \<open>The command a handler continues with after consulting the peer is from the same initiator.\<close>

lemma mirror_cmd_iid:
  "tdisk_mirror_cmd_generic_nocheck env ctio = (retval, ctio') \<Longrightarrow> ctio_iid ctio' = ctio_iid ctio"
  by (simp add: mirror_cmd_keeps)

lemma handle_register_inv:
  assumes "persistent_reservation_handle_register env td ctio = (ctio', td')" "resv_inv (reservation td)"
  shows "resv_inv (reservation td')"
proof -
  obtain retval c where m: "tdisk_mirror_cmd_generic_nocheck env ctio = (retval, c)"
    by (cases "tdisk_mirror_cmd_generic_nocheck env ctio")
  note iid = mirror_cmd_iid [OF m]
  show ?thesis
  proof (cases "find (\<lambda>x. reg_iid x = ctio_iid ctio) (registration_list (reservation td))")
    case None
    with add_registration_inv [of td c] assms iid show ?thesis
      unfolding persistent_reservation_handle_register_def m
      by (auto simp: Let_def bump_and_sync_inv split: if_splits)
  next
    case (Some tmp)
    with reregister_inv [of td c tmp] assms iid show ?thesis
      unfolding persistent_reservation_handle_register_def m
      by (auto simp: Let_def simp del: prod.inject split: if_splits)
  qed
qed

lemma handle_register_and_ignore_inv:
  assumes "persistent_reservation_handle_register_and_ignore env td ctio = (ctio', td')" "resv_inv (reservation td)"
  shows "resv_inv (reservation td')"
proof -
  obtain retval c where m: "tdisk_mirror_cmd_generic_nocheck env ctio = (retval, c)"
    by (cases "tdisk_mirror_cmd_generic_nocheck env ctio")
  note iid = mirror_cmd_iid [OF m]
  show ?thesis
  proof (cases "find (\<lambda>x. reg_iid x = ctio_iid ctio) (registration_list (reservation td))")
    case None
    with add_registration_inv [of td c] assms iid show ?thesis
      unfolding persistent_reservation_handle_register_and_ignore_def m
      by (auto simp: Let_def bump_and_sync_inv split: if_splits)
  next
    case (Some tmp)
    with reregister_inv [of td c tmp] assms iid show ?thesis
      unfolding persistent_reservation_handle_register_and_ignore_def m
      by (auto simp: Let_def simp del: prod.inject split: if_splits)
  qed
qed


lemma registered_iff:
  "initiator_has_registered key who l \<noteq> None \<longleftrightarrow> list_ex (\<lambda>x. reg_iid x = who \<and> rg_key x = key) l"
  by (simp add: initiator_has_registered_def find_None_list_ex)

lemma take_reservation_inv:
  assumes "distinct (map reg_iid (registration_list r))" "list_all (\<lambda>x. rg_key x \<noteq> 0) (registration_list r)"
    "has_registration r (ctio_iid ctio) key"
  shows "resv_inv (take_reservation ctio key type r)"
proof (rule resv_invI)
  show "has_registration (take_reservation ctio key type r) (resv_iid (take_reservation ctio key type r))
      (persistent_key (take_reservation ctio key type r))"
    using assms(3) by (simp add: take_reservation_def has_registration_def)
  show "registration_list (take_reservation ctio key type r) \<noteq> []"
    using assms(3) by (auto simp: take_reservation_def has_registration_def)
qed (use assms in \<open>simp_all add: take_reservation_def\<close>)

lemma handle_reserve_inv:
  assumes "persistent_reservation_handle_reserve env td ctio = (ctio', td')" "resv_inv (reservation td)"
  shows "resv_inv (reservation td')"
proof -
  obtain retval c where m: "tdisk_mirror_cmd_generic_nocheck env ctio = (retval, c)"
    by (cases "tdisk_mirror_cmd_generic_nocheck env ctio")
  note iid = mirror_cmd_iid [OF m]
  let ?k = "param_key ctio"
  have t: "resv_inv (take_reservation c ?k type ((reservation td)\<lparr>is_reserved := True\<rparr>))"
    if "initiator_has_registered ?k (ctio_iid ctio) (registration_list (reservation td)) \<noteq> None" for type
    by (rule take_reservation_inv)
      (use that resv_invD [OF assms(2)] iid in \<open>simp_all only: has_registration_def registered_iff, simp_all\<close>)
  from assms t show ?thesis
    unfolding persistent_reservation_handle_reserve_def m
    by (auto simp: Let_def resv_frame simp del: prod.inject split: if_splits)
qed

lemma handle_release_inv:
  assumes "persistent_reservation_handle_release env td ctio = (ctio', td')" "resv_inv (reservation td)"
  shows "resv_inv (reservation td')"
proof -
  obtain retval c where m: "tdisk_mirror_cmd_generic_nocheck env ctio = (retval, c)"
    by (cases "tdisk_mirror_cmd_generic_nocheck env ctio")
  from assms resv_inv_reset [OF assms(2)] show ?thesis
    unfolding persistent_reservation_handle_release_def m
    by (auto simp: Let_def resv_frame simp del: prod.inject split: if_splits)
qed

lemma handle_clear_inv:
  assumes "persistent_reservation_handle_clear env td ctio = (ctio', td')" "resv_inv (reservation td)"
  shows "resv_inv (reservation td')"
proof -
  obtain retval c where m: "tdisk_mirror_cmd_generic_nocheck env ctio = (retval, c)"
    by (cases "tdisk_mirror_cmd_generic_nocheck env ctio")
  have "resv_inv ((persistent_reservation_reset (r\<lparr>registration_list := []\<rparr>))\<lparr>generation := g\<rparr>)" for r g
    by (simp add: persistent_reservation_reset_def resv_inv_def)
  with assms show ?thesis
    unfolding persistent_reservation_handle_clear_def m
    by (auto simp: Let_def resv_frame split: if_splits)
qed

text \<open>The reservation after a preempt that goes ahead.\<close>

lemma preempt_resv:
  "reservation (preempt_registrations ctio key sak type abort td) =
     (let r = reservation td;
          is_ar = in_persistent_ar_type r;
          r' = r\<lparr>registration_list := filter (\<lambda>x. \<not> preempt_victim (ctio_iid ctio) is_ar sak x) (registration_list r)\<rparr>
      in bump (if (is_reserved r \<and> \<not> is_ar \<and> persistent_key r = sak) \<or> (is_ar \<and> sak = 0)
               then take_reservation ctio key type r' else r'))"
  by (simp add: preempt_registrations_def Let_def bump_and_sync_def resv_frame)

lemma preempt_inv:
  assumes "resv_inv (reservation td)" "has_registration (reservation td) (ctio_iid ctio) key"
  shows "resv_inv (reservation (preempt_registrations ctio key sak type abort td))"
proof -
  let ?r = "reservation td"
  let ?v = "preempt_victim (ctio_iid ctio) (in_persistent_ar_type ?r) sak"
  let ?r' = "?r\<lparr>registration_list := filter (\<lambda>x. \<not> ?v x) (registration_list ?r)\<rparr>"
  have base: "distinct (map reg_iid (registration_list ?r'))" "list_all (\<lambda>x. rg_key x \<noteq> 0) (registration_list ?r')"
    using resv_invD(1,2) [OF assms(1)] by (simp_all add: distinct_map_filter list_all_iff)
  have mine: "has_registration ?r' (ctio_iid ctio) key"
    using assms(2) by (auto simp: has_registration_def list_ex_iff preempt_victim_def)
  show ?thesis
  proof (cases "(is_reserved ?r \<and> \<not> in_persistent_ar_type ?r \<and> persistent_key ?r = sak) \<or> (in_persistent_ar_type ?r \<and> sak = 0)")
    case True
    with take_reservation_inv [OF base mine] show ?thesis by (simp add: preempt_resv Let_def)
  next
    case False
    have "resv_inv ?r'"
    proof (rule resv_invI)
      assume "is_reserved ?r'" "rv_type ?r' = RESERVATION_TYPE_PERSISTENT" "persistent_type ?r' \<in> single_holder_types"
      then have p: "is_reserved ?r" "rv_type ?r = RESERVATION_TYPE_PERSISTENT" "persistent_type ?r \<in> single_holder_types" by simp_all
      then have "\<not> in_persistent_ar_type ?r" by (auto simp: in_persistent_ar_type_def)
      with False p resv_invD(3) [OF assms(1) p] show "has_registration ?r' (resv_iid ?r') (persistent_key ?r')"
        by (auto simp: has_registration_def list_ex_iff preempt_victim_def)
    next
      show "registration_list ?r' \<noteq> []" using mine unfolding has_registration_def by (auto simp: list_ex_iff filter_empty_conv)
    qed (use base in simp_all)
    with False show ?thesis unfolding preempt_resv Let_def by (simp only: if_False resv_inv_bump)
  qed
qed

lemma handle_preempt_inv:
  assumes "persistent_reservation_handle_preempt env td ctio abort = (ctio', td')" "resv_inv (reservation td)"
  shows "resv_inv (reservation td')"
proof -
  obtain retval c where m: "tdisk_mirror_cmd_generic_nocheck env ctio = (retval, c)"
    by (cases "tdisk_mirror_cmd_generic_nocheck env ctio")
  from assms preempt_inv [OF assms(2), of c "param_key ctio"] mirror_cmd_iid [OF m] show ?thesis
    unfolding persistent_reservation_handle_preempt_def m Let_def has_registration_def registered_iff [symmetric]
    by (auto simp del: prod.inject split: if_splits)
qed


lemma persistent_reserve_out_inv:
  assumes "tdisk_cmd_persistent_reserve_out env td ctio = (ctio', td')" "resv_inv (reservation td)"
  shows "resv_inv (reservation td')"
proof -
  note handlers = handle_register_inv handle_register_and_ignore_inv handle_reserve_inv handle_release_inv
    handle_clear_inv handle_preempt_inv
  from assms show ?thesis
    unfolding tdisk_cmd_persistent_reserve_out_def Let_def
    by (auto split: if_splits prod.splits dest: handlers [OF _ assms(2)])
qed

lemma resv_inv_not_persistent:
  "resv_inv r \<Longrightarrow> registration_list r' = registration_list r \<Longrightarrow>
   \<not> is_reserved r' \<or> rv_type r' \<noteq> RESERVATION_TYPE_PERSISTENT \<Longrightarrow> resv_inv r'"
  by (rule resv_invI) (use resv_invD(1,2) in auto)

lemma cmd_reserve_inv:
  assumes "tdisk_cmd_reserve td ctio = (ctio', td')" "resv_inv (reservation td)"
  shows "resv_inv (reservation td')"
  using assms(1) resv_inv_not_persistent [OF assms(2), of "reservation td'"] assms(2)
  unfolding tdisk_cmd_reserve_def by (cases "tdisk_cmd_access_ok (reservation td) ctio") (auto simp: resv_frame)

lemma cmd_release_inv:
  assumes "tdisk_cmd_release td ctio = (ctio', td')" "resv_inv (reservation td)"
  shows "resv_inv (reservation td')"
  using assms(1) resv_inv_not_persistent [OF assms(2), of "reservation td'"] assms(2)
  unfolding tdisk_cmd_release_def by (cases "resv_iid (reservation td) = ctio_iid ctio") (auto simp: resv_frame)

section \<open>Sequences of commands\<close>

inductive resv_step :: "tdisk \<Rightarrow> tdisk \<Rightarrow> bool" where
  pr_out: "tdisk_cmd_persistent_reserve_out env td ctio = (ctio', td') \<Longrightarrow> resv_step td td'"
| reserve: "tdisk_cmd_reserve td ctio = (ctio', td') \<Longrightarrow> resv_step td td'"
| release: "tdisk_cmd_release td ctio = (ctio', td') \<Longrightarrow> resv_step td td'"

definition fresh_disk :: "tdisk \<Rightarrow> bool" where
  "fresh_disk td \<longleftrightarrow> \<not> is_reserved (reservation td) \<and> registration_list (reservation td) = []"

lemma resv_steps_inv:
  assumes "resv_step\<^sup>*\<^sup>* td0 td" "fresh_disk td0"
  shows "resv_inv (reservation td)"
  using assms(1)
proof (induction rule: rtranclp_induct)
  case base
  then show ?case using assms(2) by (simp add: fresh_disk_def resv_inv_def)
next
  case (step td td')
  from step.hyps(2) step.IH show ?case
    by cases (blast intro: persistent_reserve_out_inv cmd_reserve_inv cmd_release_inv)+
qed

abbreviation (input) valid_persistent :: "reservation \<Rightarrow> bool" where
  "valid_persistent r \<equiv> is_reserved r \<and> rv_type r = RESERVATION_TYPE_PERSISTENT \<and>
     persistent_type r \<in> single_holder_types \<union> all_registrants_types"

lemma holder_exists:
  assumes "resv_inv r" "valid_persistent r"
  shows "\<exists>reg\<in>set (registration_list r). is_persistent_reservation_holder r (reg_iid reg) \<and>
     (in_persistent_ar_type r \<or> (resv_iid r = reg_iid reg \<and> persistent_key r = rg_key reg))"
proof (cases "persistent_type r \<in> all_registrants_types")
  case True
  with resv_invD(4) [OF assms(1)] assms(2) obtain reg where "reg \<in> set (registration_list r)"
    by (cases "registration_list r") auto
  moreover from this True assms(2) have "is_persistent_reservation_holder r (reg_iid reg)"
    by (auto simp: is_persistent_reservation_holder_def initiator_has_registered_ar_def list_ex_iff)
  ultimately show ?thesis using True assms(2) by (auto simp: in_persistent_ar_type_def)
next
  case False
  with assms(2) have s: "persistent_type r \<in> single_holder_types" by blast
  with resv_invD(3) [OF assms(1)] assms(2) obtain reg where
    "reg \<in> set (registration_list r)" "reg_iid reg = resv_iid r" "rg_key reg = persistent_key r"
    by (auto simp: has_registration_def list_ex_iff simp del: prod.inject)
  moreover from this s assms(2) have "is_persistent_reservation_holder r (reg_iid reg)"
    by (auto simp: is_persistent_reservation_holder_def)
  ultimately show ?thesis by metis
qed

lemma valid_type_fields:
  "ty \<in> single_holder_types \<union> all_registrants_types \<Longrightarrow> ty AND 0xF = ty \<and> drop_bit 4 ty = 0" for ty :: u8
  by auto

lemma holder_releases:
  assumes "valid_persistent (reservation td)" "reg \<in> set (registration_list (reservation td))"
    "in_persistent_ar_type (reservation td) \<or> (resv_iid (reservation td) = reg_iid reg \<and> persistent_key (reservation td) = rg_key reg)"
    "ctio_iid ctio = reg_iid reg" "param_key ctio = rg_key reg" "cdb8 ctio 2 = persistent_type (reservation td)"
    "\<not> mirroring_configured env"
  shows "\<not> is_reserved (reservation (snd (persistent_reservation_handle_release env td ctio)))"
proof -
  have "initiator_has_registered (param_key ctio) (ctio_iid ctio) (registration_list (reservation td)) \<noteq> None"
    unfolding registered_iff list_ex_iff using assms(2,4,5) by metis
  with assms valid_type_fields [of "persistent_type (reservation td)"] show ?thesis
    by (auto simp: persistent_reservation_handle_release_def Let_def tdisk_mirror_cmd_generic_nocheck_def resv_frame
        persistent_reservation_reset_def simp del: prod.inject)
qed


section \<open>Concrete commands\<close>

definition sample_disk :: tdisk where
  "sample_disk =
     \<lparr>istate_list = [],
      reservation = \<lparr>generation = 0, is_reserved = False, rv_type = 0, persistent_type = 0, rv_init_int = 0, rv_r_prt = 0,
        rv_i_prt = (0, 0), rv_t_prt = (0, 0), persistent_key = 0, registration_list = []\<rparr>,
      sync_reservation = \<lparr>generation = 0, is_reserved = False, rv_type = 0, persistent_type = 0, rv_init_int = 0, rv_r_prt = 0,
        rv_i_prt = (0, 0), rv_t_prt = (0, 0), persistent_key = 0, registration_list = []\<rparr>,
      sync_enabled = True, outbox = [],
      td_devq = \<lparr>dq_ccbs = (\<lambda>_. undefined), pending_queue = [], master_pending_queue = [], mdevq_pending = 0,
        pending_write_queue = [], pg_flags = (\<lambda>_. 0), pg_done = (\<lambda>_. False), fc_started = []\<rparr>,
      td_ticks = 0, td_ticks_to_msecs = (\<lambda>_. 0), td_stale_timeout = 1\<rparr>"

text \<open>PERSISTENT RESERVE OUT from port \<open>who\<close> with service action \<open>a\<close>, reservation type, key and new key.\<close>

definition pr_cmd :: "u64 \<Rightarrow> u8 \<Rightarrow> u8 \<Rightarrow> u64 \<Rightarrow> u64 \<Rightarrow> qsio_scsiio" where
  "pr_cmd who a type key sak = \<lparr>cdb = [0x5F, a, type, 0, 0, 0, 0, 0, 24, 0], scsi_status = 0, task_attr = 0x20, queued = False,
     init_int = 3, r_prt = 0, pglist_cnt = 0, data_ptr = Some (be_bytes 8 key @ be_bytes 8 sak @ replicate 8 0), dxfer_len = 24,
     task_tag = 0, i_prt = (who, 0), t_prt = (0, 0), ccb_flags = 0, ccb_tdisk = 0, sense_data = None, sense_len = 0, init_name = []\<rparr>"

abbreviation (input) no_mirror :: mirror_env where
  "no_mirror \<equiv> \<lparr>mirroring_configured = False, mirror_master = False, peer_reply = Peer_lost False\<rparr>"

abbreviation (input) pr_do :: "tdisk \<Rightarrow> qsio_scsiio \<Rightarrow> tdisk" where
  "pr_do td c \<equiv> snd (tdisk_cmd_persistent_reserve_out no_mirror td c)"

definition sample_reserved :: tdisk where
  "sample_reserved = pr_do (pr_do sample_disk (pr_cmd 1 0 0 0 5)) (pr_cmd 1 1 3 5 0)"

lemma sample_reserved_resv:
  "reservation sample_reserved =
     \<lparr>generation = 1, is_reserved = True, rv_type = RESERVATION_TYPE_PERSISTENT, persistent_type = 3, rv_init_int = 3,
      rv_r_prt = 0, rv_i_prt = (1, 0), rv_t_prt = (0, 0), persistent_key = 5,
      registration_list = [\<lparr>rg_key = 5, rg_i_prt = (1, 0), rg_t_prt = (0, 0), rg_r_prt = 0, rg_init_int = 3, rg_init_name = []\<rparr>]\<rparr>"
  by code_simp



section \<open>Properties\<close>

text \<open>
  C7. Whatever reservation commands a disk receives, no initiator is registered twice, no key is
  zero, and a persistent reservation of a defined type always has a registered holder,
  who can release it: a RELEASE by that initiator with its key and the type frees the disk.
\<close>

theorem persistent_reservation_releasable:
  assumes "resv_step\<^sup>*\<^sup>* td0 td" "fresh_disk td0"
  shows "distinct (map reg_iid (registration_list (reservation td))) \<and>
    (\<forall>reg\<in>set (registration_list (reservation td)). rg_key reg \<noteq> 0) \<and>
    (valid_persistent (reservation td) \<longrightarrow>
      (\<exists>reg\<in>set (registration_list (reservation td)). is_persistent_reservation_holder (reservation td) (reg_iid reg) \<and>
        (\<forall>ctio env. ctio_iid ctio = reg_iid reg \<longrightarrow> be_read (the (data_ptr ctio)) 0 8 = rg_key reg \<longrightarrow>
           cdb8 ctio 2 = persistent_type (reservation td) \<longrightarrow> \<not> mirroring_configured env \<longrightarrow>
           \<not> is_reserved (reservation (snd (persistent_reservation_handle_release env td ctio))))))"
proof -
  have inv: "resv_inv (reservation td)" by (rule resv_steps_inv [OF assms])
  have "\<exists>reg\<in>set (registration_list (reservation td)). is_persistent_reservation_holder (reservation td) (reg_iid reg) \<and>
      (\<forall>ctio env. ctio_iid ctio = reg_iid reg \<longrightarrow> be_read (the (data_ptr ctio)) 0 8 = rg_key reg \<longrightarrow>
         cdb8 ctio 2 = persistent_type (reservation td) \<longrightarrow> \<not> mirroring_configured env \<longrightarrow>
         \<not> is_reserved (reservation (snd (persistent_reservation_handle_release env td ctio))))"
    if v: "valid_persistent (reservation td)"
    using holder_exists [OF inv v] holder_releases [OF v] by meson
  then show ?thesis using resv_invD(1,2) [OF inv] by (auto simp: list_all_iff)
qed

lemma sample_reserved_reached: "resv_step\<^sup>*\<^sup>* sample_disk sample_reserved"
proof -
  have "resv_step sample_disk (pr_do sample_disk (pr_cmd 1 0 0 0 5))"
    by (rule resv_step.pr_out [OF prod.collapse [symmetric]])
  moreover have "resv_step (pr_do sample_disk (pr_cmd 1 0 0 0 5)) sample_reserved"
    unfolding sample_reserved_def by (rule resv_step.pr_out [OF prod.collapse [symmetric]])
  ultimately show ?thesis by simp
qed

theorem persistent_reservation_releasable_witness:
  "\<exists>reg\<in>set (registration_list (reservation sample_reserved)). is_persistent_reservation_holder (reservation sample_reserved) (reg_iid reg)"
proof -
  have "fresh_disk sample_disk" by (simp add: fresh_disk_def sample_disk_def)
  from persistent_reservation_releasable [OF sample_reserved_reached this] show ?thesis
    by (auto simp: sample_reserved_resv)
qed

section \<open>Conflicts\<close>

abbreviation (input) write_ops :: "u8 set" where
  "write_ops \<equiv> {LOG_SELECT, MODE_SENSE_6, MODE_SENSE_10, MODE_SELECT_6, MODE_SELECT_10, TEST_UNIT_READY,
     WRITE_6, WRITE_10, WRITE_12, WRITE_16, UNMAP, EXTENDED_COPY, RECEIVE_COPY_RESULTS,
     COMPARE_AND_WRITE, WRITE_SAME, WRITE_SAME_16, SYNCHRONIZE_CACHE, SYNCHRONIZE_CACHE_16}"

abbreviation (input) read_ops :: "u8 set" where
  "read_ops \<equiv> {READ_6, READ_10, READ_12, READ_16, VERIFY, VERIFY_12, VERIFY_16}"

abbreviation (input) registered :: "reservation \<Rightarrow> iid \<Rightarrow> bool" where
  "registered r who \<equiv> list_ex (\<lambda>x. reg_iid x = who) (registration_list r)"




text \<open>
  An initiator that took an all-registrants reservation and then unregistered is no holder
  any more, but no command of it conflicts: the check compares it with the initiator that
  took the reservation, which stays on record.
\<close>

lemma former_registrant_keeps_access:
  assumes "in_persistent_ar_type r" "resv_iid r = ctio_iid ctio" "\<not> registered r (ctio_iid ctio)"
  shows "\<not> is_persistent_reservation_holder r (ctio_iid ctio) \<and> tdisk_cmd_access_ok r ctio"
  using assms
  by (auto simp: in_persistent_ar_type_def is_persistent_reservation_holder_def initiator_has_registered_ar_def
      tdisk_cmd_access_ok_def device_reserved_def Let_def)

text \<open>Two initiators register, the first reserves for all registrants and unregisters.\<close>

definition sample_former :: tdisk where
  "sample_former = pr_do (pr_do (pr_do (pr_do sample_disk (pr_cmd 1 0 0 0 5)) (pr_cmd 2 0 0 0 6)) (pr_cmd 1 1 8 5 0)) (pr_cmd 1 0 0 5 0)"

lemma sample_former_resv:
  "reservation sample_former =
     \<lparr>generation = 3, is_reserved = True, rv_type = RESERVATION_TYPE_PERSISTENT, persistent_type = 8, rv_init_int = 3,
      rv_r_prt = 0, rv_i_prt = (1, 0), rv_t_prt = (0, 0), persistent_key = 5,
      registration_list = [\<lparr>rg_key = 6, rg_i_prt = (2, 0), rg_t_prt = (0, 0), rg_r_prt = 0, rg_init_int = 3, rg_init_name = []\<rparr>]\<rparr>"
  by code_simp

lemma former_registrant_keeps_access_witness:
  "tdisk_cmd_access_ok (reservation sample_former) ((pr_cmd 1 0 0 0 0)\<lparr>cdb := WRITE_10 # replicate 9 0\<rparr>)"
  using former_registrant_keeps_access [of "reservation sample_former" "(pr_cmd 1 0 0 0 0)\<lparr>cdb := WRITE_10 # replicate 9 0\<rparr>"]
  by (simp add: sample_former_resv in_persistent_ar_type_def pr_cmd_def)

section \<open>Preempting\<close>

lemma abort_tasks_devq:
  "pending_queue (td_devq (persistent_reservation_abort_tasks reg td)) = pending_queue (td_devq td)"
  "ctio_iid (dq_ccbs (td_devq (persistent_reservation_abort_tasks reg td)) c) = ctio_iid (dq_ccbs (td_devq td) c)"
  "ccb_flags (dq_ccbs (td_devq td) c) AND QSIO_CTIO_ABORTED \<noteq> 0 \<Longrightarrow>
   ccb_flags (dq_ccbs (td_devq (persistent_reservation_abort_tasks reg td)) c) AND QSIO_CTIO_ABORTED \<noteq> 0"
  "c \<in> set (pending_queue (td_devq td)) \<Longrightarrow> ctio_iid (dq_ccbs (td_devq td) c) = reg_iid reg \<Longrightarrow>
   ccb_flags (dq_ccbs (td_devq (persistent_reservation_abort_tasks reg td)) c) AND QSIO_CTIO_ABORTED \<noteq> 0"
proof -
  let ?f = "\<lambda>h cs. fold (\<lambda>c h. if in_devq (h c) then h
                 else if ctio_iid (h c) = reg_iid reg then h(c := abort_ctio True (h c)) else h) cs h"
  let ?P = "\<lambda>x. \<not> in_devq x \<and> ctio_iid x = reg_iid reg"
  have eq: "(\<lambda>c h. if in_devq (h c) then h else if ctio_iid (h c) = reg_iid reg then h(c := abort_ctio True (h c)) else h) =
      (\<lambda>c h. if ?P (h c) then h(c := abort_ctio True (h c)) else h)" by (auto simp: fun_eq_iff)
  have f: "?f h cs = (\<lambda>c. if c \<in> set cs \<and> ?P (h c) then abort_ctio True (h c) else h c)" for h cs
    unfolding eq by (rule fold_mark) auto
  have g: "gdevq_abort_tasks_other_initiators who q =
      q\<lparr>dq_ccbs := \<lambda>c. if c \<in> set (pending_queue q) \<and> ctio_iid (dq_ccbs q c) = who
                      then abort_ctio True (dq_ccbs q c) else dq_ccbs q c\<rparr>" for who q
    unfolding gdevq_abort_tasks_other_initiators_def by (rule queue_mark) auto
  note d = persistent_reservation_abort_tasks_def istate_abort_tasks_other_initiators_def f g Let_def
  show "pending_queue (td_devq (persistent_reservation_abort_tasks reg td)) = pending_queue (td_devq td)"
    by (simp add: d split: prod.splits)
  show "ctio_iid (dq_ccbs (td_devq (persistent_reservation_abort_tasks reg td)) c) = ctio_iid (dq_ccbs (td_devq td) c)"
    by (auto simp: d split: prod.splits)
  show "ccb_flags (dq_ccbs (td_devq (persistent_reservation_abort_tasks reg td)) c) AND QSIO_CTIO_ABORTED \<noteq> 0"
    if "ccb_flags (dq_ccbs (td_devq td) c) AND QSIO_CTIO_ABORTED \<noteq> 0"
    using that by (auto simp: d split: prod.splits)
  show "ccb_flags (dq_ccbs (td_devq (persistent_reservation_abort_tasks reg td)) c) AND QSIO_CTIO_ABORTED \<noteq> 0"
    if "c \<in> set (pending_queue (td_devq td))" "ctio_iid (dq_ccbs (td_devq td) c) = reg_iid reg"
    using that by (auto simp: d split: prod.splits)
qed

lemma td_devq_frame [resv_frame]:
  "td_devq (send_msg m td) = td_devq td" "td_devq (registrant_unit_attention r a td) = td_devq td"
  "td_devq (node_istate_sense_state_send td) = td_devq td" "td_devq (bump_and_sync td) = td_devq td"
  by (simp_all add: send_msg_def registrant_unit_attention_def node_istate_sense_state_send_def bump_and_sync_def
      node_reservation_sync_send_def Let_def split: prod.splits)

lemma preempt_one_devq:
  "td_devq (preempt_one True reg td) = td_devq (persistent_reservation_abort_tasks reg td)"
  by (simp add: preempt_one_def Let_def node_registration_sync_send_def resv_frame)

lemma preempt_all_abort:
  assumes "(c \<in> set (pending_queue (td_devq td)) \<and> ctio_iid (dq_ccbs (td_devq td) c) \<in> reg_iid ` set vs) \<or>
     ccb_flags (dq_ccbs (td_devq td) c) AND QSIO_CTIO_ABORTED \<noteq> 0"
  shows "ccb_flags (dq_ccbs (td_devq (fold (preempt_one True) vs td)) c) AND QSIO_CTIO_ABORTED \<noteq> 0"
  using assms
proof (induction vs arbitrary: td)
  case Nil
  then show ?case by simp
next
  case (Cons v vs)
  have "(c \<in> set (pending_queue (td_devq (preempt_one True v td))) \<and>
        ctio_iid (dq_ccbs (td_devq (preempt_one True v td)) c) \<in> reg_iid ` set vs) \<or>
     ccb_flags (dq_ccbs (td_devq (preempt_one True v td)) c) AND QSIO_CTIO_ABORTED \<noteq> 0"
    using Cons.prems abort_tasks_devq [where reg = v and td = td] unfolding preempt_one_devq by (auto simp del: prod.inject)
  from Cons.IH [OF this] show ?case by simp
qed


lemma preempt_devq_abort:
  assumes "c \<in> set (pending_queue (td_devq td))" "reg \<in> set (registration_list (reservation td))"
    "preempt_victim (ctio_iid ctio) (in_persistent_ar_type (reservation td)) sak reg"
    "ctio_iid (dq_ccbs (td_devq td) c) = reg_iid reg"
  shows "ccb_flags (dq_ccbs (td_devq (preempt_registrations ctio key sak type True td)) c) AND QSIO_CTIO_ABORTED \<noteq> 0"
proof -
  let ?v = "preempt_victim (ctio_iid ctio) (in_persistent_ar_type (reservation td)) sak"
  let ?td = "td\<lparr>reservation := (reservation td)\<lparr>registration_list := filter (\<lambda>x. \<not> ?v x) (registration_list (reservation td))\<rparr>\<rparr>"
  have "td_devq (preempt_registrations ctio key sak type True td) =
      td_devq (fold (preempt_one True) (filter ?v (registration_list (reservation td))) ?td)"
    by (simp add: preempt_registrations_def Let_def resv_frame)
  moreover have "ctio_iid (dq_ccbs (td_devq ?td) c) \<in> reg_iid ` set (filter ?v (registration_list (reservation td)))"
    using assms(2-4) by (intro image_eqI [of _ _ reg]) (simp_all del: prod.inject)
  ultimately show ?thesis using preempt_all_abort [of c ?td] assms(1) by simp
qed

text \<open>
  C28. PREEMPT by a registered initiator removes exactly the other initiators' registrations with
  the key it names, takes the reservation over if that key holds it and leaves it alone
  otherwise, and counts one generation. PREEMPT AND ABORT moreover aborts every command
  of the removed registrants that waits in the device queue.
\<close>

theorem preempt_takes_over:
  assumes "r = reservation td" "r' = reservation (snd (persistent_reservation_handle_preempt env td ctio abort))"
    "who = ctio_iid ctio" "key = be_read (the (data_ptr ctio)) 0 8" "sak = be_read (the (data_ptr ctio)) 8 8"
    "list_ex (\<lambda>x. reg_iid x = who \<and> rg_key x = key) (registration_list r)" "sak \<noteq> 0" "\<not> mirroring_configured env"
  shows "registration_list r' = filter (\<lambda>reg. reg_iid reg = who \<or> rg_key reg \<noteq> sak) (registration_list r) \<and>
    generation r' = generation r + 1 \<and> is_reserved r' = is_reserved r \<and>
    (if is_reserved r \<and> \<not> in_persistent_ar_type r \<and> persistent_key r = sak
     then resv_iid r' = who \<and> rv_type r' = RESERVATION_TYPE_PERSISTENT \<and> persistent_key r' = key \<and>
       persistent_type r' = cdb8 ctio 2 AND 0xF
     else resv_iid r' = resv_iid r \<and> rv_type r' = rv_type r \<and> persistent_key r' = persistent_key r \<and>
       persistent_type r' = persistent_type r) \<and>
    (abort \<longrightarrow> (\<forall>c\<in>set (pending_queue (td_devq td)). \<forall>reg\<in>set (registration_list r).
       reg_iid reg \<noteq> who \<longrightarrow> rg_key reg = sak \<longrightarrow> ctio_iid (dq_ccbs (td_devq td) c) = reg_iid reg \<longrightarrow>
       ccb_flags (dq_ccbs (td_devq (snd (persistent_reservation_handle_preempt env td ctio abort))) c) AND QSIO_CTIO_ABORTED \<noteq> 0))"
proof -
  let ?ar = "in_persistent_ar_type r"
  have go: "snd (persistent_reservation_handle_preempt env td ctio abort) =
      preempt_registrations ctio key sak (cdb8 ctio 2 AND 0xF) abort td"
    using assms(3-8) registered_iff [of key who "registration_list r"] unfolding assms(1)
    by (auto simp: persistent_reservation_handle_preempt_def tdisk_mirror_cmd_generic_nocheck_def Let_def simp del: prod.inject)
  have v: "preempt_victim who ?ar sak reg \<longleftrightarrow> reg_iid reg \<noteq> who \<and> rg_key reg = sak" for reg
    using assms(7) by (auto simp: preempt_victim_def)
  have l: "filter (\<lambda>x. \<not> preempt_victim who ?ar sak x) (registration_list r) =
      filter (\<lambda>reg. reg_iid reg = who \<or> rg_key reg \<noteq> sak) (registration_list r)"
    by (rule filter_cong) (auto simp: v simp del: prod.inject)
  have r': "r' = bump (if is_reserved r \<and> \<not> ?ar \<and> persistent_key r = sak
      then take_reservation ctio key (cdb8 ctio 2 AND 0xF) (r\<lparr>registration_list := filter (\<lambda>reg. reg_iid reg = who \<or> rg_key reg \<noteq> sak) (registration_list r)\<rparr>)
      else r\<lparr>registration_list := filter (\<lambda>reg. reg_iid reg = who \<or> rg_key reg \<noteq> sak) (registration_list r)\<rparr>)"
    unfolding assms(2) go preempt_resv Let_def assms(1) [symmetric] assms(3) [symmetric] l using assms(7) by simp
  have "ccb_flags (dq_ccbs (td_devq (preempt_registrations ctio key sak ty True td)) c) AND QSIO_CTIO_ABORTED \<noteq> 0"
    if "c \<in> set (pending_queue (td_devq td))" "reg \<in> set (registration_list r)" "reg_iid reg \<noteq> who" "rg_key reg = sak"
      "ctio_iid (dq_ccbs (td_devq td) c) = reg_iid reg" for c reg ty
    by (rule preempt_devq_abort [where reg = reg]) (use that v assms(1,3) in blast)+
  then show ?thesis unfolding go using assms(3) by (auto simp: r' take_reservation_def simp del: prod.inject)
qed


definition sample_two_registered :: tdisk where
  "sample_two_registered = pr_do sample_reserved (pr_cmd 2 0 0 0 6)"

lemma sample_two_registered_resv:
  "reservation sample_two_registered = (reservation sample_reserved)\<lparr>generation := 2,
     registration_list := \<lparr>rg_key = 6, rg_i_prt = (2, 0), rg_t_prt = (0, 0), rg_r_prt = 0, rg_init_int = 3, rg_init_name = []\<rparr> #
       registration_list (reservation sample_reserved)\<rparr>"
  by code_simp

lemma pr_cmd_keys:
  "be_read (the (data_ptr (pr_cmd 2 4 3 6 5))) 0 8 = 6" "be_read (the (data_ptr (pr_cmd 2 4 3 6 5))) 8 8 = 5"
  by code_simp+

theorem preempt_takes_over_witness:
  "rv_i_prt (reservation (snd (persistent_reservation_handle_preempt no_mirror sample_two_registered (pr_cmd 2 4 3 6 5) False))) = (2, 0) \<and>
   length (registration_list (reservation (snd (persistent_reservation_handle_preempt no_mirror sample_two_registered
     (pr_cmd 2 4 3 6 5) False)))) = 1"
proof -
  have "list_ex (\<lambda>x. reg_iid x = ctio_iid (pr_cmd 2 4 3 6 5) \<and> rg_key x = be_read (the (data_ptr (pr_cmd 2 4 3 6 5))) 0 8)
      (registration_list (reservation sample_two_registered))"
    by (simp add: pr_cmd_keys sample_two_registered_resv) (simp add: pr_cmd_def)
  from preempt_takes_over [OF refl refl refl refl refl this, of no_mirror False] show ?thesis
    unfolding pr_cmd_keys sample_two_registered_resv
    by (simp add: sample_reserved_resv in_persistent_ar_type_def) (simp add: pr_cmd_def)
qed

end
