(* ===== verification/ReplicaProps.thy ===== *)
theory ReplicaProps
  imports ReservationProps
begin

text \<open>
  The copy of a disk's reservation on the other node. Every change is followed by messages; a node
  that applies them in order holds the same reservation and registrations, iSCSI names apart,
  with one exception: a message about a changed key makes it forget the registration.
\<close>

unbundle bit_operations_syntax

section \<open>The contract of a replicated state\<close>

locale replicated =
  fixes step :: "'s \<Rightarrow> 's \<Rightarrow> bool"
    and sent :: "'s \<Rightarrow> 'm list"
    and recv :: "'m \<Rightarrow> 'p \<Rightarrow> 'p"
    and agrees :: "'s \<Rightarrow> 'p \<Rightarrow> bool"
  assumes follows: "step s s' \<Longrightarrow> agrees s (fold recv (sent s) p) \<Longrightarrow> agrees s' (fold recv (sent s') p)"
begin

lemma run_follows: "step\<^sup>*\<^sup>* s s' \<Longrightarrow> agrees s (fold recv (sent s) p) \<Longrightarrow> agrees s' (fold recv (sent s') p)"
  by (induction rule: rtranclp_induct) (auto dest: follows)

end

section \<open>The peer\<close>

definition strip :: "registration \<Rightarrow> registration" where
  "strip reg = reg\<lparr>rg_init_name := []\<rparr>"

definition replica :: "reservation \<Rightarrow> reservation \<Rightarrow> bool" where
  "replica r p \<longleftrightarrow> p = r\<lparr>registration_list := map strip (registration_list r)\<rparr>"

abbreviation peer :: "reservation \<Rightarrow> tdisk \<Rightarrow> reservation" where
  "peer p td \<equiv> fold node_sync_recv (outbox td) p"

abbreviation peer_list :: "reservation \<Rightarrow> tdisk \<Rightarrow> registration list" where
  "peer_list p td \<equiv> registration_list (peer p td)"

lemma copy_fill: "reservation_spec_copy p (reservation_spec_fill r) = r\<lparr>registration_list := registration_list p\<rparr>"
  by (cases r) (simp add: reservation_spec_copy_def reservation_spec_fill_def)

lemma strip_iid [simp]: "rg_i_prt (strip x) = rg_i_prt x" "rg_t_prt (strip x) = rg_t_prt x" "rg_init_int (strip x) = rg_init_int x"
  by (simp_all add: strip_def)

lemma remove_first_map: "(\<And>x. Q (f x) = P x) \<Longrightarrow> remove_first Q (map f xs) = map f (remove_first P xs)"
  by (induction xs) auto

lemma peer_send: "sync_enabled td \<Longrightarrow> peer p (send_msg m td) = node_sync_recv m (peer p td)"
  by (simp add: resv_frame)

lemma peer_reservation_sync:
  assumes "sync_enabled td" "peer_list p td = map strip (registration_list (reservation td))"
  shows "replica (reservation (node_reservation_sync_send td)) (peer p (node_reservation_sync_send td))"
  using assms unfolding node_reservation_sync_send_def replica_def
  by (simp add: resv_frame node_sync_recv_def node_reservation_sync_recv_def copy_fill)

lemma peer_add:
  assumes "sync_enabled td" "registration_list (reservation td) = reg # l" "peer_list p td = map strip l"
  shows "replica (reservation (node_registration_sync_send reg REGISTRATION_OP_ADD td))
     (peer p (node_registration_sync_send reg REGISTRATION_OP_ADD td))"
  using assms unfolding node_registration_sync_send_def replica_def
  by (simp add: resv_frame node_sync_recv_def node_registration_sync_recv_def registration_spec_add_def copy_fill)
    (simp add: strip_def)

lemma peer_delete:
  assumes "sync_enabled td"
  shows "peer_list p (node_registration_sync_send reg REGISTRATION_OP_DELETE td) =
     remove_first (\<lambda>x. reg_iid x = reg_iid reg) (peer_list p td)"
  using assms unfolding node_registration_sync_send_def
  by (simp add: resv_frame node_sync_recv_def node_registration_sync_recv_def registration_spec_remove_def copy_fill)

lemma peer_clear:
  assumes "sync_enabled td" "registration_list (reservation td) = []"
  shows "replica (reservation (node_registration_clear_sync_send td)) (peer p (node_registration_clear_sync_send td))"
  using assms unfolding node_registration_clear_sync_send_def replica_def
  by (simp add: resv_frame node_sync_recv_def node_registration_clear_sync_recv_def registration_spec_clear_def copy_fill)

lemma peer_sense [simp]: "peer p (node_istate_sense_state_send td) = peer p td"
  by (simp add: node_istate_sense_state_send_def Let_def resv_frame node_sync_recv_def)

lemma peer_attention [simp]: "peer p (registrants_unit_attention a who td) = peer p td"
  by (simp add: registrants_unit_attention_def Let_def resv_frame)

lemma peer_preempt:
  "sync_enabled td \<Longrightarrow> peer_list p (fold (preempt_one abort) vs td) =
     fold (\<lambda>v. remove_first (\<lambda>x. reg_iid x = reg_iid v)) vs (peer_list p td)"
  by (induction vs arbitrary: td) (simp_all add: preempt_one_def Let_def resv_frame peer_delete del: prod.inject)


section \<open>Every action but a key change\<close>

lemma bump_and_sync_follows:
  assumes "sync_enabled td" "peer_list p td = map strip (registration_list (reservation td))"
  shows "replica (reservation (bump_and_sync td)) (peer p (bump_and_sync td))"
  unfolding bump_and_sync_def by (rule peer_reservation_sync) (use assms in simp_all)

lemma replica_list: "replica r p \<Longrightarrow> registration_list p = map strip (registration_list r)"
  by (simp add: replica_def)

lemma unregister_follows:
  assumes "sync_enabled td" "replica (reservation td) (peer p td)" "reg_iid tmp = ctio_iid ctio"
  shows "replica (reservation (reregister ctio tmp 0 td)) (peer p (reregister ctio tmp 0 td))"
proof -
  let ?mine = "\<lambda>x. reg_iid x = ctio_iid ctio"
  let ?td1 = "td\<lparr>reservation := (reservation td)\<lparr>registration_list := remove_first ?mine (registration_list (reservation td))\<rparr>\<rparr>"
  let ?td2 = "persistent_reservation_remove_registration tmp ?td1"
  have l: "registration_list (reservation ?td2) = remove_first ?mine (registration_list (reservation td))"
    by (simp add: remove_registration_resv Let_def persistent_reservation_reset_def)
  have s: "sync_enabled ?td2"
    using assms(1) by (simp add: persistent_reservation_remove_registration_def Let_def resv_frame)
  have "peer_list p ?td2 = remove_first (\<lambda>x. reg_iid x = reg_iid tmp) (peer_list p td)"
    using assms(1) by (simp add: persistent_reservation_remove_registration_def Let_def peer_delete resv_frame del: prod.inject)
  also have "\<dots> = map strip (remove_first ?mine (registration_list (reservation td)))"
    unfolding replica_list [OF assms(2)] assms(3) by (rule remove_first_map) simp
  finally have "replica (reservation (bump_and_sync ?td2)) (peer p (bump_and_sync ?td2))"
    by (intro bump_and_sync_follows [OF s]) (simp only: l)
  then show ?thesis by (simp add: reregister_def)
qed

lemma add_registration_follows:
  assumes "sync_enabled td" "replica (reservation td) (peer p td)"
  shows "replica (reservation (add_registration ctio k td)) (peer p (add_registration ctio k td))"
  unfolding add_registration_def Let_def
  by (rule peer_add) (use assms replica_list [OF assms(2)] in simp_all)

lemma remove_all_filter:
  assumes "distinct (map k xs)"
  shows "fold (\<lambda>v. remove_first (\<lambda>x. k x = k v)) (filter V xs) xs = filter (\<lambda>x. \<not> V x) xs"
proof -
  have "fold (\<lambda>v. remove_first (\<lambda>x. k x = k v)) vs ys = filter (\<lambda>x. k x \<notin> k ` set vs) ys"
    if "distinct (map k ys)" for vs ys
    using that
  proof (induction vs arbitrary: ys)
    case (Cons v vs)
    have "remove_first (\<lambda>x. k x = k v) ys = filter (\<lambda>x. k x \<noteq> k v) ys"
      using remove_first_filter_distinct [OF Cons.prems, of "\<lambda>x. k x = k v"] by simp
    with Cons.IH [of "filter (\<lambda>x. k x \<noteq> k v) ys"] Cons.prems show ?case
      by (simp add: distinct_map_filter conj_commute)
  qed simp
  moreover have "k x \<in> k ` set (filter V xs) \<longleftrightarrow> V x" if "x \<in> set xs" for x
    using assms that by (auto simp: distinct_map dest: inj_onD)
  ultimately show ?thesis using assms by (simp cong: filter_cong)
qed

lemma fold_remove_map:
  "fold (\<lambda>v. remove_first (\<lambda>x. reg_iid x = reg_iid v)) vs (map strip xs) =
   map strip (fold (\<lambda>v. remove_first (\<lambda>x. reg_iid x = reg_iid v)) vs xs)"
  by (induction vs arbitrary: xs) (simp_all add: remove_first_map [where P = "\<lambda>x. reg_iid x = reg_iid v" for v])

lemma preempt_follows:
  assumes "sync_enabled td" "replica (reservation td) (peer p td)" "distinct (map reg_iid (registration_list (reservation td)))"
  shows "replica (reservation (preempt_registrations ctio key sak type abort td))
     (peer p (preempt_registrations ctio key sak type abort td))"
proof -
  let ?r = "reservation td"
  define v where "v = preempt_victim (ctio_iid ctio) (in_persistent_ar_type ?r) sak"
  have "fold (\<lambda>v. remove_first (\<lambda>x. reg_iid x = reg_iid v)) (filter v (registration_list ?r)) (map strip (registration_list ?r)) =
      map strip (filter (\<lambda>x. \<not> v x) (registration_list ?r))"
    unfolding fold_remove_map remove_all_filter [OF assms(3)] ..
  then show ?thesis
    unfolding preempt_registrations_def Let_def v_def [symmetric]
    by (intro bump_and_sync_follows; cases "filter v (registration_list ?r) = []")
      (use assms(1) in \<open>simp_all add: resv_frame peer_preempt replica_list [OF assms(2)] take_reservation_def del: prod.inject\<close>)
qed


lemma sync_enabled_out [resv_frame]:
  "sync_enabled (bump_and_sync td) = sync_enabled td" "sync_enabled (add_registration ctio k td) = sync_enabled td"
  "sync_enabled (persistent_reservation_remove_registration reg td) = sync_enabled td"
  by (simp_all add: bump_and_sync_def add_registration_def persistent_reservation_remove_registration_def Let_def resv_frame)

lemma sync_enabled_out2 [resv_frame]:
  "sync_enabled (reregister ctio tmp k td) = sync_enabled td"
  "sync_enabled (preempt_registrations ctio key sak type abort td) = sync_enabled td"
  by (simp_all add: reregister_def preempt_registrations_def Let_def resv_frame)

text \<open>A service action that gives a registered initiator another key.\<close>

definition key_change :: "tdisk \<Rightarrow> qsio_scsiio \<Rightarrow> bool" where
  "key_change td ctio \<longleftrightarrow> cdb8 ctio 1 AND 0x1F \<in> {0, 6} \<and> param_service_action_key ctio \<noteq> 0 \<and>
     list_ex (\<lambda>x. reg_iid x = ctio_iid ctio) (registration_list (reservation td))"

lemma register_follows:
  assumes "sync_enabled td" "replica (reservation td) (peer p td)"
    "persistent_reservation_handle_register env td ctio = (ctio', td')"
    "param_service_action_key ctio \<noteq> 0 \<Longrightarrow> \<not> list_ex (\<lambda>x. reg_iid x = ctio_iid ctio) (registration_list (reservation td))"
  shows "replica (reservation td') (peer p td')"
proof -
  obtain retval c where m: "tdisk_mirror_cmd_generic_nocheck env ctio = (retval, c)"
    by (cases "tdisk_mirror_cmd_generic_nocheck env ctio")
  show ?thesis
  proof (cases "find (\<lambda>x. reg_iid x = ctio_iid ctio) (registration_list (reservation td))")
    case None
    with assms(1-3) add_registration_follows [OF assms(1,2), of c] bump_and_sync_follows [OF assms(1) replica_list [OF assms(2)]]
    show ?thesis unfolding persistent_reservation_handle_register_def m by (auto simp: Let_def split: if_splits)
  next
    case (Some tmp)
    then have "param_service_action_key ctio = 0" "reg_iid tmp = ctio_iid c"
      using assms(4) find_registered [OF Some] mirror_cmd_iid [OF m] by (blast, metis)
    with Some assms(2,3) unregister_follows [OF assms(1,2), of tmp c] show ?thesis
      unfolding persistent_reservation_handle_register_def m by (auto simp: Let_def split: if_splits)
  qed
qed


lemma register_and_ignore_follows:
  assumes "sync_enabled td" "replica (reservation td) (peer p td)"
    "persistent_reservation_handle_register_and_ignore env td ctio = (ctio', td')"
    "param_service_action_key ctio \<noteq> 0 \<Longrightarrow> \<not> list_ex (\<lambda>x. reg_iid x = ctio_iid ctio) (registration_list (reservation td))"
  shows "replica (reservation td') (peer p td')"
proof -
  obtain retval c where m: "tdisk_mirror_cmd_generic_nocheck env ctio = (retval, c)"
    by (cases "tdisk_mirror_cmd_generic_nocheck env ctio")
  show ?thesis
  proof (cases "find (\<lambda>x. reg_iid x = ctio_iid ctio) (registration_list (reservation td))")
    case None
    with assms(1-3) add_registration_follows [OF assms(1,2), of c] bump_and_sync_follows [OF assms(1) replica_list [OF assms(2)]]
    show ?thesis unfolding persistent_reservation_handle_register_and_ignore_def m by (auto simp: Let_def split: if_splits)
  next
    case (Some tmp)
    then have "param_service_action_key ctio = 0" "reg_iid tmp = ctio_iid c"
      using assms(4) find_registered [OF Some] mirror_cmd_iid [OF m] by (blast, metis)
    with Some assms(2,3) unregister_follows [OF assms(1,2), of tmp c] show ?thesis
      unfolding persistent_reservation_handle_register_and_ignore_def m by (auto simp: Let_def split: if_splits)
  qed
qed

lemma on_resv_sync_follows:
  assumes "sync_enabled td" "replica (reservation td) (peer p td)"
    "registration_list (f (reservation td)) = registration_list (reservation td)"
    "td1 = td\<lparr>reservation := f (reservation td)\<rparr>"
  shows "replica (reservation (node_reservation_sync_send td1)) (peer p (node_reservation_sync_send td1))"
  by (rule peer_reservation_sync) (use assms replica_list [OF assms(2)] in simp_all)

lemma reserve_follows:
  assumes "sync_enabled td" "replica (reservation td) (peer p td)"
    "persistent_reservation_handle_reserve env td ctio = (ctio', td')"
  shows "replica (reservation td') (peer p td')"
proof -
  obtain retval c where m: "tdisk_mirror_cmd_generic_nocheck env ctio = (retval, c)"
    by (cases "tdisk_mirror_cmd_generic_nocheck env ctio")
  have "replica (reservation (node_reservation_sync_send (on_resv (\<lambda>r. take_reservation c k type (r\<lparr>is_reserved := True\<rparr>)) td)))
      (peer p (node_reservation_sync_send (on_resv (\<lambda>r. take_reservation c k type (r\<lparr>is_reserved := True\<rparr>)) td)))" for k type
    by (rule on_resv_sync_follows [OF assms(1,2) _ refl]) (simp add: take_reservation_def)
  with assms(2,3) show ?thesis
    unfolding persistent_reservation_handle_reserve_def m Let_def by (auto split: if_splits)
qed

lemma release_follows:
  assumes "sync_enabled td" "replica (reservation td) (peer p td)"
    "persistent_reservation_handle_release env td ctio = (ctio', td')"
  shows "replica (reservation td') (peer p td')"
proof -
  obtain retval c where m: "tdisk_mirror_cmd_generic_nocheck env ctio = (retval, c)"
    by (cases "tdisk_mirror_cmd_generic_nocheck env ctio")
  have "replica (reservation (node_reservation_sync_send (on_resv persistent_reservation_reset u)))
      (peer p (node_reservation_sync_send (on_resv persistent_reservation_reset u)))"
    if "sync_enabled u" "replica (reservation u) (peer p u)" for u
    by (rule on_resv_sync_follows [OF that _ refl]) (simp add: persistent_reservation_reset_def)
  from this [of td] this [of "registrants_unit_attention RESERVATIONS_RELEASED (ctio_iid c) td"] assms show ?thesis
    unfolding persistent_reservation_handle_release_def m Let_def
    by (auto simp: resv_frame split: if_splits)
qed

lemma clear_follows:
  assumes "sync_enabled td" "replica (reservation td) (peer p td)"
    "persistent_reservation_handle_clear env td ctio = (ctio', td')"
  shows "replica (reservation td') (peer p td')"
proof -
  obtain retval c where m: "tdisk_mirror_cmd_generic_nocheck env ctio = (retval, c)"
    by (cases "tdisk_mirror_cmd_generic_nocheck env ctio")
  have "replica (reservation (node_registration_clear_sync_send (on_resv (\<lambda>r. (persistent_reservation_reset
        (r\<lparr>registration_list := []\<rparr>))\<lparr>generation := generation r + 1\<rparr>) u)))
      (peer p (node_registration_clear_sync_send (on_resv (\<lambda>r. (persistent_reservation_reset
        (r\<lparr>registration_list := []\<rparr>))\<lparr>generation := generation r + 1\<rparr>) u)))"
    if "sync_enabled u" for u
    by (rule peer_clear) (use that in \<open>simp_all add: persistent_reservation_reset_def\<close>)
  from this [of "registrants_unit_attention RESERVATIONS_PREEMPTED (ctio_iid c) td"] assms show ?thesis
    unfolding persistent_reservation_handle_clear_def m Let_def
    by (auto simp: resv_frame split: if_splits)
qed

lemma handle_preempt_follows:
  assumes "sync_enabled td" "replica (reservation td) (peer p td)" "distinct (map reg_iid (registration_list (reservation td)))"
    "persistent_reservation_handle_preempt env td ctio abort = (ctio', td')"
  shows "replica (reservation td') (peer p td')"
proof -
  obtain retval c where m: "tdisk_mirror_cmd_generic_nocheck env ctio = (retval, c)"
    by (cases "tdisk_mirror_cmd_generic_nocheck env ctio")
  from assms(2,4) preempt_follows [OF assms(1-3)] show ?thesis
    unfolding persistent_reservation_handle_preempt_def m Let_def by (auto split: if_splits)
qed


lemma sync_enabled_handlers:
  "sync_enabled (snd (persistent_reservation_handle_register env td ctio)) = sync_enabled td"
  "sync_enabled (snd (persistent_reservation_handle_register_and_ignore env td ctio)) = sync_enabled td"
  "sync_enabled (snd (persistent_reservation_handle_reserve env td ctio)) = sync_enabled td"
  "sync_enabled (snd (persistent_reservation_handle_release env td ctio)) = sync_enabled td"
  "sync_enabled (snd (persistent_reservation_handle_clear env td ctio)) = sync_enabled td"
  "sync_enabled (snd (persistent_reservation_handle_preempt env td ctio abort)) = sync_enabled td"
  unfolding persistent_reservation_handle_register_def persistent_reservation_handle_register_and_ignore_def
    persistent_reservation_handle_reserve_def persistent_reservation_handle_release_def
    persistent_reservation_handle_clear_def persistent_reservation_handle_preempt_def
  by (simp_all add: Let_def resv_frame split: option.splits prod.splits)

lemma out_follows:
  assumes "sync_enabled td" "replica (reservation td) (peer p td)" "resv_inv (reservation td)" "\<not> key_change td ctio"
    "tdisk_cmd_persistent_reserve_out env td ctio = (ctio', td')"
  shows "sync_enabled td' \<and> replica (reservation td') (peer p td')"
proof -
  let ?a = "cdb8 ctio 1 AND 0x1F"
  have nk: "\<not> list_ex (\<lambda>x. reg_iid x = ctio_iid ctio) (registration_list (reservation td))"
    if "?a = 0 \<or> ?a = 6" "param_service_action_key ctio \<noteq> 0"
    using assms(4) that unfolding key_change_def by blast
  note follows = register_follows [OF assms(1,2) prod.collapse [symmetric] nk]
    register_and_ignore_follows [OF assms(1,2) prod.collapse [symmetric] nk]
    reserve_follows [OF assms(1,2) prod.collapse [symmetric]] release_follows [OF assms(1,2) prod.collapse [symmetric]]
    clear_follows [OF assms(1,2) prod.collapse [symmetric]]
    handle_preempt_follows [OF assms(1,2) resv_invD(1) [OF assms(3)] prod.collapse [symmetric]]
  show ?thesis
  proof (cases "drop_bit 4 (cdb8 ctio 2) AND 0xF \<noteq> 0 \<or> cdb32 ctio 5 \<noteq> 24")
    case True
    with assms(1,2,5) show ?thesis unfolding tdisk_cmd_persistent_reserve_out_def Let_def by (auto split: if_splits)
  next
    case False
    consider "?a = 0" | "?a = 6" | "?a = 1" | "?a = 2" | "?a = 3" | "?a = 4" | "?a = 5" | "?a \<notin> {0, 1, 2, 3, 4, 5, 6}" by blast
    then show ?thesis
      using False assms(1,2,5) follows sync_enabled_handlers unfolding tdisk_cmd_persistent_reserve_out_def Let_def
      by cases (auto simp: case_prod_unfold)
  qed
qed


section \<open>Runs\<close>

inductive sync_step :: "tdisk \<Rightarrow> tdisk \<Rightarrow> bool" where
  pr_out: "tdisk_cmd_persistent_reserve_out env td ctio = (ctio', td') \<Longrightarrow> \<not> key_change td ctio \<Longrightarrow> sync_step td td'"
| reserve: "tdisk_cmd_reserve td ctio = (ctio', td') \<Longrightarrow> sync_step td td'"
| release: "tdisk_cmd_release td ctio = (ctio', td') \<Longrightarrow> sync_step td td'"

definition in_step :: "tdisk \<Rightarrow> reservation \<Rightarrow> bool" where
  "in_step td p \<longleftrightarrow> sync_enabled td \<and> resv_inv (reservation td) \<and> replica (reservation td) p"

lemma sync_step_follows:
  assumes "sync_step td td'" "in_step td (peer p td)"
  shows "in_step td' (peer p td')"
  using assms(1)
proof cases
  case (pr_out env ctio ctio')
  with assms(2) out_follows [of td p ctio env ctio' td'] persistent_reserve_out_inv [OF pr_out(1)] show ?thesis
    by (simp add: in_step_def)
next
  case (reserve ctio ctio')
  let ?f = "\<lambda>r. r\<lparr>is_reserved := True, rv_type := RESERVATION_TYPE_RESERVE, rv_i_prt := i_prt ctio,
      rv_t_prt := t_prt ctio, rv_init_int := init_int ctio\<rparr>"
  have s: "sync_enabled td" "replica (reservation td) (peer p td)" using assms(2) by (auto simp: in_step_def)
  from on_resv_sync_follows [OF s _ refl, of ?f] cmd_reserve_inv [OF reserve] reserve assms(2) show ?thesis
    unfolding tdisk_cmd_reserve_def in_step_def by (cases "tdisk_cmd_access_ok (reservation td) ctio") (auto simp: resv_frame)
next
  case (release ctio ctio')
  have s: "sync_enabled td" "replica (reservation td) (peer p td)" using assms(2) by (auto simp: in_step_def)
  from on_resv_sync_follows [OF s _ refl, of "\<lambda>r. r\<lparr>is_reserved := False\<rparr>"] cmd_release_inv [OF release] release assms(2)
  show ?thesis
    unfolding tdisk_cmd_release_def in_step_def by (cases "resv_iid (reservation td) = ctio_iid ctio") (auto simp: resv_frame)
qed

interpretation node_copy: replicated sync_step outbox node_sync_recv in_step
  by unfold_locales (rule sync_step_follows)

section \<open>Properties\<close>

text \<open>
  C12. A node that starts with the same reservation and applies the messages sent for any
  sequence of commands, changes of a registered key aside, ends with the same reservation
  and the same registrations in the same order; only the iSCSI names are lost.
\<close>

theorem reservation_replica_follows:
  assumes "sync_step\<^sup>*\<^sup>* td td'" "sync_enabled td" "fresh_disk td" "outbox td = []"
  shows "fold node_sync_recv (outbox td') (reservation td) =
     (reservation td')\<lparr>registration_list := map (\<lambda>reg. reg\<lparr>rg_init_name := []\<rparr>) (registration_list (reservation td'))\<rparr>"
proof -
  have "in_step td (fold node_sync_recv (outbox td) (reservation td))"
    using assms(2-4) by (simp add: in_step_def fresh_disk_def resv_inv_def replica_def)
  from node_copy.run_follows [OF assms(1) this] show ?thesis by (simp add: in_step_def replica_def strip_def [abs_def])
qed

theorem reservation_replica_follows_witness:
  "fold node_sync_recv (outbox sample_reserved) (reservation sample_disk) = reservation sample_reserved"
proof -
  have "sync_step sample_disk (pr_do sample_disk (pr_cmd 1 0 0 0 5))"
    by (rule sync_step.pr_out [OF prod.collapse [symmetric]]) code_simp
  moreover have "sync_step (pr_do sample_disk (pr_cmd 1 0 0 0 5)) sample_reserved"
    unfolding sample_reserved_def by (rule sync_step.pr_out [OF prod.collapse [symmetric]]) code_simp
  ultimately have "sync_step\<^sup>*\<^sup>* sample_disk sample_reserved" by simp
  from reservation_replica_follows [OF this] show ?thesis
    by (simp add: sample_disk_def fresh_disk_def sample_reserved_resv)
qed

text \<open>
  C30. A key change is not replicated: when a registered initiator registers another key, this node
  keeps the registration under the new key while the other node, on receiving the messages,
  drops the initiator's registration.
\<close>

theorem key_change_lost_on_peer:
  assumes "sync_enabled td" "replica (reservation td) (fold node_sync_recv (outbox td) p)" "resv_inv (reservation td)"
    "list_ex (\<lambda>x. reg_iid x = ctio_iid ctio) (registration_list (reservation td))"
    "be_read (the (data_ptr ctio)) 8 8 = k" "k \<noteq> 0" "\<not> mirroring_configured env"
    "td' = snd (persistent_reservation_handle_register_and_ignore env td ctio)"
  shows "list_ex (\<lambda>x. reg_iid x = ctio_iid ctio \<and> rg_key x = k) (registration_list (reservation td')) \<and>
    \<not> list_ex (\<lambda>x. reg_iid x = ctio_iid ctio) (registration_list (fold node_sync_recv (outbox td') p))"
proof -
  let ?mine = "\<lambda>x. reg_iid x = ctio_iid ctio"
  let ?l = "registration_list (reservation td)"
  obtain tmp where f: "find ?mine ?l = Some tmp" using assms(4) by (cases "find ?mine ?l") (auto simp: find_None_list_ex)
  then have "reg_iid tmp = ctio_iid ctio" using find_registered by blast
  define td1 where "td1 = on_resv (\<lambda>r. persistent_reservation_update_key
      (r\<lparr>registration_list := update_first ?mine (\<lambda>x. x\<lparr>rg_key := k\<rparr>) (registration_list r)\<rparr>) ctio k) td"
  define td2 where "td2 = node_registration_sync_send (tmp\<lparr>rg_key := k\<rparr>) REGISTRATION_OP_MODIFY td1"
  have td': "td' = bump_and_sync td2"
    using assms(5-8) f by (simp add: persistent_reservation_handle_register_and_ignore_def tdisk_mirror_cmd_generic_nocheck_def
        Let_def reregister_def td1_def td2_def)
  have s1: "sync_enabled td1" "outbox td1 = outbox td" using assms(1) by (simp_all add: td1_def)
  have pl: "peer_list p td2 = remove_first ?mine (map strip ?l)"
    using s1 replica_list [OF assms(2)] \<open>reg_iid tmp = ctio_iid ctio\<close> unfolding td2_def node_registration_sync_send_def
    by (simp add: resv_frame node_sync_recv_def node_registration_sync_recv_def registration_spec_remove_def copy_fill)
  have "peer_list p td' = peer_list p td2"
    using s1 unfolding td' bump_and_sync_def node_reservation_sync_send_def td2_def
    by (simp add: resv_frame node_sync_recv_def node_reservation_sync_recv_def copy_fill)
  moreover have "remove_first ?mine (map strip ?l) = filter (\<lambda>x. \<not> ?mine x) (map strip ?l)"
    by (rule remove_first_filter_distinct [where k = reg_iid and c = "ctio_iid ctio"])
      (use resv_invD(1) [OF assms(3)] in \<open>simp_all add: o_def\<close>)
  ultimately have "\<not> list_ex ?mine (peer_list p td')" by (simp add: pl list_ex_iff)
  moreover have "list_ex (\<lambda>x. ?mine x \<and> rg_key x = k) (registration_list (reservation td'))"
  proof -
    have "registration_list (reservation td') = update_first ?mine (\<lambda>x. x\<lparr>rg_key := k\<rparr>) ?l"
      by (simp add: td' bump_and_sync_def td2_def td1_def resv_frame persistent_reservation_update_key_def)
    then show ?thesis using update_first_ex_hit [OF assms(4), of "\<lambda>x. ?mine x \<and> rg_key x = k"] by simp
  qed
  ultimately show ?thesis by blast
qed


lemma pr_rekey: "be_read (the (data_ptr (pr_cmd 1 6 0 0 9))) 8 8 = 9"
  by code_simp

theorem key_change_lost_on_peer_witness:
  "\<not> list_ex (\<lambda>x. reg_iid x = ((1, 0), (0, 0), 3)) (registration_list (fold node_sync_recv
     (outbox (snd (persistent_reservation_handle_register_and_ignore no_mirror sample_reserved (pr_cmd 1 6 0 0 9))))
     (reservation sample_disk)))"
proof -
  have s: "sync_enabled sample_reserved" by code_simp
  have "fold node_sync_recv (outbox sample_reserved) (reservation sample_disk) = reservation sample_reserved" by code_simp
  then have rep: "replica (reservation sample_reserved) (fold node_sync_recv (outbox sample_reserved) (reservation sample_disk))"
    by (simp add: replica_def sample_reserved_resv strip_def)
  have inv: "resv_inv (reservation sample_reserved)"
    by (simp add: sample_reserved_resv resv_inv_def has_registration_def)
  have reg: "list_ex (\<lambda>x. reg_iid x = ctio_iid (pr_cmd 1 6 0 0 9)) (registration_list (reservation sample_reserved))"
    by (simp add: sample_reserved_resv pr_cmd_def)
  from key_change_lost_on_peer [OF s rep inv reg pr_rekey _ _ refl, of no_mirror] show ?thesis
    by (simp add: pr_cmd_def)
qed

text \<open>
  C29. Resynchronising a mirror gives the peer the same reservation and the same registrations, in
  reverse order and without iSCSI names, whatever it held before; a reservation made by
  RESERVE is dropped there, with only its generation kept.
\<close>

theorem mirror_resync_copies:
  "let p = tdisk_mirror_sync_reservations blank r old
   in registration_list p = rev (map (\<lambda>reg. reg\<lparr>rg_init_name := []\<rparr>) (registration_list r)) \<and> generation p = generation r \<and>
      (if is_reserved r \<and> rv_type r \<noteq> RESERVATION_TYPE_PERSISTENT then \<not> is_reserved p
       else p = r\<lparr>registration_list := registration_list p\<rparr>)"
proof -
  have f: "registration_list (fold (\<lambda>reg p. registration_spec_add p (tdisk_mirror_registration_spec blank reg)) l p) =
      rev (map (\<lambda>reg. reg\<lparr>rg_init_name := []\<rparr>) l) @ registration_list p" for l p
    by (induction l arbitrary: p)
      (auto simp: registration_spec_add_def tdisk_mirror_registration_spec_def reservation_spec_copy_def)
  show ?thesis
    unfolding tdisk_mirror_sync_reservations_def Let_def tdisk_mirror_reservation_spec_def
    by (auto simp: copy_fill f) (simp_all add: reservation_spec_copy_def f)
qed

end
