(* ===== verification/Lzf.thy ===== *)
theory Lzf
  imports Layout
begin

text \<open>
  The LZF compression of data blocks (\<^verbatim>\<open>core/lzf_c.c\<close>, \<^verbatim>\<open>core/lzf_d.c\<close>) in the configuration
  \<^verbatim>\<open>core/lzfP.h\<close> selects: VERY_FAST, offsets in the hash table, an uninitialised table passed by the
  caller, checked input. Pointers are offsets into the buffers. A write outside the output buffer or a
  read outside the compressed data is the result \<open>Lzf_fault\<close>; \<open>Lzf_zero\<close> is the return value 0.
\<close>

unbundle bit_operations_syntax

abbreviation (input) MAX_LIT :: nat where "MAX_LIT \<equiv> 32"
abbreviation (input) MAX_OFF :: nat where "MAX_OFF \<equiv> 8192"
abbreviation (input) MAX_REF :: nat where "MAX_REF \<equiv> 264"
abbreviation (input) HLOG :: nat where "HLOG \<equiv> 13"

datatype lzf_result = Lzf_fault | Lzf_zero | Lzf_ok "u8 list"

section \<open>Compression\<close>

definition FRST :: "u8 list \<Rightarrow> nat \<Rightarrow> u32" where
  "FRST xs p = push_bit 8 (ucast (xs ! p)) OR ucast (xs ! (p + 1))"

definition NEXT :: "u32 \<Rightarrow> u8 list \<Rightarrow> nat \<Rightarrow> u32" where
  "NEXT v xs p = push_bit 8 v OR ucast (xs ! (p + 2))"

definition IDX :: "u32 \<Rightarrow> nat" where
  "IDX h = unat ((drop_bit (3 * 8 - HLOG) h - h * 5) AND (2 ^ HLOG - 1))"

text \<open>The compressor's variables; \<open>out\<close> is the output buffer.\<close>

record lzf_state =
  c_ip :: nat
  c_op :: nat
  c_lit :: nat
  c_hval :: u32
  c_htab :: "nat \<Rightarrow> u32"
  c_out :: "u8 list"

definition poke :: "nat \<Rightarrow> u8 \<Rightarrow> u8 list \<Rightarrow> u8 list option" where
  "poke i v b = (if i < length b then Some (b[i := v]) else None)"

text \<open>The unrolled comparison steps, and whether one of them found a difference.\<close>

fun match_unrolled :: "u8 list \<Rightarrow> nat \<Rightarrow> nat \<Rightarrow> nat \<Rightarrow> nat \<Rightarrow> bool \<times> nat" where
  "match_unrolled xs ref ip 0 len = (False, len)"
| "match_unrolled xs ref ip (Suc k) len =
     (let len = len + 1
      in if xs ! (ref + len) \<noteq> xs ! (ip + len) then (True, len) else match_unrolled xs ref ip k len)"

function match_more :: "u8 list \<Rightarrow> nat \<Rightarrow> nat \<Rightarrow> nat \<Rightarrow> nat \<Rightarrow> nat" where
  "match_more xs ref ip maxlen len =
     (let len = len + 1
      in if len < maxlen \<and> xs ! (ref + len) = xs ! (ip + len) then match_more xs ref ip maxlen len else len)"
  by pat_completeness auto
termination by (relation "measure (\<lambda>(xs, ref, ip, maxlen, len). maxlen - len)") auto

declare match_more.simps [simp del]

definition match_length :: "u8 list \<Rightarrow> nat \<Rightarrow> nat \<Rightarrow> nat \<Rightarrow> nat" where
  "match_length xs ref ip maxlen =
     (let (done, len) = (if maxlen > 16 then match_unrolled xs ref ip 16 2 else (False, 2))
      in if done then len else match_more xs ref ip maxlen len)"

text \<open>One round of the main loop.\<close>

datatype lzf_round = Round_fault | Round_zero | Round_break lzf_state | Round_next lzf_state

text \<open>The bytes of a back reference.\<close>

definition ref_token :: "nat \<Rightarrow> nat \<Rightarrow> u8 list" where
  "ref_token off len =
     (if len < 7 then [of_nat (drop_bit 8 off + push_bit 5 len), of_nat off]
      else [of_nat (drop_bit 8 off + push_bit 5 7), of_nat (len - 7), of_nat off])"

fun pokes :: "nat \<Rightarrow> u8 list \<Rightarrow> u8 list \<Rightarrow> u8 list option" where
  "pokes i [] b = Some b"
| "pokes i (v # vs) b = (case poke i v b of None \<Rightarrow> None | Some b \<Rightarrow> pokes (i + 1) vs b)"

text \<open>After a match the last two positions it covers are entered into the hash table.\<close>

definition lzf_refill :: "u8 list \<Rightarrow> lzf_state \<Rightarrow> lzf_round" where
  "lzf_refill xs st =
     (if c_ip st + 2 \<ge> length xs then Round_break st
      else
        (let p = c_ip st - 2;
             h = NEXT (FRST xs p) xs p;
             tab = (c_htab st)(IDX h := of_nat p);
             h = NEXT h xs (p + 1);
             tab = tab(IDX h := of_nat (p + 1))
         in Round_next (st\<lparr>c_hval := h, c_htab := tab, c_ip := p + 2\<rparr>)))"

text \<open>A match at \<open>ref\<close>: end the literal run, write the reference, start a run, refill the hash table.\<close>

definition lzf_match :: "u8 list \<Rightarrow> nat \<Rightarrow> lzf_state \<Rightarrow> lzf_round" where
  "lzf_match xs ref st =
     (let in_end = length xs;
          out_end = length (c_out st);
          off = c_ip st - ref - 1;
          undo = (if c_lit st = 0 then 1 else 0);
          maxlen = min MAX_REF (in_end - c_ip st - 2);
          op1 = c_op st - undo;
          len = match_length xs ref (c_ip st) maxlen - 2;
          token = ref_token off len
      in if c_op st + 3 + 1 \<ge> out_end \<and> op1 + 3 + 1 \<ge> out_end then Round_zero
         else case poke (c_op st - c_lit st - 1) (of_nat (c_lit st) - 1) (c_out st) of
                None \<Rightarrow> Round_fault
              | Some b \<Rightarrow>
                  (case pokes op1 token b of
                     None \<Rightarrow> Round_fault
                   | Some b \<Rightarrow> lzf_refill xs (st\<lparr>c_out := b, c_lit := 0, c_op := op1 + length token + 1,
                                               c_ip := c_ip st + 1 + (len + 1)\<rparr>)))"

text \<open>The end of a full literal run.\<close>

definition lzf_full_run :: "lzf_state \<Rightarrow> lzf_state option" where
  "lzf_full_run st =
     (if c_lit st = MAX_LIT
      then case poke (c_op st - c_lit st - 1) (of_nat (c_lit st) - 1) (c_out st) of
             None \<Rightarrow> None
           | Some b \<Rightarrow> Some (st\<lparr>c_out := b, c_lit := 0, c_op := c_op st + 1\<rparr>)
      else Some st)"

definition lzf_literal :: "u8 list \<Rightarrow> lzf_state \<Rightarrow> lzf_state option" where
  "lzf_literal xs st =
     (case poke (c_op st) (xs ! c_ip st) (c_out st) of
        None \<Rightarrow> None
      | Some b \<Rightarrow> lzf_full_run (st\<lparr>c_out := b, c_lit := c_lit st + 1, c_op := c_op st + 1, c_ip := c_ip st + 1\<rparr>))"

definition lzf_round :: "u8 list \<Rightarrow> lzf_state \<Rightarrow> lzf_round" where
  "lzf_round xs st =
     (let h = NEXT (c_hval st) xs (c_ip st);
          ref = unat (c_htab st (IDX h));
          p = c_ip st;
          st = st\<lparr>c_hval := h, c_htab := (c_htab st)(IDX h := of_nat p)\<rparr>
      in if ref < p \<and> p - ref - 1 < MAX_OFF \<and> ref > 0 \<and> xs ! (ref + 2) = xs ! (p + 2) \<and>
            xs ! (ref + 1) = xs ! (p + 1) \<and> xs ! ref = xs ! p
         then lzf_match xs ref st
         else if c_op st \<ge> length (c_out st) then Round_zero
         else case lzf_literal xs st of None \<Rightarrow> Round_fault | Some st \<Rightarrow> Round_next st)"


lemma lzf_full_run_ip: "lzf_full_run st = Some st' \<Longrightarrow> c_ip st' = c_ip st"
  by (auto simp: lzf_full_run_def split: if_splits option.splits)

lemma lzf_refill_ip: "lzf_refill xs st = Round_next st' \<Longrightarrow> 2 \<le> c_ip st \<Longrightarrow> c_ip st' = c_ip st"
  by (auto simp: lzf_refill_def Let_def split: if_splits)

lemma lzf_match_ip: "lzf_match xs ref st = Round_next st' \<Longrightarrow> c_ip st < c_ip st'"
  unfolding lzf_match_def Let_def by (auto dest!: lzf_refill_ip split: if_splits option.splits)

lemma lzf_literal_ip: "lzf_literal xs st = Some st' \<Longrightarrow> c_ip st' = c_ip st + 1"
  by (auto simp: lzf_literal_def dest!: lzf_full_run_ip split: option.splits)

lemma lzf_round_progress:
  assumes "lzf_round xs st = Round_next st'"
  shows "c_ip st < c_ip st'"
  using assms unfolding lzf_round_def Let_def
  by (auto dest!: lzf_match_ip lzf_literal_ip split: if_splits option.splits)

function lzf_loop :: "u8 list \<Rightarrow> lzf_state \<Rightarrow> lzf_round" where
  "lzf_loop xs st =
     (if c_ip st + 2 < length xs
      then case lzf_round xs st of Round_next st \<Rightarrow> lzf_loop xs st | r \<Rightarrow> r
      else Round_break st)"
  by pat_completeness auto
termination
  by (relation "measure (\<lambda>(xs, st). length xs - c_ip st)") (auto dest!: lzf_round_progress)

declare lzf_loop.simps [simp del]

text \<open>The rest of the input is copied as literals.\<close>

function lzf_tail :: "u8 list \<Rightarrow> lzf_state \<Rightarrow> lzf_state option" where
  "lzf_tail xs st =
     (if c_ip st < length xs
      then case lzf_literal xs st of None \<Rightarrow> None | Some st \<Rightarrow> lzf_tail xs st
      else Some st)"
  by pat_completeness auto
termination
  by (relation "measure (\<lambda>(xs, st). length xs - c_ip st)")
    (auto dest!: lzf_literal_ip)

declare lzf_tail.simps [simp del]

definition lzf_compress :: "u8 list \<Rightarrow> u8 list \<Rightarrow> (nat \<Rightarrow> u32) \<Rightarrow> lzf_result" where
  "lzf_compress xs buf tab =
     (if xs = [] \<or> buf = [] then Lzf_zero
      else case lzf_loop xs \<lparr>c_ip = 0, c_op = 1, c_lit = 0, c_hval = FRST xs 0, c_htab = tab, c_out = buf\<rparr> of
             Round_break st \<Rightarrow>
               if c_op st + 3 > length buf then Lzf_zero
               else (case lzf_tail xs st of
                       None \<Rightarrow> Lzf_fault
                     | Some st \<Rightarrow>
                         (case poke (c_op st - c_lit st - 1) (of_nat (c_lit st) - 1) (c_out st) of
                            None \<Rightarrow> Lzf_fault
                          | Some b \<Rightarrow> Lzf_ok (take (c_op st - (if c_lit st = 0 then 1 else 0)) b)))
           | Round_zero \<Rightarrow> Lzf_zero
           | _ \<Rightarrow> Lzf_fault)"

section \<open>Decompression\<close>

text \<open>A copy of \<open>n\<close> octets from position \<open>ref\<close> of the output to its end, octet by octet.\<close>

fun copy_octets :: "nat \<Rightarrow> nat \<Rightarrow> u8 list \<Rightarrow> u8 list" where
  "copy_octets 0 ref out = out"
| "copy_octets (Suc n) ref out = copy_octets n (ref + 1) (out @ [out ! ref])"

text \<open>
  The copy of a back reference with length field \<open>len\<close>: for lengths above 9 a block copy when the
  areas are disjoint.
\<close>

definition copy_ref :: "nat \<Rightarrow> nat \<Rightarrow> u8 list \<Rightarrow> u8 list" where
  "copy_ref len ref out =
     (if len \<le> 9 then copy_octets (len + 2) ref out
      else if length out \<ge> ref + (len + 2) then out @ take (len + 2) (drop ref out)
      else copy_octets (len + 2) ref out)"

text \<open>One round of the decoder: the position after the token and the output.\<close>

datatype lzf_d_round = D_fault | D_zero | D_next nat "u8 list"

definition lzf_d_back :: "u8 list \<Rightarrow> nat \<Rightarrow> nat \<Rightarrow> int \<Rightarrow> nat \<Rightarrow> u8 list \<Rightarrow> lzf_d_round" where
  "lzf_d_back inp out_len len ref ip out =
     (let ref = ref - int (unat (inp ! ip));
          ip = ip + 1
      in if length out + len + 2 > out_len then D_zero
         else if ref < 0 then D_zero
         else D_next ip (copy_ref len (nat ref) out))"

definition lzf_d_step :: "u8 list \<Rightarrow> nat \<Rightarrow> nat \<Rightarrow> u8 list \<Rightarrow> lzf_d_round" where
  "lzf_d_step inp out_len ip out =
     (let in_end = length inp
      in if ip \<ge> in_end then D_fault
         else
           (let ctrl = unat (inp ! ip);
                ip = ip + 1
            in if ctrl < push_bit 5 1
               then (let ctrl = ctrl + 1
                     in if length out + ctrl > out_len then D_zero
                        else if ip + ctrl > in_end then D_zero
                        else D_next (ip + ctrl) (out @ take ctrl (drop ip inp)))
               else
                 (let len = drop_bit 5 ctrl;
                      ref = int (length out) - int (push_bit 8 (ctrl AND 0x1F)) - 1
                  in if ip \<ge> in_end then D_zero
                     else if len = 7
                     then (let len = len + unat (inp ! ip);
                               ip = ip + 1
                           in if ip \<ge> in_end then D_zero else lzf_d_back inp out_len len ref ip out)
                     else lzf_d_back inp out_len len ref ip out)))"

lemma lzf_d_step_progress: "lzf_d_step inp out_len ip out = D_next ip' out' \<Longrightarrow> ip < ip' \<and> ip < length inp"
  by (auto simp: lzf_d_step_def lzf_d_back_def Let_def split: if_splits)

function lzf_d_loop :: "u8 list \<Rightarrow> nat \<Rightarrow> nat \<Rightarrow> u8 list \<Rightarrow> lzf_result" where
  "lzf_d_loop inp out_len ip out =
     (case lzf_d_step inp out_len ip out of
        D_fault \<Rightarrow> Lzf_fault
      | D_zero \<Rightarrow> Lzf_zero
      | D_next ip out \<Rightarrow> if ip < length inp then lzf_d_loop inp out_len ip out else Lzf_ok out)"
  by pat_completeness auto
termination
  by (relation "measure (\<lambda>(inp, out_len, ip, out). length inp - ip)") (auto dest!: lzf_d_step_progress)

declare lzf_d_loop.simps [simp del]

text \<open>\<open>lzf_decompress\<close> reads its first byte before any check.\<close>

definition lzf_decompress :: "u8 list \<Rightarrow> nat \<Rightarrow> lzf_result" where
  "lzf_decompress inp out_len = lzf_d_loop inp out_len 0 []"

end
