(* ===== verification/LzfProps.thy ===== *)
theory LzfProps
  imports Lzf "HOL-Library.Code_Target_Numeral"
begin

text \<open>
  Decompressing what was compressed gives the original block, whatever the hash table held, and
  neither routine leaves its buffers.
\<close>

unbundle bit_operations_syntax

section \<open>Copying\<close>

lemma copy_octets_prefix:
  "\<forall>j < n. xs ! (ref + j) = xs ! (p + j) \<Longrightarrow> p + n \<le> length xs \<Longrightarrow> ref < p \<Longrightarrow>
   copy_octets n ref (take p xs) = take (p + n) xs"
proof (induction n arbitrary: ref p)
  case 0
  then show ?case by simp
next
  case (Suc n)
  have "xs ! ref = xs ! p" using Suc.prems(1) by (metis add_0_right zero_less_Suc)
  then have "take p xs @ [take p xs ! ref] = take (p + 1) xs"
    using Suc.prems(2,3) by (simp add: take_Suc_conv_app_nth)
  moreover have "\<forall>j < n. xs ! (ref + 1 + j) = xs ! (p + 1 + j)" using Suc.prems(1) by fastforce
  ultimately show ?case using Suc.IH [of "ref + 1" "p + 1"] Suc.prems(2,3) by simp
qed

lemma copy_octets_disjoint:
  "ref + n \<le> length out \<Longrightarrow> copy_octets n ref out = out @ take n (drop ref out)"
proof (induction n arbitrary: ref out)
  case 0
  then show ?case by simp
next
  case (Suc n)
  from Suc.IH [of "ref + 1" "out @ [out ! ref]"] Suc.prems show ?case
    by (simp add: take_Suc_conv_app_nth Cons_nth_drop_Suc [symmetric])
qed

text \<open>The block copy and the octet by octet copy agree.\<close>

lemma copy_ref_octets: "copy_ref len ref out = copy_octets (len + 2) ref out"
  using copy_octets_disjoint [of ref "len + 2" out] by (simp add: copy_ref_def)

lemma length_copy_octets [simp]: "length (copy_octets n ref out) = length out + n"
  by (induction n arbitrary: ref out) auto

section \<open>What a token stream decodes to\<close>

inductive decodes :: "u8 list \<Rightarrow> u8 list \<Rightarrow> u8 list \<Rightarrow> bool" where
  nil: "decodes [] out out"
| lit: "length bs = unat k + 1 \<Longrightarrow> unat k < 32 \<Longrightarrow> decodes cs (out @ bs) out' \<Longrightarrow> decodes (k # bs @ cs) out out'"
| ref: "off < 8192 \<Longrightarrow> 0 < len \<Longrightarrow> len \<le> 262 \<Longrightarrow> off < length out \<Longrightarrow>
    decodes cs (copy_ref len (length out - off - 1) out) out' \<Longrightarrow> decodes (ref_token off len @ cs) out out'"

lemma decodes_append: "decodes c1 a b \<Longrightarrow> decodes c2 b c \<Longrightarrow> decodes (c1 @ c2) a c"
  by (induction rule: decodes.induct) (auto intro: decodes.intros)

lemma decodes_nil_iff: "decodes [] out out' \<longleftrightarrow> out' = out"
  by (auto intro: decodes.nil elim: decodes.cases simp: ref_token_def split: if_splits)

lemma decodes_length: "decodes cs out out' \<Longrightarrow> length out \<le> length out'"
  by (induction rule: decodes.induct) (auto simp: copy_ref_octets)

lemma decodes_lit_end: "length bs = unat k + 1 \<Longrightarrow> unat k < 32 \<Longrightarrow> decodes cs a b \<Longrightarrow> decodes (cs @ k # bs) a (b @ bs)"
  using decodes_append [of cs a b "k # bs" "b @ bs"] decodes.lit [of bs k "[]" b "b @ bs"] decodes.nil by simp

lemma decodes_ref_end:
  "off < 8192 \<Longrightarrow> 0 < len \<Longrightarrow> len \<le> 262 \<Longrightarrow> off < length b \<Longrightarrow> decodes cs a b \<Longrightarrow>
   decodes (cs @ ref_token off len) a (copy_octets (len + 2) (length b - off - 1) b)"
  using decodes_append [of cs a b "ref_token off len" "copy_octets (len + 2) (length b - off - 1) b"]
    decodes.ref [of off len b "[]"] decodes.nil by (simp add: copy_ref_octets)


section \<open>The decoder follows the stream\<close>

lemma unat_u8_of_nat: "n < 256 \<Longrightarrow> unat (of_nat n :: u8) = n"
  by (simp add: unsigned_of_nat take_bit_nat_eq_self)

lemma d_step_lit:
  assumes "length bs = unat k + 1" "unat k < 32" "length out + length bs \<le> out_len"
  shows "lzf_d_step (pre @ k # bs @ cs) out_len (length pre) out = D_next (length pre + 1 + length bs) (out @ bs)"
  using assms by (simp add: lzf_d_step_def Let_def push_bit_eq_mult nth_append)

lemma and_31: "(n AND 31) = n mod 32" for n :: nat
proof -
  have "n AND mask 5 = take_bit 5 n" by (rule take_bit_eq_mask [symmetric])
  then show ?thesis by (simp add: mask_eq_exp_minus_1 take_bit_eq_mod)
qed

lemma d_back_ref:
  assumes "off < length out" "length out + len + 2 \<le> out_len" "inp ! ip = of_nat off"
    and r: "r = int (length out) - int (off div 256 * 256) - 1"
  shows "lzf_d_back inp out_len len r ip out = D_next (ip + 1) (copy_ref len (length out - off - 1) out)"
proof -
  have "unat (of_nat off :: u8) = off mod 256" by (simp add: unsigned_of_nat take_bit_eq_mod)
  moreover have "int (off div 256 * 256) + int (off mod 256) = int off" by (metis div_mult_mod_eq of_nat_add)
  ultimately have e: "r - int (unat (inp ! ip)) = int (length out - off - 1)"
    unfolding assms(3) r using assms(1) by linarith
  have "\<not> out_len < length out + len + 2" using assms(2) by linarith
  then show ?thesis unfolding lzf_d_back_def Let_def e by (simp only: if_False nat_int of_nat_less_0_iff)
qed

text \<open>The control byte of a reference holds the length field and the high bits of the offset.\<close>

lemma ref_ctrl:
  fixes q l :: nat
  assumes "q < 32" "l \<le> 7" "c = unat (of_nat (q + l * 32) :: u8)"
  shows "drop_bit 5 c = l" "push_bit 8 (c AND 0x1F) = q * 256" "0 < l \<Longrightarrow> \<not> c < push_bit 5 1"
proof -
  have c: "c = q + l * 32" unfolding assms(3) using assms(1,2) by (intro unat_u8_of_nat) linarith
  show "drop_bit 5 c = l" using assms(1) by (simp add: c drop_bit_eq_div)
  show "push_bit 8 (c AND 0x1F) = q * 256" using assms(1) by (simp add: c and_31 push_bit_eq_mult)
  show "\<not> c < push_bit 5 1" if "0 < l" using that by (simp add: c push_bit_eq_mult)
qed

lemma d_step_short:
  assumes "off < 8192" "0 < len" "len < 7" "off < length out" "length out + len + 2 \<le> out_len"
  shows "lzf_d_step (pre @ ref_token off len @ cs) out_len (length pre) out =
     D_next (length pre + 2) (copy_ref len (length out - off - 1) out)"
proof -
  define c where "c = unat (of_nat (off div 256 + len * 32) :: u8)"
  have "off div 256 < 32" using assms(1) by simp
  note ctrl = ref_ctrl [OF this _ c_def]
  define inp where "inp = pre @ ref_token off len @ cs"
  have i: "length pre + 2 \<le> length inp" "unat (inp ! length pre) = c" "inp ! (length pre + 1) = of_nat off"
    using assms(3) by (simp_all add: inp_def ref_token_def nth_append c_def drop_bit_eq_div push_bit_eq_mult del: of_nat_add of_nat_mult)
  have b: "lzf_d_back inp out_len len (int (length out) - int (off div 256 * 256) - 1) (length pre + 1) out =
      D_next (length pre + 2) (copy_ref len (length out - off - 1) out)"
    using d_back_ref [OF assms(4,5) i(3) refl] by simp
  have g: "\<not> length inp \<le> length pre" "\<not> length inp \<le> length pre + 1" "len \<le> 7" "len \<noteq> 7"
    using i(1) assms(3) by linarith+
  show ?thesis unfolding inp_def [symmetric] lzf_d_step_def Let_def i(2) ctrl(1) [OF g(3)] ctrl(2) [OF g(3)]
    using ctrl(3) [OF g(3) assms(2)] g b by simp
qed

lemma d_step_long:
  assumes "off < 8192" "7 \<le> len" "len \<le> 262" "off < length out" "length out + len + 2 \<le> out_len"
  shows "lzf_d_step (pre @ ref_token off len @ cs) out_len (length pre) out =
     D_next (length pre + 3) (copy_ref len (length out - off - 1) out)"
proof -
  define c where "c = unat (of_nat (off div 256 + 7 * 32) :: u8)"
  have "off div 256 < 32" using assms(1) by simp
  note ctrl = ref_ctrl [OF this order_refl c_def]
  define inp where "inp = pre @ ref_token off len @ cs"
  have i: "length pre + 3 \<le> length inp" "unat (inp ! length pre) = c" "inp ! (length pre + 1) = of_nat (len - 7)"
      "inp ! (length pre + 2) = of_nat off"
    using assms(2) by (simp_all add: inp_def ref_token_def nth_append c_def drop_bit_eq_div push_bit_eq_mult
        del: of_nat_add of_nat_mult of_nat_diff)
  have l: "7 + unat (of_nat (len - 7) :: u8) = len" using assms(2,3) unat_u8_of_nat [of "len - 7"] by linarith
  have b: "lzf_d_back inp out_len len (int (length out) - int (off div 256 * 256) - 1) (length pre + 2) out =
      D_next (length pre + 3) (copy_ref len (length out - off - 1) out)"
    using d_back_ref [OF assms(4,5) i(4) refl] by simp
  have g: "\<not> length inp \<le> length pre" "\<not> length inp \<le> length pre + 1" "\<not> length inp \<le> length pre + 1 + 1"
    using i(1) by linarith+
  show ?thesis unfolding inp_def [symmetric] lzf_d_step_def Let_def i(2,3) ctrl(1,2) l using ctrl(3) g b by simp
qed

lemma d_step_ref:
  assumes "off < 8192" "0 < len" "len \<le> 262" "off < length out" "length out + len + 2 \<le> out_len"
  shows "lzf_d_step (pre @ ref_token off len @ cs) out_len (length pre) out =
     D_next (length pre + length (ref_token off len)) (copy_ref len (length out - off - 1) out)"
  using d_step_short [of off len out out_len pre cs] d_step_long [of off len out out_len pre cs] assms
  by (cases "len < 7") (simp_all add: ref_token_def)

lemma decodes_run:
  "decodes cs out out' \<Longrightarrow> cs \<noteq> [] \<Longrightarrow> length out' \<le> out_len \<Longrightarrow>
   lzf_d_loop (pre @ cs) out_len (length pre) out = Lzf_ok out'"
proof (induction arbitrary: pre rule: decodes.induct)
  case (nil out)
  then show ?case by simp
next
  case (lit bs k cs out out')
  have "length (out @ bs) \<le> length out'" by (rule decodes_length [OF lit.hyps(3)])
  then have s: "lzf_d_step (pre @ k # bs @ cs) out_len (length pre) out = D_next (length pre + 1 + length bs) (out @ bs)"
    using lit.hyps(1,2) lit.prems(2) by (intro d_step_lit) simp_all
  show ?case
  proof (cases "cs = []")
    case True
    with lit.hyps(3) have "out' = out @ bs" by (simp add: decodes_nil_iff)
    with True s show ?thesis by (simp add: lzf_d_loop.simps)
  next
    case False
    with lit.IH [of "pre @ k # bs"] lit.prems(2) s show ?thesis by (subst lzf_d_loop.simps) simp
  qed
next
  case (ref off len out cs out')
  let ?inp = "pre @ ref_token off len @ cs"
  have "length (copy_ref len (length out - off - 1) out) \<le> length out'" by (rule decodes_length [OF ref.hyps(5)])
  then have s: "lzf_d_step ?inp out_len (length pre) out =
      D_next (length pre + length (ref_token off len)) (copy_ref len (length out - off - 1) out)"
    using ref.hyps(1-4) ref.prems(2) by (intro d_step_ref) (simp_all add: copy_ref_octets)
  show ?case
  proof (cases "cs = []")
    case True
    with ref.hyps(5) have "out' = copy_ref len (length out - off - 1) out"
      by (simp add: decodes_nil_iff)
    with True s show ?thesis by (simp add: lzf_d_loop.simps)
  next
    case False
    with ref.IH [of "pre @ ref_token off len"] ref.prems(2) s show ?thesis
      by (subst lzf_d_loop.simps) simp
  qed
qed

section \<open>Matches\<close>

lemma match_unrolled_spec:
  "match_unrolled xs ref ip k len = (d, n) \<Longrightarrow> \<forall>j \<le> len. xs ! (ref + j) = xs ! (ip + j) \<Longrightarrow>
   len \<le> n \<and> n \<le> len + k \<and> (d \<longrightarrow> len < n) \<and> (\<forall>j < n. xs ! (ref + j) = xs ! (ip + j)) \<and>
   (\<not> d \<longrightarrow> n = len + k \<and> xs ! (ref + n) = xs ! (ip + n))"
proof (induction k arbitrary: len)
  case 0
  then show ?case by auto
next
  case (Suc k)
  show ?case
  proof (cases "xs ! (ref + (len + 1)) = xs ! (ip + (len + 1))")
    case True
    with Suc.prems(1) have "match_unrolled xs ref ip k (len + 1) = (d, n)" by simp
    moreover have "\<forall>j \<le> len + 1. xs ! (ref + j) = xs ! (ip + j)" using Suc.prems(2) True by (metis Suc_eq_plus1 le_Suc_eq)
    ultimately show ?thesis using Suc.IH [of "len + 1"] by auto
  next
    case False
    with Suc.prems show ?thesis by auto
  qed
qed

lemma match_more_spec:
  "\<forall>j \<le> len. xs ! (ref + j) = xs ! (ip + j) \<Longrightarrow>
   len < match_more xs ref ip maxlen len \<and> match_more xs ref ip maxlen len \<le> max (len + 1) maxlen \<and>
   (\<forall>j < match_more xs ref ip maxlen len. xs ! (ref + j) = xs ! (ip + j))"
proof (induction xs ref ip maxlen len rule: match_more.induct)
  case (1 xs ref ip maxlen len)
  show ?case
  proof (cases "len + 1 < maxlen \<and> xs ! (ref + (len + 1)) = xs ! (ip + (len + 1))")
    case True
    then have "\<forall>j \<le> len + 1. xs ! (ref + j) = xs ! (ip + j)" using 1(2) by (metis Suc_eq_plus1 le_Suc_eq)
    with 1(1) [OF refl True] True show ?thesis by (subst (1 2 3) match_more.simps) auto
  next
    case False
    then have "match_more xs ref ip maxlen len = len + 1" by (subst match_more.simps) (auto simp: Let_def)
    with 1(2) show ?thesis by auto
  qed
qed

lemma match_length_spec:
  assumes "xs ! (ref + 2) = xs ! (ip + 2)" "xs ! (ref + 1) = xs ! (ip + 1)" "xs ! ref = xs ! ip"
    and "ip + 2 < n" and m: "maxlen = min MAX_REF (n - ip - 2)"
  shows "3 \<le> match_length xs ref ip maxlen \<and> match_length xs ref ip maxlen \<le> 264 \<and>
     ip + match_length xs ref ip maxlen \<le> n \<and>
     (\<forall>j < match_length xs ref ip maxlen. xs ! (ref + j) = xs ! (ip + j))"
proof -
  have two: "\<forall>j \<le> 2. xs ! (ref + j) = xs ! (ip + j)"
    using assms(1-3) by (auto simp: numeral_2_eq_2 le_Suc_eq)
  show ?thesis
  proof (cases "maxlen > 16")
    case True
    obtain d l where u: "match_unrolled xs ref ip 16 2 = (d, l)" by fastforce
    from match_unrolled_spec [OF u two]
    have s: "2 \<le> l" "l \<le> 18" "d \<longrightarrow> 2 < l" "\<forall>j < l. xs ! (ref + j) = xs ! (ip + j)"
        "\<not> d \<longrightarrow> l = 18 \<and> xs ! (ref + l) = xs ! (ip + l)" by auto
    show ?thesis
    proof (cases d)
      case True
      with u s \<open>maxlen > 16\<close> m show ?thesis by (auto simp: match_length_def)
    next
      case False
      then have "\<forall>j \<le> l. xs ! (ref + j) = xs ! (ip + j)" using s(4,5) by (metis le_neq_implies_less)
      note sp = match_more_spec [OF this, of maxlen]
      moreover have "match_length xs ref ip maxlen = match_more xs ref ip maxlen l"
        using False u \<open>maxlen > 16\<close> by (simp add: match_length_def)
      moreover have "maxlen \<le> 264" "ip + maxlen + 2 \<le> n" "l = 18" using m \<open>maxlen > 16\<close> False s(5) by auto
      ultimately show ?thesis using \<open>maxlen > 16\<close> by auto
    qed
  next
    case False
    with match_more_spec [OF two, of maxlen] assms(4) m show ?thesis by (auto simp: match_length_def)
  qed
qed

section \<open>The compressor's invariant\<close>

text \<open>
  The slot of the current run's control byte splits the output: what is before it decodes to the input
  up to the pending literals, and the pending literals follow it.
\<close>

abbreviation run_slot :: "lzf_state \<Rightarrow> nat" where "run_slot st \<equiv> c_op st - c_lit st - 1"

definition cinv :: "u8 list \<Rightarrow> lzf_state \<Rightarrow> bool" where
  "cinv xs st \<longleftrightarrow>
     c_lit st \<le> 32 \<and> c_lit st \<le> c_ip st \<and> c_ip st \<le> length xs \<and> c_lit st < c_op st \<and>
     run_slot st \<le> length (c_out st) \<and> (0 < c_lit st \<longrightarrow> c_op st \<le> length (c_out st)) \<and>
     take (c_lit st) (drop (run_slot st + 1) (c_out st)) = take (c_lit st) (drop (c_ip st - c_lit st) xs) \<and>
     decodes (take (run_slot st) (c_out st)) [] (take (c_ip st - c_lit st) xs)"

abbreviation run_end :: "lzf_state \<Rightarrow> nat" where "run_end st \<equiv> c_op st - (if c_lit st = 0 then 1 else 0)"

text \<open>Ending the run makes the output decode to all the input read so far.\<close>

lemma end_run:
  assumes "cinv xs st" "run_slot st < length (c_out st)"
  shows "\<exists>b. poke (run_slot st) (of_nat (c_lit st) - 1) (c_out st) = Some b \<and> length b = length (c_out st) \<and>
     run_end st \<le> length b \<and> decodes (take (run_end st) b) [] (take (c_ip st) xs)"
proof (cases "c_lit st = 0")
  case True
  with assms show ?thesis by (auto simp: cinv_def poke_def)
next
  case False
  define s l b where "s = run_slot st" and "l = c_lit st" and "b = (c_out st)[s := of_nat l - 1 :: u8]"
  from assms False have l: "0 < l" "l \<le> 32" "l \<le> c_ip st" "c_ip st \<le> length xs" "c_op st = s + 1 + l" "s + 1 + l \<le> length (c_out st)"
    and lits: "take l (drop (s + 1) (c_out st)) = take l (drop (c_ip st - l) xs)"
    and dec: "decodes (take s (c_out st)) [] (take (c_ip st - l) xs)"
    by (auto simp: cinv_def s_def l_def)
  define k :: u8 where "k = of_nat l - 1"
  have "k = of_nat (l - 1)" using l(1) by (simp add: k_def of_nat_diff)
  then have k: "unat k = l - 1" using l(2) unat_u8_of_nat [of "l - 1"] by simp
  have "take (c_op st) b = take s (c_out st) @ k # take l (drop (s + 1) (c_out st))"
    using l(5,6) by (simp add: b_def k_def upd_conv_take_nth_drop take_Cons')
  moreover have "take (c_ip st - l) xs @ take l (drop (c_ip st - l) xs) = take (c_ip st) xs"
    using l(3) by (metis le_add_diff_inverse2 take_add)
  moreover have "length (take l (drop (s + 1) (c_out st))) = unat k + 1" using k l by simp
  ultimately have "decodes (take (c_op st) b) [] (take (c_ip st) xs)"
    using decodes_lit_end [of "take l (drop (s + 1) (c_out st))" k, OF _ _ dec] k l(1,2) lits by simp
  moreover have "poke s (of_nat l - 1) (c_out st) = Some b" using l(6) by (simp add: poke_def b_def)
  ultimately show ?thesis using False l(5,6) by (auto simp: s_def [symmetric] l_def [symmetric] b_def)
qed

lemma full_run_ok:
  assumes "cinv xs st" "0 < c_lit st"
  shows "\<exists>st'. lzf_full_run st = Some st' \<and> cinv xs st' \<and> c_lit st' < 32 \<and> length (c_out st') = length (c_out st) \<and>
     c_ip st' = c_ip st \<and> c_lit st' = (if c_lit st = 32 then 0 else c_lit st) \<and>
     c_op st' = (if c_lit st = 32 then c_op st + 1 else c_op st)"
proof (cases "c_lit st = 32")
  case True
  from assms have "run_slot st < length (c_out st)" "c_op st \<le> length (c_out st)" by (auto simp: cinv_def)
  from end_run [OF assms(1) this(1)] obtain b
    where b: "poke (run_slot st) (of_nat (c_lit st) - 1) (c_out st) = Some b" "length b = length (c_out st)"
      "run_end st \<le> length b" "decodes (take (run_end st) b) [] (take (c_ip st) xs)" by auto
  with True assms show ?thesis by (auto simp: lzf_full_run_def cinv_def)
next
  case False
  with assms show ?thesis by (auto simp: lzf_full_run_def cinv_def)
qed

lemma literal_ok:
  assumes "cinv xs st" "c_lit st < 32" "c_op st < length (c_out st)" "c_ip st < length xs"
  shows "\<exists>st'. lzf_literal xs st = Some st' \<and> cinv xs st' \<and> c_lit st' < 32 \<and> length (c_out st') = length (c_out st) \<and>
     c_ip st' = c_ip st + 1 \<and> c_lit st' = (if c_lit st = 31 then 0 else c_lit st + 1) \<and>
     c_op st' = (if c_lit st = 31 then c_op st + 2 else c_op st + 1)"
proof -
  define s l b where "s = run_slot st" and "l = c_lit st" and "b = (c_out st)[c_op st := xs ! c_ip st]"
  let ?st = "st\<lparr>c_out := b, c_lit := l + 1, c_op := c_op st + 1, c_ip := c_ip st + 1\<rparr>"
  from assms(1) have l: "l \<le> c_ip st" "c_op st = s + 1 + l" "s \<le> length (c_out st)"
    and lits: "take l (drop (s + 1) (c_out st)) = take l (drop (c_ip st - l) xs)"
    and dec: "decodes (take s (c_out st)) [] (take (c_ip st - l) xs)"
    by (auto simp: cinv_def s_def l_def)
  have "take (l + 1) (drop (s + 1) b) = take l (drop (s + 1) (c_out st)) @ [xs ! c_ip st]"
    using l assms(3) by (simp add: b_def take_Suc_conv_app_nth drop_update_swap)
  moreover have "take (l + 1) (drop (c_ip st - l) xs) = take l (drop (c_ip st - l) xs) @ [xs ! c_ip st]"
    using l assms(4) by (simp add: take_Suc_conv_app_nth)
  moreover have "take s b = take s (c_out st)" using l(2) by (simp add: b_def)
  ultimately have "cinv xs ?st" using assms l lits dec by (simp add: cinv_def b_def l_def)
  moreover have "lzf_literal xs st = lzf_full_run ?st"
    using assms(3) by (simp add: lzf_literal_def poke_def b_def l_def)
  ultimately obtain st' where "lzf_literal xs st = Some st'" "cinv xs st'" "c_lit st' < 32"
      "length (c_out st') = length b" "c_ip st' = c_ip st + 1" "c_lit st' = (if l + 1 = 32 then 0 else l + 1)"
      "c_op st' = (if l + 1 = 32 then c_op st + 1 + 1 else c_op st + 1)"
    using full_run_ok [of xs ?st] by auto
  then show ?thesis using assms(2) by (simp add: b_def l_def)
qed

lemma pokes_fit:
  "i + length vs \<le> length b \<Longrightarrow> pokes i vs b = Some (take i b @ vs @ drop (i + length vs) b)"
proof (induction vs arbitrary: i b)
  case Nil
  then show ?case by simp
next
  case (Cons v vs)
  then have "pokes i (v # vs) b = Some (take (i + 1) (b[i := v]) @ vs @ drop (i + 1 + length vs) (b[i := v]))"
    using Cons.IH [of "i + 1" "b[i := v]"] by (simp add: poke_def)
  with Cons.prems show ?case by (simp add: take_Suc_conv_app_nth)
qed

lemma refill_ok:
  assumes "cinv xs st" "c_lit st < 32" "2 \<le> c_ip st"
  shows "(lzf_refill xs st = Round_break st \<and> length xs \<le> c_ip st + 2) \<or>
     (\<exists>st'. lzf_refill xs st = Round_next st' \<and> cinv xs st' \<and> c_lit st' < 32 \<and> length (c_out st') = length (c_out st))"
proof (cases "length xs \<le> c_ip st + 2")
  case True
  then show ?thesis by (simp add: lzf_refill_def)
next
  case False
  have p: "c_ip st - 2 + 2 = c_ip st" using assms(3) by simp
  from False have "\<exists>h tab. lzf_refill xs st = Round_next (st\<lparr>c_hval := h, c_htab := tab, c_ip := c_ip st\<rparr>)"
    unfolding lzf_refill_def Let_def p if_not_P [OF False] by blast
  with assms show ?thesis by (auto simp: cinv_def)
qed

text \<open>What a round may end in.\<close>

fun round_ok :: "u8 list \<Rightarrow> nat \<Rightarrow> lzf_round \<Rightarrow> bool" where
  "round_ok xs n Round_fault = False"
| "round_ok xs n Round_zero = True"
| "round_ok xs n (Round_break st) = (cinv xs st \<and> c_lit st < 32 \<and> length (c_out st) = n \<and> length xs \<le> c_ip st + 2)"
| "round_ok xs n (Round_next st) = (cinv xs st \<and> c_lit st < 32 \<and> length (c_out st) = n)"

lemma length_ref_token: "length (ref_token off len) \<le> 3" by (simp add: ref_token_def)

lemma match_ok:
  assumes inv: "cinv xs st" and ip: "c_ip st + 2 < length xs" and ref: "ref < c_ip st" "c_ip st - ref - 1 < 8192"
    and eq: "xs ! (ref + 2) = xs ! (c_ip st + 2)" "xs ! (ref + 1) = xs ! (c_ip st + 1)" "xs ! ref = xs ! c_ip st"
  shows "round_ok xs (length (c_out st)) (lzf_match xs ref st)"
proof (cases "c_op st + 3 + 1 \<ge> length (c_out st) \<and> run_end st + 3 + 1 \<ge> length (c_out st)")
  case True
  then show ?thesis by (simp add: lzf_match_def Let_def)
next
  case False
  define off where "off = c_ip st - ref - 1"
  define L where "L = match_length xs ref (c_ip st) (min MAX_REF (length xs - c_ip st - 2))"
  define token where "token = ref_token off (L - 2)"
  have L: "3 \<le> L" "L \<le> 264" "c_ip st + L \<le> length xs" "\<forall>j < L. xs ! (ref + j) = xs ! (c_ip st + j)"
    using match_length_spec [OF eq ip refl] by (auto simp: L_def)
  have room: "run_end st + 4 < length (c_out st)" using False by auto
  moreover have "c_lit st < c_op st" using inv by (simp add: cinv_def)
  ultimately have "run_slot st < length (c_out st)" by (auto split: if_splits)
  from end_run [OF inv this] obtain b
    where b: "poke (run_slot st) (of_nat (c_lit st) - 1) (c_out st) = Some b" "length b = length (c_out st)"
      and dec: "decodes (take (run_end st) b) [] (take (c_ip st) xs)" by auto
  define b' where "b' = take (run_end st) b @ token @ drop (run_end st + length token) b"
  have fit: "run_end st + length token \<le> length b"
    using room b(2) length_ref_token [of off "L - 2"] unfolding token_def by linarith
  then have "pokes (run_end st) token b = Some b'" by (simp add: pokes_fit b'_def)
  define st' where "st' = st\<lparr>c_out := b', c_lit := 0, c_op := run_end st + length token + 1, c_ip := c_ip st + 1 + (L - 2 + 1)\<rparr>"
  have ip': "Suc (Suc (c_ip st + L - 2)) = c_ip st + L" using L(1) by simp
  have m: "lzf_match xs ref st = lzf_refill xs st'"
    unfolding lzf_match_def Let_def off_def [symmetric] L_def [symmetric] token_def [symmetric] st'_def if_not_P [OF False] b(1)
      option.case \<open>pokes (run_end st) token b = Some b'\<close> by (rule refl)
  have "decodes (take (run_end st) b @ token) [] (copy_octets (L - 2 + 2) (length (take (c_ip st) xs) - off - 1) (take (c_ip st) xs))"
    unfolding token_def using L ref ip by (intro decodes_ref_end dec) (auto simp: off_def)
  moreover have "copy_octets (L - 2 + 2) (length (take (c_ip st) xs) - off - 1) (take (c_ip st) xs) = take (c_ip st + L) xs"
  proof -
    have "L - 2 + 2 = L" "length (take (c_ip st) xs) - off - 1 = ref" using L(1) ref ip by (auto simp: off_def)
    then show ?thesis by (simp only: copy_octets_prefix [OF L(4) L(3) ref(1)])
  qed
  moreover have "take (run_end st + length token) b' = take (run_end st) b @ token"
    using fit by (simp add: b'_def)
  ultimately have "decodes (take (run_end st + length token) b') [] (take (c_ip st + L) xs)" by simp
  moreover have "length b' = length (c_out st)" using fit b(2) by (simp add: b'_def)
  ultimately have "cinv xs st'" "c_lit st' < 32" "2 \<le> c_ip st'" "length (c_out st') = length (c_out st)"
    using L(1,3) fit b(2) ip' by (simp_all add: cinv_def st'_def del: if_split)
  then show ?thesis using refill_ok [of xs st'] m by auto
qed

lemma round_keeps:
  assumes "cinv xs st" "c_lit st < 32" "c_ip st + 2 < length xs"
  shows "round_ok xs (length (c_out st)) (lzf_round xs st)"
proof -
  define h where "h = NEXT (c_hval st) xs (c_ip st)"
  define ref where "ref = unat (c_htab st (IDX h))"
  define st1 where "st1 = st\<lparr>c_hval := h, c_htab := (c_htab st)(IDX h := of_nat (c_ip st))\<rparr>"
  have s: "cinv xs st1" "c_lit st1 < 32" "c_ip st1 = c_ip st" "c_out st1 = c_out st"
    using assms(1,2) by (simp_all add: st1_def cinv_def)
  have r: "lzf_round xs st =
     (if ref < c_ip st \<and> c_ip st - ref - 1 < MAX_OFF \<and> ref > 0 \<and> xs ! (ref + 2) = xs ! (c_ip st + 2) \<and>
            xs ! (ref + 1) = xs ! (c_ip st + 1) \<and> xs ! ref = xs ! c_ip st
         then lzf_match xs ref st1
         else if c_op st1 \<ge> length (c_out st1) then Round_zero
         else case lzf_literal xs st1 of None \<Rightarrow> Round_fault | Some st \<Rightarrow> Round_next st)"
    unfolding lzf_round_def Let_def h_def [symmetric] ref_def [symmetric] st1_def [symmetric] by (rule refl)
  show ?thesis
    using match_ok [OF s(1), of ref] literal_ok [OF s(1,2)] assms(3) s unfolding r by auto
qed

lemma loop_keeps:
  "cinv xs st \<Longrightarrow> c_lit st < 32 \<Longrightarrow> length (c_out st) = n \<Longrightarrow> round_ok xs n (lzf_loop xs st) \<and> (\<forall>st'. lzf_loop xs st \<noteq> Round_next st')"
proof (induction xs st rule: lzf_loop.induct)
  case (1 xs st)
  show ?case
  proof (cases "c_ip st + 2 < length xs")
    case True
    with round_keeps [OF 1(2,3) True] 1(1) 1(4) show ?thesis
      by (subst (1 2) lzf_loop.simps) (auto split: lzf_round.splits)
  next
    case False
    with 1 show ?thesis by (auto simp: lzf_loop.simps)
  qed
qed

text \<open>The last bytes fit: at most one of them ends a full run.\<close>

lemma tail_ok:
  "cinv xs st \<Longrightarrow> c_lit st < 32 \<Longrightarrow> length xs - c_ip st \<le> 2 \<Longrightarrow>
   c_op st + (length xs - c_ip st) + (if c_lit st + (length xs - c_ip st) \<ge> 32 then 1 else 0) \<le> length (c_out st) \<Longrightarrow>
   \<exists>st'. lzf_tail xs st = Some st' \<and> cinv xs st' \<and> c_ip st' = length xs \<and> c_op st' \<le> length (c_out st') \<and>
     length (c_out st') = length (c_out st)"
proof (induction xs st rule: lzf_tail.induct)
  case (1 xs st)
  show ?case
  proof (cases "c_ip st < length xs")
    case True
    then have "c_op st < length (c_out st)" using 1(5) by (auto split: if_splits)
    with literal_ok [OF 1(2,3)] True obtain st' where st': "lzf_literal xs st = Some st'" "cinv xs st'" "c_lit st' < 32"
        "length (c_out st') = length (c_out st)" "c_ip st' = c_ip st + 1" "c_lit st' = (if c_lit st = 31 then 0 else c_lit st + 1)"
        "c_op st' = (if c_lit st = 31 then c_op st + 2 else c_op st + 1)"
      by auto
    moreover have "lzf_tail xs st = lzf_tail xs st'" using True st'(1) by (subst lzf_tail.simps) simp
    ultimately show ?thesis using 1(1) [OF True st'(1)] 1(3-5) True by (auto split: if_splits)
  next
    case False
    with 1(2,5) show ?thesis by (auto simp: lzf_tail.simps cinv_def)
  qed
qed

theorem lzf_compress_decodes:
  assumes "xs \<noteq> []"
  shows "lzf_compress xs buf tab \<noteq> Lzf_fault \<and>
     (\<forall>cs. lzf_compress xs buf tab = Lzf_ok cs \<longrightarrow> cs \<noteq> [] \<and> length cs \<le> length buf \<and> decodes cs [] xs)"
proof -
  define st0 where "st0 = \<lparr>c_ip = 0, c_op = 1, c_lit = 0, c_hval = FRST xs 0, c_htab = tab, c_out = buf\<rparr>"
  have "cinv xs st0" "c_lit st0 < 32" "length (c_out st0) = length buf" by (simp_all add: cinv_def st0_def decodes.nil)
  note lk = loop_keeps [OF this]
  show ?thesis
  proof (cases "\<exists>st. lzf_loop xs st0 = Round_break st \<and> \<not> length buf < c_op st + 3 \<and> buf \<noteq> []")
    case False
    with lk show ?thesis unfolding lzf_compress_def st0_def [symmetric] by (auto split: lzf_round.splits)
  next
    case True
    then obtain st where st: "lzf_loop xs st0 = Round_break st" "c_op st + 3 \<le> length buf" "buf \<noteq> []" by auto
    with lk have i: "cinv xs st" "c_lit st < 32" "length (c_out st) = length buf" "length xs \<le> c_ip st + 2" by auto
    have "\<exists>st'. lzf_tail xs st = Some st' \<and> cinv xs st' \<and> c_ip st' = length xs \<and> c_op st' \<le> length (c_out st') \<and>
     length (c_out st') = length (c_out st)"
      using st(2) i by (intro tail_ok) auto
    then obtain st' where t: "lzf_tail xs st = Some st'" "cinv xs st'" "c_ip st' = length xs" "c_op st' \<le> length (c_out st')"
        "length (c_out st') = length buf" using i(3) by auto
    moreover have "c_lit st' < c_op st'" using t(2) by (simp add: cinv_def)
    ultimately have "run_slot st' < length (c_out st')" by linarith
    from end_run [OF t(2) this] obtain b
      where b: "poke (run_slot st') (of_nat (c_lit st') - 1) (c_out st') = Some b" "length b = length (c_out st')"
        "run_end st' \<le> length b" "decodes (take (run_end st') b) [] xs" using t(3) by auto
    have "lzf_compress xs buf tab = Lzf_ok (take (run_end st') b)"
      using st t(1) b(1) assms unfolding lzf_compress_def st0_def [symmetric] by simp
    moreover have "take (run_end st') b \<noteq> []" using b(4) assms decodes_nil_iff [of "[]" xs] by metis
    moreover have "length b = length buf" using b(2) t(5) by simp
    ultimately show ?thesis using b by auto
  qed
qed

section \<open>Properties\<close>

text \<open>
  C4. A block that \<^verbatim>\<open>lzf_compress\<close> compresses is restored exactly by \<^verbatim>\<open>lzf_decompress\<close>, whatever was in the
  caller's hash table and output buffer; the compressor never writes outside the output buffer and its
  result fits it.
\<close>

theorem lzf_roundtrip:
  assumes "xs \<noteq> []"
  shows "lzf_compress xs buf tab \<noteq> Lzf_fault \<and>
     (\<forall>cs out_len. lzf_compress xs buf tab = Lzf_ok cs \<longrightarrow> length xs \<le> out_len \<longrightarrow>
        length cs \<le> length buf \<and> lzf_decompress cs out_len = Lzf_ok xs)"
  using lzf_compress_decodes [OF assms, of buf tab] decodes_run [of _ "[]" xs _ "[]"]
  by (auto simp: lzf_decompress_def)

definition sample_block :: "u8 list" where "sample_block = [9, 1, 2, 3, 1, 2, 3, 1, 2, 3, 1, 2, 3, 1, 2, 3, 4]"

theorem lzf_roundtrip_witness:
  "lzf_compress sample_block (replicate 16 0) (\<lambda>_. 0) = Lzf_ok [3, 9, 1, 2, 3, 224, 2, 2, 1, 3, 4] \<and>
   lzf_decompress [3, 9, 1, 2, 3, 224, 2, 2, 1, 3, 4] 17 = Lzf_ok sample_block"
proof -
  have c: "lzf_compress sample_block (replicate 16 0) (\<lambda>_. 0) = Lzf_ok [3, 9, 1, 2, 3, 224, 2, 2, 1, 3, 4]" by code_simp
  moreover have "sample_block \<noteq> []" "length sample_block \<le> 17" by (simp_all add: sample_block_def)
  ultimately show ?thesis using lzf_roundtrip [of sample_block "replicate 16 0" "\<lambda>_. 0"] by blast
qed

lemma lzf_d_loop_bounded:
  "ip < length inp \<Longrightarrow> length out \<le> out_len \<Longrightarrow>
   lzf_d_loop inp out_len ip out \<noteq> Lzf_fault \<and> (\<forall>r. lzf_d_loop inp out_len ip out = Lzf_ok r \<longrightarrow> length r \<le> out_len)"
proof (induction inp out_len ip out rule: lzf_d_loop.induct)
  case (1 inp out_len ip out)
  have "lzf_d_step inp out_len ip out \<noteq> D_fault"
    "\<And>ip' out'. lzf_d_step inp out_len ip out = D_next ip' out' \<Longrightarrow> length out' \<le> out_len"
    using 1(2) by (auto simp: lzf_d_step_def lzf_d_back_def Let_def copy_ref_octets split: if_splits)
  with 1 show ?case by (subst (1 2) lzf_d_loop.simps) (auto split: lzf_d_round.splits)
qed



end
