(* ===== verification/ProcCmd.thy ===== *)
theory ProcCmd
  imports TdiskCmd DataCmd
begin

text \<open>
  \<open>tdisk_proc_cmd\<close> as a whole (\<^verbatim>\<open>core/tdisk.c\<close>): the checks of a command followed by the handler its opcode
  selects, and what becomes of the command.
\<close>

unbundle bit_operations_syntax

text \<open>
  What a command meets on the node: its readiness, the state of the log, memory, the outcome of writes, the
  peer of the mirror, and the disk's own data.
\<close>

record node_env =
  standby :: bool
  disk_ready :: bool
  mirror_ready :: bool
  kern_inited :: bool
  log_error :: bool
  alloc :: "nat \<Rightarrow> u8 list option"
  pages_ok :: "u32 \<Rightarrow> bool"
  write_ok :: "u64 \<Rightarrow> u32 \<Rightarrow> bool"
  peer :: mirror_env
  unit :: disk
  target_lun :: u32
  bus :: u32

text \<open>
  A command is answered, goes on to the map of the disk with its range, is turned into zeroing writes (and answered here or
  by the write that failed), is answered once the range it names is idle, or goes on to the copy manager.
  A handler that writes outside its buffer crashes, one whose loop never ends hangs.
\<close>

datatype proc_result =
    Sent qsio_scsiio tdisk
  | Transfers u64 u32
  | Zeroes "qsio_scsiio option" "zero_write list"
  | Flushes lba_write qsio_scsiio
  | Copies
  | Crashes
  | Hangs

definition proc_fail :: "qsio_scsiio \<Rightarrow> qsio_scsiio" where
  "proc_fail ctio =
     ctio_construct_sense (ctio\<lparr>data_ptr := None, dxfer_len := 0, pglist_cnt := 0\<rparr>) SSD_CURRENT_ERROR SSD_KEY_HARDWARE_ERROR 0
       INTERNAL_TARGET_FAILURE"

definition proc_in :: "tdisk \<Rightarrow> qsio_scsiio \<Rightarrow> in_result \<Rightarrow> proc_result" where
  "proc_in td ctio r =
     (case r of In_nomem \<Rightarrow> Sent (proc_fail ctio) td | In_overrun \<Rightarrow> Crashes | In_ok ctio' \<Rightarrow> Sent ctio' td)"

definition proc_data :: "tdisk \<Rightarrow> data_cmd \<Rightarrow> proc_result" where
  "proc_data td r = (case r of Data_sent ctio \<Rightarrow> Sent ctio td | Data_range lba n \<Rightarrow> Transfers lba n)"

definition proc_zero :: "(qsio_scsiio option \<times> zero_write list) option \<Rightarrow> proc_result" where
  "proc_zero r = (case r of None \<Rightarrow> Hangs | Some (c, ws) \<Rightarrow> Zeroes c ws)"

abbreviation (input) INVALID_COMMAND_OPERATION_CODE :: asc where "INVALID_COMMAND_OPERATION_CODE \<equiv> (0x20, 0x00)"

text \<open>The handlers by opcode.\<close>

definition tdisk_proc_dispatch :: "node_env \<Rightarrow> initiator_state \<Rightarrow> tdisk \<Rightarrow> qsio_scsiio \<Rightarrow> proc_result" where
  "tdisk_proc_dispatch env istate td ctio =
     (let op = cdb8 ctio 0;
          d = unit env;
          sent = (\<lambda>(c, td). Sent c td)
      in if op = TEST_UNIT_READY then proc_in td ctio (tdisk_cmd_test_unit_ready (kern_inited env) (mirror_ready env) ctio)
         else if op = INQUIRY then proc_in td ctio (tdisk_cmd_inquiry (alloc env) d (target_lun env) ctio)
         else if op = RESERVE then sent (tdisk_cmd_reserve td ctio)
         else if op = RELEASE then sent (tdisk_cmd_release td ctio)
         else if op = PERSISTENT_RESERVE_IN
         then proc_in td ctio (tdisk_cmd_persistent_reserve_in (alloc env) (reservation td) ctio)
         else if op = PERSISTENT_RESERVE_OUT then sent (tdisk_cmd_persistent_reserve_out (peer env) td ctio)
         else if op = REQUEST_SENSE then sent (tdisk_cmd_request_sense istate td ctio)
         else if op = READ_CAPACITY then proc_in td ctio (tdisk_cmd_read_capacity (alloc env) d ctio)
         else if op = SERVICE_ACTION_IN then proc_in td ctio (tdisk_cmd_service_action_in (alloc env) d ctio)
         else if op = MODE_SENSE_6 then proc_in td ctio (tdisk_cmd_mode_sense6 (alloc env) d ctio)
         else if op = MODE_SENSE_10 then proc_in td ctio (tdisk_cmd_mode_sense10 (alloc env) d ctio)
         else if op = READ_6 then proc_data td (tdisk_cmd_read6 ctio)
         else if op = READ_10 then proc_data td (tdisk_cmd_read10 ctio)
         else if op = READ_12 then proc_data td (tdisk_cmd_read12 ctio)
         else if op = READ_16 then proc_data td (tdisk_cmd_read16 ctio)
         else if op = WRITE_SAME
         then proc_zero (tdisk_cmd_write_same (pages_ok env) (write_ok env) d ctio (the (data_ptr ctio)))
         else if op = WRITE_SAME_16
         then proc_zero (tdisk_cmd_write_same16 (pages_ok env) (write_ok env) d ctio (the (data_ptr ctio)))
         else if op = UNMAP then proc_zero (Some (tdisk_cmd_unmap (pages_ok env) (write_ok env) d ctio))
         else if op = EXTENDED_COPY \<or> op = RECEIVE_COPY_RESULTS then Copies
         else if op = COMPARE_AND_WRITE then proc_data td (tdisk_cmd_compare_and_write ctio)
         else if op = WRITE_6 then proc_data td (tdisk_cmd_write6 ctio)
         else if op = WRITE_10 then proc_data td (tdisk_cmd_write10 ctio)
         else if op = WRITE_12 then proc_data td (tdisk_cmd_write12 ctio)
         else if op = WRITE_16 then proc_data td (tdisk_cmd_write16 ctio)
         else if op = REPORT_LUNS
         then (case tdisk_cmd_report_luns (alloc env) (bus env) ctio of (ok, c) \<Rightarrow> Sent (if ok then c else proc_fail c) td)
         else if op = VERIFY then Flushes (tdisk_cmd_verify d ctio) ctio
         else if op = VERIFY_12 then Flushes (tdisk_cmd_verify12 d ctio) ctio
         else if op = VERIFY_16 then Flushes (tdisk_cmd_verify16 d ctio) ctio
         else if op = SYNCHRONIZE_CACHE then Flushes (tdisk_cmd_sync_cache d ctio) ctio
         else if op = SYNCHRONIZE_CACHE_16 then Flushes (tdisk_cmd_sync_cache16 d ctio) ctio
         else Sent (ctio_construct_sense (ctio_free_data ctio) SSD_CURRENT_ERROR SSD_KEY_ILLEGAL_REQUEST 0
                      INVALID_COMMAND_OPERATION_CODE) td)"

definition tdisk_proc_cmd :: "node_env \<Rightarrow> tdisk \<Rightarrow> qsio_scsiio \<Rightarrow> proc_result" where
  "tdisk_proc_cmd env td ctio =
     (case tdisk_proc_checks (\<not> standby env \<and> disk_ready env \<and> mirror_ready env) (log_error env) td ctio of
        Completed ctio td \<Rightarrow> Sent ctio td
      | Dispatch istate \<Rightarrow> tdisk_proc_dispatch env istate td ctio)"

end
