(* ===== verification/ProcProps.thy ===== *)
theory ProcProps
  imports ProcCmd ReservationProps
begin

text \<open>
  Facts about \<open>tdisk_proc_cmd\<close> that the properties of whole command sequences rest on: which commands can change
  the reservation, which are refused under an exclusive one, and how a pending unit attention is
  delivered.
\<close>

unbundle bit_operations_syntax

text \<open>The commands of a list one after the other, each on the state the previous one left.\<close>

definition proc_state :: "tdisk \<Rightarrow> proc_result \<Rightarrow> tdisk" where
  "proc_state td r = (case r of Sent ctio td' \<Rightarrow> td' | _ \<Rightarrow> td)"

fun tdisk_proc_run :: "node_env \<Rightarrow> tdisk \<Rightarrow> qsio_scsiio list \<Rightarrow> proc_result list \<times> tdisk" where
  "tdisk_proc_run env td [] = ([], td)"
| "tdisk_proc_run env td (c # cs) =
     (let r = tdisk_proc_cmd env td c; (rs, td') = tdisk_proc_run env (proc_state td r) cs in (r # rs, td'))"

section \<open>The reservation\<close>

lemma proc_in_state [simp]: "proc_state td (proc_in td ctio r) = td"
  by (simp add: proc_in_def proc_state_def split: in_result.split)

lemma proc_data_state [simp]: "proc_state td (proc_data td r) = td"
  by (simp add: proc_data_def proc_state_def split: data_cmd.split)

lemma proc_zero_state [simp]: "proc_state td (proc_zero r) = td"
  by (simp add: proc_zero_def proc_state_def split: option.split)

lemma proc_state_simps [simp]:
  "proc_state td (Sent c td') = td'" "proc_state td (Flushes w c) = td" "proc_state td Copies = td"
  by (simp_all add: proc_state_def)

lemma request_sense_reservation [simp]: "reservation (snd (tdisk_cmd_request_sense istate td ctio)) = reservation td"
  by (simp add: tdisk_cmd_request_sense_def split: prod.split)

text \<open>Only the commands of the reservation protocol change it.\<close>

lemma dispatch_reservation:
  assumes "cdb8 ctio 0 \<notin> {RESERVE, RELEASE, PERSISTENT_RESERVE_OUT}"
  shows "reservation (proc_state td (tdisk_proc_dispatch env istate td ctio)) = reservation td"
  using assms request_sense_reservation [of istate td ctio]
  by (simp add: tdisk_proc_dispatch_def Let_def split_beta)

lemma checks_reservation:
  assumes "tdisk_proc_checks ready err td ctio = Completed c td'"
  shows "reservation td' = reservation td"
  using assms by (auto simp: tdisk_proc_checks_def Let_def split_beta split: if_splits option.splits)

lemma proc_reservation:
  assumes "cdb8 ctio 0 \<notin> {RESERVE, RELEASE, PERSISTENT_RESERVE_OUT}"
  shows "reservation (proc_state td (tdisk_proc_cmd env td ctio)) = reservation td"
  using dispatch_reservation [OF assms] checks_reservation by (auto simp: tdisk_proc_cmd_def split: gate.split)

lemma dispatch_inv:
  assumes "resv_inv (reservation td)"
  shows "resv_inv (reservation (proc_state td (tdisk_proc_dispatch env istate td ctio)))"
proof (cases "cdb8 ctio 0 \<in> {RESERVE, RELEASE, PERSISTENT_RESERVE_OUT}")
  case True
  then have "tdisk_proc_dispatch env istate td ctio \<in> (\<lambda>(c, t). Sent c t) `
      {tdisk_cmd_reserve td ctio, tdisk_cmd_release td ctio, tdisk_cmd_persistent_reserve_out (peer env) td ctio}"
    by (auto simp: tdisk_proc_dispatch_def Let_def)
  then show ?thesis
    using cmd_reserve_inv [OF prod.collapse [symmetric] assms] cmd_release_inv [OF prod.collapse [symmetric] assms]
      persistent_reserve_out_inv [OF prod.collapse [symmetric] assms]
    by (auto simp: split_beta)
next
  case False
  then show ?thesis using dispatch_reservation [of ctio td env istate] assms by simp
qed

lemma proc_inv:
  assumes "resv_inv (reservation td)"
  shows "resv_inv (reservation (proc_state td (tdisk_proc_cmd env td ctio)))"
  using assms dispatch_inv [OF assms] checks_reservation
  by (auto simp: tdisk_proc_cmd_def split: gate.split)

lemma run_inv: "resv_inv (reservation td) \<Longrightarrow> resv_inv (reservation (snd (tdisk_proc_run env td cs)))"
  by (induction cs arbitrary: td) (simp_all add: proc_inv Let_def split_beta)

section \<open>An exclusive reservation\<close>

abbreviation (input) exclusive :: "reservation \<Rightarrow> bool" where
  "exclusive r \<equiv> is_reserved r \<and> rv_type r = RESERVATION_TYPE_PERSISTENT \<and>
     persistent_type r \<in> {RESERVATION_TYPE_EXCLUSIVE_ACCESS, RESERVATION_TYPE_EXCLUSIVE_ACCESS_RO, RESERVATION_TYPE_EXCLUSIVE_ACCESS_AR}"

abbreviation (input) outsider :: "reservation \<Rightarrow> qsio_scsiio \<Rightarrow> bool" where
  "outsider r ctio \<equiv> resv_iid r \<noteq> ctio_iid ctio \<and> \<not> registered r (ctio_iid ctio) \<and> init_int ctio \<noteq> TARGET_INT_MIRROR"

lemma outsider_refused:
  assumes "exclusive r" "outsider r ctio" "cdb8 ctio 0 \<in> write_ops \<union> read_ops \<union> {RESERVE, RELEASE}"
  shows "\<not> tdisk_cmd_access_ok r ctio"
proof -
  have dr: "device_reserved ctio r" using assms(1,2) by (auto simp: device_reserved_def)
  define x where "x = cdb8 ctio 0"
  show ?thesis
    using assms dr unfolding tdisk_cmd_access_ok_def Let_def x_def [symmetric] by (elim conjE UnE insertE emptyE) auto
qed

lemma checks_refuse:
  assumes "is_reserved (reservation td)" "\<not> tdisk_cmd_access_ok (reservation td) ctio"
  shows "\<exists>c td'. tdisk_proc_checks ready err td ctio = Completed c td' \<and> reservation td' = reservation td \<and> scsi_status c \<noteq> SCSI_STATUS_OK"
proof -
  have f [simp]: "scsi_status (ctio_free_data c) = scsi_status c" for c by (simp add: ctio_free_data_def)
  from assms show ?thesis
    unfolding tdisk_proc_checks_def Let_def
    by (auto simp: ctio_construct_sense_def ctio_allocate_sense_def device_move_sense_def split_beta split: option.split)
qed

lemma proc_refuse:
  assumes "exclusive (reservation td)" "outsider (reservation td) ctio" "cdb8 ctio 0 \<in> write_ops \<union> read_ops \<union> {RESERVE, RELEASE}"
  shows "\<exists>c td'. tdisk_proc_cmd env td ctio = Sent c td' \<and> reservation td' = reservation td \<and> scsi_status c \<noteq> SCSI_STATUS_OK"
proof -
  have "is_reserved (reservation td)" using assms(1) by blast
  from checks_refuse [OF this outsider_refused [OF assms], of "\<not> standby env \<and> disk_ready env \<and> mirror_ready env" "log_error env"]
  show ?thesis by (auto simp: tdisk_proc_cmd_def)
qed

lemma outsider_keeps_reservation:
  assumes "exclusive (reservation td)" "outsider (reservation td) ctio" "cdb8 ctio 0 \<noteq> PERSISTENT_RESERVE_OUT"
  shows "reservation (proc_state td (tdisk_proc_cmd env td ctio)) = reservation td"
proof (cases "cdb8 ctio 0 \<in> {RESERVE, RELEASE}")
  case True
  then have "cdb8 ctio 0 \<in> write_ops \<union> read_ops \<union> {RESERVE, RELEASE}" by blast
  from proc_refuse [OF assms(1,2) this, of env] show ?thesis by auto
next
  case False
  then show ?thesis using assms(3) by (intro proc_reservation) simp
qed

section \<open>Pending unit attentions\<close>

lemma find_istate_update:
  assumes "find (\<lambda>s. istate_iid s = who) l = Some s" "istate_iid (f s) = who"
  shows "find (\<lambda>s. istate_iid s = other) (istate_update who f l) = (if other = who then Some (f s) else find (\<lambda>s. istate_iid s = other) l)"
  using assms(1) unfolding istate_update_def
proof (induction l)
  case (Cons a l)
  then show ?case using assms(2) by (cases "istate_iid a = who") (auto simp del: prod.inject)
qed simp

lemma proc_reports_sense:
  assumes "\<not> standby env" "disk_ready env" "mirror_ready env" "\<not> log_error env"
    and "find (\<lambda>s. istate_iid s = ctio_iid ctio) (istate_list td) = Some istate" "sense_list istate = x # xs"
    and "cdb8 ctio 0 \<notin> {INQUIRY, REPORT_LUNS, REQUEST_SENSE}"
  shows "tdisk_proc_cmd env td ctio = Sent (ctio_free_data (device_move_sense ctio x))
     (td\<lparr>istate_list := istate_update (ctio_iid ctio) (\<lambda>_. istate\<lparr>sense_list := xs\<rparr>) (istate_list td)\<rparr>)"
  using assms
  by (simp add: tdisk_proc_cmd_def tdisk_proc_checks_def Let_def device_has_sense_def device_get_sense_def del: prod.inject)

text \<open>What a sent command reports.\<close>

definition reported :: "proc_result \<Rightarrow> qs_sense_data option" where
  "reported r = (case r of Sent ctio td \<Rightarrow> if scsi_status ctio = SCSI_STATUS_CHECK_COND then sense_data ctio else None | _ \<Rightarrow> None)"

end
