(* ===== verification/Spec2Isabelle.thy ===== *)
theory Spec2Isabelle
  imports CopyMgrProps IndexProps InitiatorProps ReplicaProps ReserveInProps LzfProps DataCmdProps ProcProps
begin

text \<open>
  A verification development for the core of QUADStor, a storage virtualization system that exports virtual disks over iSCSI and
  Fibre Channel (\<^verbatim>\<open>src/core\<close>, with the command block of \<^verbatim>\<open>src/export\<close>).

  \<^bold>\<open>The program.\<close> A target driver hands a SCSI command (\<^verbatim>\<open>struct qsio_scsiio\<close>) to the core. The command enters the
  task set of its initiator (\<^verbatim>\<open>istate_queue_cmd\<close>) and then the queue of the device (\<^verbatim>\<open>gdevq_insert_ccb\<close>); a queue thread
  takes it out and calls \<^verbatim>\<open>tdisk_proc_cmd\<close>, which checks readiness, unit attentions and reservations and calls the handler
  of the opcode. Handlers that answer from memory fill a response buffer; reservation handlers change the reservation of the
  disk and tell the peer node; data handlers turn their CDB into ranges of blocks, which they lock
  (\<^verbatim>\<open>tdisk_add_lba_write\<close>), look up in the address map, and read, write or allocate through the block index of a physical
  disk (\<^verbatim>\<open>bint_alloc_block\<close>, \<^verbatim>\<open>bint_ref_block\<close>, \<^verbatim>\<open>bint_free_block\<close>). Blocks may be compressed with LZF. The copy
  manager copies blocks between disks by reference.

  \<^bold>\<open>Conventions.\<close> C integers are words of their width (\<open>u8\<close> to \<open>u64\<close> of \<open>Prelude\<close>), so every overflow of the model is one of the
  code; counters that the code bounds are \<open>nat\<close> or \<open>int\<close>. Structures are records, lists linked through
  their elements are Isabelle lists, pointers into a table are addresses of type \<open>nat\<close>. A handler returns the command and the state it leaves;
  an allocation failure, a store outside a buffer and a loop that does not end are values of the result. Sleeping on a wait
  channel is a step that is enabled when its condition holds. Definitions carry the name of the C function they translate;
  a loop of a function has a definition of its own.

  \<^bold>\<open>Foundations.\<close> \<open>Prelude\<close>: words, byte order, buffers (\<open>put\<close> is the store that fails out of range).
  \<open>BitFields\<close> (\<^verbatim>\<open>bdevmgr.h\<close>): \<open>BMAP_GET_BLOCK\<close> and \<open>BMAP_SET_BLOCK\<close> on packed entries; its locale \<open>packed_page\<close> states the
  laws of an array and is interpreted on the three entry widths the metadata pages use. \<open>Layout\<close> (\<^verbatim>\<open>rawdefs.h\<close>, \<^verbatim>\<open>amap.h\<close>,
  \<^verbatim>\<open>coredefs.h\<close>): block numbers, map identifiers, write ids, checksums, logical unit numbers.

  \<^bold>\<open>The block index.\<close> \<open>BlockIndex\<close> (\<^verbatim>\<open>bdevmgr.c\<close>): an index page in the state \<open>ictx\<close> of index, subgroup, group and disk, with
  loading, allocation, references, freeing, log replay and checksums; \<open>IndexEntries\<close> and \<open>IndexProps\<close> show that any sequence of
  these keeps the page and every free count exact, that allocation is first fit, that taking references is all or nothing, that
  freeing undoes allocating and referencing, and what the two checksums detect.

  \<^bold>\<open>Commands and initiators.\<close> \<open>Scsi\<close> (\<^verbatim>\<open>qsio_ccb.h\<close>, \<^verbatim>\<open>vdevdefs.c\<close>): the command block, sense data, response
  buffers. \<open>FcRules\<close> (\<^verbatim>\<open>vdevdefs.c\<close>): the access rules of Fibre Channel ports. \<open>Initiator\<close> (\<^verbatim>\<open>vdevdefs.h\<close>,
  \<^verbatim>\<open>vdevdefs.c\<close>): task set, unit attention queue and the table of initiators of a disk. \<open>DeviceQueue\<close> (\<^verbatim>\<open>gdevq.c\<close>): the queues
  of a device and the abort functions. \<open>TaskSet\<close> shows that no command of a task set is forgotten and in which order commands
  start; \<open>InitiatorProps\<close> that the rules refine a finite map and are enforced, and that unit attentions are a bounded FIFO;
  \<open>DeviceQueueProps\<close>, through the locale \<open>fifo\<close> interpreted on both queues of a device, that they serve in order, and
  which commands an abort marks.

  \<^bold>\<open>Reservations.\<close> \<open>Reservation\<close>, \<open>PersistentReserve\<close> and \<open>ReserveIn\<close> (\<^verbatim>\<open>reservation.c\<close>, \<^verbatim>\<open>reservation.h\<close>, \<^verbatim>\<open>node_sync.c\<close>,
  \<^verbatim>\<open>node_mirror.c\<close>): the service actions of PERSISTENT RESERVE OUT and IN with the messages they send; \<open>TdiskCmd\<close>
  (\<^verbatim>\<open>tdisk.c\<close>): the conflict check, RESERVE and RELEASE. \<open>ReservationProps\<close>: the invariant of registrations and holder, the
  conflict check against the reservation types, PREEMPT. \<open>ReplicaProps\<close>: the locale \<open>replicated\<close> is the
  contract between a node that logs its changes and one that applies them; its interpretation shows that the peer follows.
  \<open>ReserveInProps\<close>: what the client reads back and which requests overrun their buffer.

  \<^bold>\<open>Disk commands.\<close> \<open>LbaLock\<close>, \<open>LbaLockProps\<close> (\<^verbatim>\<open>tdisk.c\<close>): the range locks, their mutual exclusion and progress in every interleaving.
  \<open>DiskInfo\<close>, \<open>DiskInfoProps\<close>: INQUIRY, MODE SENSE, READ CAPACITY, byte for byte, and their bounds. \<open>DataCmd\<close>, \<open>DataCmdProps\<close>:
  which blocks the data commands name, UNMAP and WRITE SAME. \<open>CopyMgr\<close>, \<open>CopyMgrProps\<close> (\<^verbatim>\<open>copymgr.c\<close>): tokens, their reference counts,
  and the copies of WRITE USING TOKEN. \<open>ProcCmd\<close>: \<^verbatim>\<open>tdisk_proc_cmd\<close> as a whole; \<open>ProcProps\<close> and this theory lift
  the properties of the parts to sequences of commands.

  \<^bold>\<open>Compression.\<close> \<open>Lzf\<close> (\<^verbatim>\<open>lzf_c.c\<close>, \<^verbatim>\<open>lzf_d.c\<close>), \<open>LzfProps\<close>: round trip, and memory safety on arbitrary input.

  \<^bold>\<open>Termination.\<close> There is no fuel. Loops are structural or have a termination proof, but for two whose step can be zero in the code:
  \<open>write_same_loop\<close> and \<open>rod_copy_loop\<close> are partial functions into \<open>option\<close>, where not returning is
  \<open>None\<close>; the properties say when they return, and for \<open>write_same_loop\<close> also when they do not.

  \<^bold>\<open>Parameters.\<close> \<open>alloc\<close> (the kernel allocator, with \<open>allocates\<close> as hypothesis: it returns a buffer of the size asked for),
  \<open>pages_ok\<close>, \<open>write_ok\<close>, \<open>ref_ok\<close> and the record \<open>copy_env\<close> (whether pages can be allocated, written, referenced, read),
  \<open>mirror_env\<close> (what the mirror peer replies), \<open>ticks_to_msecs\<close>. The clock is an argument.

  \<^bold>\<open>Not modelled.\<close> The address maps and the read and write path behind the data commands (\<^verbatim>\<open>amap.c\<close>, most of \<^verbatim>\<open>tdisk.c\<close> from
  \<^verbatim>\<open>amap_table_load\<close> to \<^verbatim>\<open>tdisk_cmd_write\<close>), the deduplication table, the transaction log, the caches, and the clone and delete
  managers: they are threads that exchange pages with devices through callbacks, and their state is the content of those devices.
  EXTENDED COPY ends at the outcome \<open>Copies\<close> of \<open>tdisk_proc_cmd\<close>. LZ4 is word-wise pointer code, of which the core uses
  LZF's interface only by configuration. Sockets, message loops and start-up of the cluster; SHA-256, which is assembly;
  the kernel glue of \<^verbatim>\<open>export\<close>; the third-party target drivers; the user space daemon, its database and the management programs.
\<close>

unbundle bit_operations_syntax

section \<open>Sequences of commands\<close>



text \<open>
  C13. Pending unit attentions are reported one per command, in the order they were raised, and each once: on a node that is
  ready, as many commands of an initiator as it has pending conditions (INQUIRY, REPORT LUNS and REQUEST SENSE
  excepted) are all answered with CHECK CONDITION and exactly these conditions. Afterwards the initiator has
  none left; no other initiator's are touched.
\<close>

theorem unit_attentions_reported_in_order:
  assumes "\<not> standby env" "disk_ready env" "mirror_ready env" "\<not> log_error env"
    and "find (\<lambda>s. istate_iid s = who) (istate_list td) = Some istate" "length cs = length (sense_list istate)"
    and "list_all (\<lambda>c. ctio_iid c = who \<and> cdb8 c 0 \<notin> {INQUIRY, REPORT_LUNS, REQUEST_SENSE}) cs"
    and "tdisk_proc_run env td cs = (rs, td')"
  shows "map reported rs = map Some (sense_list istate) \<and>
    find (\<lambda>s. istate_iid s = who) (istate_list td') = Some (istate\<lparr>sense_list := []\<rparr>) \<and>
    (other \<noteq> who \<longrightarrow> find (\<lambda>s. istate_iid s = other) (istate_list td') = find (\<lambda>s. istate_iid s = other) (istate_list td))"
  using assms(5-8)
proof (induction cs arbitrary: td istate rs td')
  case (Cons c cs)
  obtain x xs where x: "sense_list istate = x # xs" using Cons.prems(2) by (cases "sense_list istate") auto
  have c: "ctio_iid c = who" "cdb8 c 0 \<notin> {INQUIRY, REPORT_LUNS, REQUEST_SENSE}" using Cons.prems(3) by simp_all
  define td1 where "td1 = td\<lparr>istate_list := istate_update who (\<lambda>_. istate\<lparr>sense_list := xs\<rparr>) (istate_list td)\<rparr>"
  have p: "tdisk_proc_cmd env td c = Sent (ctio_free_data (device_move_sense c x)) td1"
    using proc_reports_sense [OF assms(1-4) _ x c(2)] Cons.prems(1) unfolding td1_def c(1) by simp
  obtain rs1 where run: "tdisk_proc_run env td1 cs = (rs1, td')" "rs = Sent (ctio_free_data (device_move_sense c x)) td1 # rs1"
    using Cons.prems(4) p by (auto simp: Let_def split: prod.splits)
  have "istate_iid istate = who" using Cons.prems(1) by (metis (mono_tags, lifting) find_Some_iff)
  then have f: "find (\<lambda>s. istate_iid s = i) (istate_list td1) =
      (if i = who then Some (istate\<lparr>sense_list := xs\<rparr>) else find (\<lambda>s. istate_iid s = i) (istate_list td))" for i
    unfolding td1_def by (simp add: find_istate_update [OF Cons.prems(1)] del: prod.inject)
  have rep: "reported (Sent (ctio_free_data (device_move_sense c x)) td1) = Some x"
    by (simp add: reported_def device_move_sense_def ctio_allocate_sense_def ctio_free_data_def)
  have "find (\<lambda>s. istate_iid s = who) (istate_list td1) = Some (istate\<lparr>sense_list := xs\<rparr>)" by (simp add: f)
  from Cons.IH [OF this _ _ run(1)] Cons.prems(2,3) x rep f [of other] run(2) show ?case by simp
qed simp

section \<open>Examples\<close>

definition sample_env :: node_env where
  "sample_env = \<lparr>standby = False, disk_ready = True, mirror_ready = True, kern_inited = True, log_error = False, alloc = zero_alloc,
     pages_ok = (\<lambda>_. True), write_ok = (\<lambda>_ _. True), peer = no_mirror, unit = sample_unit, target_lun = 0, bus = 0\<rparr>"

text \<open>A disk with two initiators, the second of which has two conditions pending.\<close>

definition sample_shared :: tdisk where
  "sample_shared = sample_disk\<lparr>istate_list := [init_istate ((1, 0), (0, 0), 3) 0,
     (init_istate ((2, 0), (0, 0), 3) 0)\<lparr>sense_list := [fill_sense_info 0x70 6 0 (0x29, 0), fill_sense_info 0x70 6 0 (0x2A, 3)]\<rparr>]\<rparr>"

abbreviation (input) data_cmd10 :: "u64 \<Rightarrow> u8 \<Rightarrow> qsio_scsiio" where
  "data_cmd10 who opcode \<equiv> (pr_cmd who 0 0 0 0)\<lparr>cdb := [opcode, 0, 0, 0, 0, 1, 0, 0, 1, 0]\<rparr>"

lemma sample_shared_run:
  "reservation (snd (tdisk_proc_run sample_env sample_shared [pr_cmd 1 0 0 0 5, pr_cmd 1 1 3 5 0])) = reservation sample_reserved"
  by code_simp



theorem unit_attentions_reported_in_order_witness:
  "map reported (fst (tdisk_proc_run sample_env sample_shared [data_cmd10 2 READ_10, data_cmd10 2 WRITE_10])) =
     [Some (fill_sense_info 0x70 6 0 (0x29, 0)), Some (fill_sense_info 0x70 6 0 (0x2A, 3))]"
proof -
  let ?i = "(init_istate ((2, 0), (0, 0), 3) 0)\<lparr>sense_list := [fill_sense_info 0x70 6 0 (0x29, 0), fill_sense_info 0x70 6 0 (0x2A, 3)]\<rparr>"
  have f: "find (\<lambda>s. istate_iid s = ((2, 0), (0, 0), 3)) (istate_list sample_shared) = Some ?i"
    by (simp add: sample_shared_def init_istate_def)
  have e: "\<not> standby sample_env" "disk_ready sample_env" "mirror_ready sample_env" "\<not> log_error sample_env" by (simp_all add: sample_env_def)
  from unit_attentions_reported_in_order [OF e f _ _ prod.collapse [symmetric], of "[data_cmd10 2 READ_10, data_cmd10 2 WRITE_10]"]
  show ?thesis by (simp add: pr_cmd_def)
qed

end
